theory Spec2Isabelle
  imports Main "HOL-Library.Word" "HOL-Library.Monad_Syntax" "HOL-Library.Log_Nat" "HOL-Library.Sublist"
begin

section \<open>Values and results shared by the rewrite patterns\<close>

text \<open>
  A value of the operation graph is either a block argument (owning block, argument
  number) or a result of an operation (defining operation, result number).  Operations
  and blocks are addressed by stable indices.
\<close>

type_synonym op_id = nat
type_synonym block_id = nat

datatype val = BlockArgument block_id nat | OpResult op_id nat

fun isBlockArgument :: "val \<Rightarrow> bool" where
  "isBlockArgument (BlockArgument b n) = True"
| "isBlockArgument (OpResult i k) = False"

datatype LogicalResult = failure | success

text \<open>
  Every pattern runs in the option monad: \<open>None\<close> is an abort of the compiler (an
  out-of-range operand or element access, a failed cast, undefined behaviour of the
  C++ arithmetic); \<open>Some (failure, g)\<close> and \<open>Some (success, g)\<close> are the two returns
  of \<open>matchAndRewrite\<close>, with the graph as the pattern left it.
\<close>

definition nth_opt :: "'a list \<Rightarrow> nat \<Rightarrow> 'a option" where
  "nth_opt xs i = (if i < length xs then Some (xs ! i) else None)"

section \<open>Rewrite.cpp: the loop trip-count pattern\<close>

subsection \<open>The C++ arithmetic of the derived trip count\<close>

text \<open>
  \<open>int64_t derivedTripCount = ceil((1.0 * (upperBound - lowerBound)) / (1.0 * step))\<close>.
  The subtraction is a signed 64-bit subtraction (overflow is undefined behaviour), each
  operand of the division is the \<open>int64_t\<close> converted to an IEEE-754 binary64 number
  (round to nearest, ties to even; the product with \<open>1.0\<close> is exact), the quotient is
  rounded the same way, \<open>ceil\<close> is exact, and the conversion back to \<open>int64_t\<close> is
  undefined when the value is out of range.  A finite binary64 number is kept as the
  rational it denotes.  Overflow to infinity and subnormal results cannot arise for
  operands between \<open>2^-1074\<close> and \<open>2^1023\<close> in magnitude whose quotient stays in the
  normal range, which holds for all 64-bit integers.
\<close>

definition INT64_MIN :: int where "INT64_MIN = - (2 ^ 63)"
definition INT64_MAX :: int where "INT64_MAX = 2 ^ 63 - 1"

definition int64_sub :: "int \<Rightarrow> int \<Rightarrow> int option" where
  "int64_sub a b = (if INT64_MIN \<le> a - b \<and> a - b \<le> INT64_MAX then Some (a - b) else None)"

text \<open>
  \<open>round_binary64 n d\<close> is the binary64 number nearest to \<open>n / d\<close> for \<open>n > 0\<close>, \<open>d > 0\<close>:
  the quotient is scaled by a power of two so that its integer part has exactly
  53 bits, and that integer part is rounded to nearest, ties to even.
\<close>

definition round_binary64_pos :: "int \<Rightarrow> int \<Rightarrow> rat" where
  "round_binary64_pos n d =
     (let k = bitlen n - bitlen d;
          t0 = 53 - k;
          n0 = n * 2 ^ nat t0; d0 = d * 2 ^ nat (- t0);
          t = (if d0 * 2 ^ 53 \<le> n0 then t0 - 1 else t0);
          n1 = n * 2 ^ nat t; d1 = d * 2 ^ nat (- t);
          q = n1 div d1; r = n1 mod d1;
          m = (if d1 < 2 * r \<or> (2 * r = d1 \<and> odd q) then q + 1 else q)
      in of_int (m * 2 ^ nat (- t)) / of_int (2 ^ nat t))"

definition round_binary64 :: "int \<Rightarrow> int \<Rightarrow> rat" where
  "round_binary64 n d =
     (if n = 0 then 0
      else if 0 < n then round_binary64_pos n d
      else - round_binary64_pos (- n) d)"

definition double_of_int64 :: "int \<Rightarrow> rat" where
  "double_of_int64 n = round_binary64 n 1"

definition double_div :: "rat \<Rightarrow> rat \<Rightarrow> rat" where
  "double_div x y =
     (let (a, b) = quotient_of x; (c, d) = quotient_of y
      in if 0 < c then round_binary64 (a * d) (b * c) else round_binary64 (- (a * d)) (b * (- c)))"

definition double_ceil :: "rat \<Rightarrow> rat" where
  "double_ceil x = of_int \<lceil>x\<rceil>"

definition int64_of_double :: "rat \<Rightarrow> int option" where
  "int64_of_double x =
     (let z = (if 0 \<le> x then \<lfloor>x\<rfloor> else \<lceil>x\<rceil>)
      in if INT64_MIN \<le> z \<and> z \<le> INT64_MAX then Some z else None)"

definition derivedTripCount :: "int \<Rightarrow> int \<Rightarrow> int \<Rightarrow> int option" where
  "derivedTripCount lowerBound upperBound step =
     do {
       range \<leftarrow> int64_sub upperBound lowerBound;
       int64_of_double (double_ceil (double_div (double_of_int64 range) (double_of_int64 step)))
     }"

subsection \<open>The operation graph at the ONNX level\<close>

text \<open>
  An operation has a kind (with the attributes and regions the pattern reads) and an
  ordered operand list.  The graph is an arena of operations addressed by index; a new
  operation is appended, so existing indices stay stable.  The element type of every
  value is kept beside the arena.
\<close>

datatype elem_type = IntegerType nat | FloatType nat | OtherElemType

fun isIntegerType :: "elem_type \<Rightarrow> bool" where
  "isIntegerType (IntegerType w) = True"
| "isIntegerType (FloatType w) = False"
| "isIntegerType OtherElemType = False"

text \<open>
  The \<open>value\<close> attribute of a constant: a dense elements attribute (its elements as the
  64-bit integers \<open>getSExtValue\<close> reads) or some other attribute.
\<close>

datatype attribute = DenseElementsAttr "64 word list" | OtherAttr

record block =
  blockId :: block_id
  numArguments :: nat
  blockOps :: "op_id list"

record 'k operation =
  kind :: 'k
  operands :: "val list"

datatype onnx_kind =
    ONNXConstantOp attribute
  | ONNXAddOp
  | ONNXLessOp
  | ONNXReturnOp
  | ONNXLoopOp "block list"
  | ONNXCastOp elem_type
  | ONNXSubOp
  | ONNXDivOp
  | ONNXCeilOp
  | ONNXMinOp
  | OtherONNXOp

record onnx_graph =
  onnxOps :: "onnx_kind operation list"
  elementType :: "val \<Rightarrow> elem_type"

definition getOp :: "onnx_graph \<Rightarrow> op_id \<Rightarrow> onnx_kind operation option" where
  "getOp g i = nth_opt (onnxOps g) i"

definition setOp :: "onnx_graph \<Rightarrow> op_id \<Rightarrow> onnx_kind operation \<Rightarrow> onnx_graph" where
  "setOp g i opn = g\<lparr>onnxOps := (onnxOps g)[i := opn]\<rparr>"

text \<open>The builder: the new operation gets the next index; its single result is typed.\<close>

definition createOp :: "onnx_graph \<Rightarrow> onnx_kind \<Rightarrow> val list \<Rightarrow> elem_type \<Rightarrow> val \<times> onnx_graph" where
  "createOp g k args ty =
     (let v = OpResult (length (onnxOps g)) 0
      in (v, g\<lparr>onnxOps := onnxOps g @ [\<lparr>kind = k, operands = args\<rparr>],
                elementType := (elementType g)(v := ty)\<rparr>))"

text \<open>\<open>Block::getTerminator\<close>: the last operation of the block.\<close>

definition getTerminator :: "block \<Rightarrow> op_id option" where
  "getTerminator b = (if blockOps b = [] then None else Some (last (blockOps b)))"

definition getArgument :: "block \<Rightarrow> nat \<Rightarrow> val option" where
  "getArgument b n = (if n < numArguments b then Some (BlockArgument (blockId b) n) else None)"

text \<open>\<open>Operation::setOperand\<close> and \<open>Operation::replaceUsesOfWith\<close>.\<close>

definition setOperand :: "'k operation \<Rightarrow> nat \<Rightarrow> val \<Rightarrow> 'k operation option" where
  "setOperand opn i v =
     (if i < length (operands opn) then Some (opn\<lparr>operands := (operands opn)[i := v]\<rparr>) else None)"

definition replaceUsesOfWith :: "'k operation \<Rightarrow> val \<Rightarrow> val \<Rightarrow> 'k operation" where
  "replaceUsesOfWith opn from to =
     opn\<lparr>operands := map (\<lambda>v. if v = from then to else v) (operands opn)\<rparr>"

subsection \<open>The helper predicates of LoopOpRewriteMaxTripCountPattern\<close>

fun isDenseConstant :: "onnx_kind \<Rightarrow> bool" where
  "isDenseConstant (ONNXConstantOp (DenseElementsAttr ws)) = True"
| "isDenseConstant k = False"

definition isDefinedByIntegerConstantOp :: "onnx_graph \<Rightarrow> val \<Rightarrow> bool option" where
  "isDefinedByIntegerConstantOp g v =
     (case v of
        BlockArgument b n \<Rightarrow> Some False
      | OpResult i k \<Rightarrow>
          do {
            definingOp \<leftarrow> getOp g i;
            Some (isIntegerType (elementType g v) \<and> isDenseConstant (kind definingOp))
          })"

text \<open>
  \<open>getArgNumber() - 1\<close> is a subtraction of 32-bit unsigned numbers: argument number
  0 wraps to \<open>2^32 - 1\<close>, and the operand access is then out of range.
\<close>

definition argNumberMinusOne :: "nat \<Rightarrow> nat" where
  "argNumberMinusOne n = (if n = 0 then 4294967295 else n - 1)"

definition isInvariantBlockArg :: "val \<Rightarrow> val list \<Rightarrow> bool option" where
  "isInvariantBlockArg v returnOperands =
     (case v of
        OpResult i k \<Rightarrow> Some False
      | BlockArgument b n \<Rightarrow>
          do {
            r \<leftarrow> nth_opt returnOperands (argNumberMinusOne n);
            Some (v = r)
          })"

definition isIntConstantOrInvariantBlockArg ::
  "onnx_graph \<Rightarrow> val \<Rightarrow> val list \<Rightarrow> bool option" where
  "isIntConstantOrInvariantBlockArg g v returnOperands =
     (if isBlockArgument v then isInvariantBlockArg v returnOperands
      else isDefinedByIntegerConstantOp g v)"

definition isUpdatedArgByValue :: "val \<Rightarrow> val \<Rightarrow> val list \<Rightarrow> bool option" where
  "isUpdatedArgByValue v newV returnOperands =
     (case v of
        OpResult i k \<Rightarrow> Some False
      | BlockArgument b n \<Rightarrow>
          do {
            r \<leftarrow> nth_opt returnOperands (argNumberMinusOne n);
            Some (newV = r)
          })"

definition getFedValue :: "val \<Rightarrow> val list \<Rightarrow> val option" where
  "getFedValue arg loopOperands =
     (case arg of
        OpResult i k \<Rightarrow> None
      | BlockArgument b n \<Rightarrow> nth_opt loopOperands n)"

definition getOneIntegerConstant :: "onnx_graph \<Rightarrow> val \<Rightarrow> int option" where
  "getOneIntegerConstant g v =
     (case v of
        BlockArgument b n \<Rightarrow> None
      | OpResult i k \<Rightarrow>
          do {
            definingOp \<leftarrow> getOp g i;
            (case kind definingOp of
               ONNXConstantOp (DenseElementsAttr ws) \<Rightarrow>
                 (case ws of [] \<Rightarrow> None | w # rest \<Rightarrow> Some (sint w))
             | _ \<Rightarrow> None)
          })"

subsection \<open>matchOp\<close>

text \<open>
  Lines 646-713 of Rewrite.cpp: the body is one block ending in a return whose first
  operand is a less-than of an add of a block argument and a step.  The result is
  \<open>Some None\<close> for "no match", and the lower bound, upper bound and step values (the
  last two as they stand inside the loop) with the operands of the return otherwise.
\<close>

definition matchIdiom ::
  "onnx_graph \<Rightarrow> val list \<Rightarrow> block list \<Rightarrow> (val \<times> val \<times> val \<times> val list) option option" where
  "matchIdiom g loopOperands loopBody =
     (if length loopBody \<noteq> 1 then Some None
      else do {
        returnId \<leftarrow> getTerminator (hd loopBody);
        returnOp \<leftarrow> getOp g returnId;
        if kind returnOp \<noteq> ONNXReturnOp then Some None
        else do {
          breakCond \<leftarrow> nth_opt (operands returnOp) 0;
          (case breakCond of
             BlockArgument b n \<Rightarrow> Some None
           | OpResult lessId k \<Rightarrow>
               do {
                 breakCondOp \<leftarrow> getOp g lessId;
                 if kind breakCondOp \<noteq> ONNXLessOp then Some None
                 else do {
                   newCounterValue \<leftarrow> nth_opt (operands breakCondOp) 0;
                   ubValue \<leftarrow> nth_opt (operands breakCondOp) 1;
                   if \<not> isIntegerType (elementType g newCounterValue) then Some None
                   else
                     (case newCounterValue of
                        BlockArgument b n \<Rightarrow> Some None
                      | OpResult addId k' \<Rightarrow>
                          do {
                            addOp \<leftarrow> getOp g addId;
                            if kind addOp \<noteq> ONNXAddOp then Some None
                            else do {
                              counterValue \<leftarrow> nth_opt (operands addOp) 0;
                              stepValue \<leftarrow> nth_opt (operands addOp) 1;
                              updated \<leftarrow> isUpdatedArgByValue counterValue newCounterValue (operands returnOp);
                              if \<not> updated then Some None
                              else do {
                                stepOk \<leftarrow> isIntConstantOrInvariantBlockArg g stepValue (operands returnOp);
                                if \<not> stepOk then Some None
                                else do {
                                  lbValue \<leftarrow> getFedValue counterValue loopOperands;
                                  ubOk \<leftarrow> isIntConstantOrInvariantBlockArg g ubValue (operands returnOp);
                                  if \<not> ubOk then Some None
                                  else Some (Some (lbValue, ubValue, stepValue, operands returnOp))
                                }
                              }
                            }
                          })
                 }
               })
        }
      })"

text \<open>
  Lines 715-727: an invariant block argument is replaced by the value fed to it from
  outside the loop; a constant of the body is cloned outside the loop.
\<close>

definition hoistOutOfLoop ::
  "onnx_graph \<Rightarrow> val \<Rightarrow> val list \<Rightarrow> val list \<Rightarrow> (val \<times> onnx_graph) option" where
  "hoistOutOfLoop g v returnOperands loopOperands =
     do {
       invariant \<leftarrow> isInvariantBlockArg v returnOperands;
       if invariant then do { fed \<leftarrow> getFedValue v loopOperands; Some (fed, g) }
       else
         (case v of
            BlockArgument b n \<Rightarrow> None
          | OpResult i k \<Rightarrow>
              do {
                definingOp \<leftarrow> getOp g i;
                (case kind definingOp of
                   ONNXConstantOp a \<Rightarrow>
                     Some (createOp g (ONNXConstantOp a) (operands definingOp) (elementType g v))
                 | _ \<Rightarrow> None)
              })
     }"

text \<open>
  Lines 734-752, case 1: the three bounds are constants.  The new constant holds the
  derived trip count in the element type of the old maximum trip count.
\<close>

definition constantCase ::
  "onnx_graph \<Rightarrow> val \<Rightarrow> val \<Rightarrow> val \<Rightarrow> val \<Rightarrow> (bool \<times> val \<times> onnx_graph) option" where
  "constantCase g maxTripCountValue lbValue ubValue stepValue =
     do {
       lowerBound \<leftarrow> getOneIntegerConstant g lbValue;
       upperBound \<leftarrow> getOneIntegerConstant g ubValue;
       step \<leftarrow> getOneIntegerConstant g stepValue;
       if step \<le> 0 \<or> upperBound \<le> lowerBound then Some (False, maxTripCountValue, g)
       else do {
         derived \<leftarrow> derivedTripCount lowerBound upperBound step;
         maxTripCount \<leftarrow> getOneIntegerConstant g maxTripCountValue;
         if maxTripCount \<le> derived then Some (False, maxTripCountValue, g)
         else
           (let (v, g') = createOp g (ONNXConstantOp (DenseElementsAttr [word_of_int derived])) []
                            (elementType g maxTripCountValue)
            in Some (True, v, g'))
       }
     }"

text \<open>
  Lines 759-779, case 2: emit \<open>min(maxTripCount, cast(ceil(cast(ub - lb) / cast(step))))\<close>.
\<close>

definition emitCase ::
  "onnx_graph \<Rightarrow> val \<Rightarrow> val \<Rightarrow> val \<Rightarrow> val \<Rightarrow> (bool \<times> val \<times> onnx_graph)" where
  "emitCase g maxTripCountValue lbValue ubValue stepValue =
     (let tripCountType = elementType g maxTripCountValue;
          (ubValue1, g1) =
             (if tripCountType \<noteq> elementType g ubValue
              then createOp g (ONNXCastOp tripCountType) [ubValue] tripCountType else (ubValue, g));
          (lbValue1, g2) =
             (if tripCountType \<noteq> elementType g1 lbValue
              then createOp g1 (ONNXCastOp tripCountType) [lbValue] tripCountType else (lbValue, g1));
          (range, g3) = createOp g2 ONNXSubOp [ubValue1, lbValue1] tripCountType;
          (rangeInFloat, g4) = createOp g3 (ONNXCastOp (FloatType 32)) [range] (FloatType 32);
          (stepInFloat, g5) = createOp g4 (ONNXCastOp (FloatType 32)) [stepValue] (FloatType 32);
          (quotient, g6) = createOp g5 ONNXDivOp [rangeInFloat, stepInFloat] (FloatType 32);
          (tripCountInFloat, g7) = createOp g6 ONNXCeilOp [quotient] (FloatType 32);
          (newMaxTripCountValue, g8) =
             createOp g7 (ONNXCastOp tripCountType) [tripCountInFloat] tripCountType;
          (minimum, g9) = createOp g8 ONNXMinOp [maxTripCountValue, newMaxTripCountValue] tripCountType
      in (True, minimum, g9))"

definition matchOp :: "onnx_graph \<Rightarrow> op_id \<Rightarrow> (bool \<times> val \<times> onnx_graph) option" where
  "matchOp g loopId =
     do {
       loopOp \<leftarrow> getOp g loopId;
       (case kind loopOp of
          ONNXLoopOp loopBody \<Rightarrow>
            do {
              maxTripCountValue \<leftarrow> nth_opt (operands loopOp) 0;
              maxIsConstant \<leftarrow> isDefinedByIntegerConstantOp g maxTripCountValue;
              if \<not> maxIsConstant then Some (False, maxTripCountValue, g)
              else do {
                idiom \<leftarrow> matchIdiom g (operands loopOp) loopBody;
                (case idiom of
                   None \<Rightarrow> Some (False, maxTripCountValue, g)
                 | Some (lbValue, ubValue0, stepValue0, returnOperands) \<Rightarrow>
                     do {
                       (ubValue, g1) \<leftarrow> hoistOutOfLoop g ubValue0 returnOperands (operands loopOp);
                       (stepValue, g2) \<leftarrow> hoistOutOfLoop g1 stepValue0 returnOperands (operands loopOp);
                       lbConstant \<leftarrow> isDefinedByIntegerConstantOp g2 lbValue;
                       ubConstant \<leftarrow> isDefinedByIntegerConstantOp g2 ubValue;
                       stepConstant \<leftarrow> isDefinedByIntegerConstantOp g2 stepValue;
                       if lbConstant \<and> ubConstant \<and> stepConstant
                       then constantCase g2 maxTripCountValue lbValue ubValue stepValue
                       else Some (emitCase g2 maxTripCountValue lbValue ubValue stepValue)
                     })
              }
            }
        | _ \<Rightarrow> None)
     }"

subsection \<open>matchAndRewrite\<close>

definition matchAndRewrite :: "onnx_graph \<Rightarrow> op_id \<Rightarrow> (LogicalResult \<times> onnx_graph) option" where
  "matchAndRewrite g loopId =
     do {
       loopOp \<leftarrow> getOp g loopId;
       (case kind loopOp of
          ONNXLoopOp loopBody \<Rightarrow>
            do {
              maxTripCountValue \<leftarrow> nth_opt (operands loopOp) 0;
              (matched, newMaxTripCountValue, g1) \<leftarrow> matchOp g loopId;
              if \<not> matched then Some (failure, g1)
              else do {
                let g2 = setOp g1 loopId (replaceUsesOfWith loopOp maxTripCountValue newMaxTripCountValue);
                bodyBlock \<leftarrow> nth_opt loopBody 0;
                returnId \<leftarrow> getTerminator bodyBlock;
                loopBodyTerminator \<leftarrow> getOp g2 returnId;
                continueFlag \<leftarrow> getArgument bodyBlock 1;
                rewritten \<leftarrow> setOperand loopBodyTerminator 0 continueFlag;
                Some (success, setOp g2 returnId rewritten)
              }
            }
        | _ \<Rightarrow> None)
     }"

subsection \<open>The loop of the comment above LoopOpRewriteMaxTripCountPattern\<close>

text \<open>
  \<open>for (k = LB; k < UB; k = k + Step)\<close> written as a loop operation: operations 0 to 3
  are the maximum trip count, the initial condition, the upper bound and the lower
  bound; the body block (arguments: iteration number, condition, upper bound, counter)
  holds the step constant 4, the add 5, the less-than 6 and the return 7; operation 8 is
  the loop.  The lower bound value fed to the loop is a parameter: the constant 3, or a
  value that is not a constant.
\<close>

definition exampleBody :: block where
  "exampleBody = \<lparr>blockId = 1, numArguments = 4, blockOps = [4, 5, 6, 7]\<rparr>"

definition exampleLoopOp :: "val \<Rightarrow> onnx_kind operation" where
  "exampleLoopOp lb = \<lparr>kind = ONNXLoopOp [exampleBody],
                       operands = [OpResult 0 0, OpResult 1 0, OpResult 2 0, lb]\<rparr>"

definition exampleReturnOperands :: "val list" where
  "exampleReturnOperands = [OpResult 6 0, BlockArgument 1 2, OpResult 5 0]"

definition exampleOps :: "val \<Rightarrow> int \<Rightarrow> int \<Rightarrow> int \<Rightarrow> int \<Rightarrow> onnx_kind operation list" where
  "exampleOps lb maxTripCount lowerBound upperBound step =
        [\<lparr>kind = ONNXConstantOp (DenseElementsAttr [word_of_int maxTripCount]), operands = []\<rparr>,
         \<lparr>kind = OtherONNXOp, operands = []\<rparr>,
         \<lparr>kind = ONNXConstantOp (DenseElementsAttr [word_of_int upperBound]), operands = []\<rparr>,
         \<lparr>kind = ONNXConstantOp (DenseElementsAttr [word_of_int lowerBound]), operands = []\<rparr>,
         \<lparr>kind = ONNXConstantOp (DenseElementsAttr [word_of_int step]), operands = []\<rparr>,
         \<lparr>kind = ONNXAddOp, operands = [BlockArgument 1 3, OpResult 4 0]\<rparr>,
         \<lparr>kind = ONNXLessOp, operands = [OpResult 5 0, BlockArgument 1 2]\<rparr>,
         \<lparr>kind = ONNXReturnOp, operands = exampleReturnOperands\<rparr>,
         exampleLoopOp lb]"

definition exampleLoop :: "val \<Rightarrow> int \<Rightarrow> int \<Rightarrow> int \<Rightarrow> int \<Rightarrow> onnx_graph" where
  "exampleLoop lb maxTripCount lowerBound upperBound step =
     \<lparr>onnxOps = exampleOps lb maxTripCount lowerBound upperBound step,
      elementType = (\<lambda>v. IntegerType 64)\<rparr>"

text \<open>The example after the step constant has been cloned out of the loop (operation 9).\<close>

definition exampleHoisted :: "val \<Rightarrow> int \<Rightarrow> int \<Rightarrow> int \<Rightarrow> int \<Rightarrow> onnx_graph" where
  "exampleHoisted lb maxTripCount lowerBound upperBound step =
     snd (createOp (exampleLoop lb maxTripCount lowerBound upperBound step)
            (ONNXConstantOp (DenseElementsAttr [word_of_int step])) [] (IntegerType 64))"

text \<open>
  The example after a successful rewrite in the constant case: operation 10 is the new
  constant holding the trip count \<open>d\<close>, the loop takes it as its first operand, and the
  return passes the second block argument as the condition.
\<close>

definition exampleRewritten :: "int \<Rightarrow> int \<Rightarrow> int \<Rightarrow> int \<Rightarrow> int \<Rightarrow> onnx_graph" where
  "exampleRewritten maxTripCount lowerBound upperBound step d =
     setOp (setOp (snd (createOp (exampleHoisted (OpResult 3 0) maxTripCount lowerBound upperBound step)
                          (ONNXConstantOp (DenseElementsAttr [word_of_int d])) [] (IntegerType 64)))
              8 (exampleLoopOp (OpResult 3 0)
                   \<lparr>operands := [OpResult 10 0, OpResult 1 0, OpResult 2 0, OpResult 3 0]\<rparr>))
       7 \<lparr>kind = ONNXReturnOp, operands = [BlockArgument 1 1, BlockArgument 1 2, OpResult 5 0]\<rparr>"

text \<open>
  The exact integer ceiling of \<open>(upperBound - lowerBound) / step\<close>, as the specification
  states it; the derived trip count of the code is compared with it.
\<close>

definition exactCeiling :: "int \<Rightarrow> int \<Rightarrow> int \<Rightarrow> int" where
  "exactCeiling lowerBound upperBound step =
     \<lceil>(of_int (upperBound - lowerBound) :: rat) / of_int step\<rceil>"

section \<open>ZLowRewrite.cpp: the operation graph of the ZLow patterns\<close>

subsection \<open>Types, affine maps and operations\<close>

text \<open>
  A memref type as far as the patterns read it: its shape (\<open>None\<close> is a dynamic
  dimension) and whether it carries a layout other than the identity.
\<close>

record memref_type =
  shape :: "int option list"
  nonIdentityLayout :: bool

definition hasStaticShape :: "memref_type \<Rightarrow> bool" where
  "hasStaticShape t = list_all (\<lambda>d. d \<noteq> None) (shape t)"

definition hasNonIdentityLayout :: "memref_type \<Rightarrow> bool" where
  "hasNonIdentityLayout t = nonIdentityLayout t"

text \<open>
  The layout tags of the stick and unstick operations, as the comments of
  ZLowRewrite.cpp write them (\<open>{layout = "NCHW"}\<close>).
\<close>

definition LAYOUT_NCHW :: string where "LAYOUT_NCHW = ''NCHW''"
definition LAYOUT_1D :: string where "LAYOUT_1D = ''1D''"
definition LAYOUT_2DS :: string where "LAYOUT_2DS = ''2DS''"

text \<open>
  Affine expressions over dimensions \<open>d0, d1, ...\<close> and symbols \<open>s0, s1, ...\<close>, and
  affine maps \<open>(d0, ..., dn)[s0, ..., sm] -> (e0, ..., ek)\<close>.
\<close>

datatype affine_expr =
    AffineDimExpr nat
  | AffineSymbolExpr nat
  | AffineConstantExpr int
  | AffineAdd affine_expr affine_expr
  | AffineMul affine_expr affine_expr
  | AffineMod affine_expr affine_expr
  | AffineFloorDiv affine_expr affine_expr
  | AffineCeilDiv affine_expr affine_expr

record affine_map =
  numDims :: nat
  numSymbols :: nat
  mapResults :: "affine_expr list"

fun evalExpr :: "(nat \<Rightarrow> int) \<Rightarrow> (nat \<Rightarrow> int) \<Rightarrow> affine_expr \<Rightarrow> int" where
  "evalExpr d s (AffineDimExpr i) = d i"
| "evalExpr d s (AffineSymbolExpr i) = s i"
| "evalExpr d s (AffineConstantExpr c) = c"
| "evalExpr d s (AffineAdd a b) = evalExpr d s a + evalExpr d s b"
| "evalExpr d s (AffineMul a b) = evalExpr d s a * evalExpr d s b"
| "evalExpr d s (AffineMod a b) = evalExpr d s a mod evalExpr d s b"
| "evalExpr d s (AffineFloorDiv a b) = evalExpr d s a div evalExpr d s b"
| "evalExpr d s (AffineCeilDiv a b) = - ((- evalExpr d s a) div evalExpr d s b)"

text \<open>The index tuple a map yields for the dimension values \<open>d\<close> and symbol values \<open>s\<close>.\<close>

definition applyMap :: "affine_map \<Rightarrow> (nat \<Rightarrow> int) \<Rightarrow> (nat \<Rightarrow> int) \<Rightarrow> int list" where
  "applyMap m d s = map (evalExpr d s) (mapResults m)"

text \<open>
  \<open>AffineMap::getPermutationMap\<close>: the permutation \<open>[1, 2, 0]\<close> is the map
  \<open>(d0, d1, d2) -> (d1, d2, d0)\<close>.
\<close>

definition getPermutationMap :: "nat list \<Rightarrow> affine_map" where
  "getPermutationMap permutation =
     \<lparr>numDims = length permutation, numSymbols = 0, mapResults = map AffineDimExpr permutation\<rparr>"

text \<open>
  \<open>AffineMap::compose\<close>: \<open>this.compose(map)\<close> has the dimensions of \<open>map\<close> and the
  symbols of \<open>this\<close> followed by those of \<open>map\<close>; every dimension \<open>d_i\<close> in a result of
  \<open>this\<close> is replaced by the \<open>i\<close>-th result of \<open>map\<close> (with the symbols of \<open>map\<close> shifted
  behind those of \<open>this\<close>).  It asserts that \<open>this\<close> has as many dimensions as \<open>map\<close> has
  results.
\<close>

fun shiftSymbols :: "nat \<Rightarrow> affine_expr \<Rightarrow> affine_expr" where
  "shiftSymbols n (AffineDimExpr i) = AffineDimExpr i"
| "shiftSymbols n (AffineSymbolExpr i) = AffineSymbolExpr (n + i)"
| "shiftSymbols n (AffineConstantExpr c) = AffineConstantExpr c"
| "shiftSymbols n (AffineAdd a b) = AffineAdd (shiftSymbols n a) (shiftSymbols n b)"
| "shiftSymbols n (AffineMul a b) = AffineMul (shiftSymbols n a) (shiftSymbols n b)"
| "shiftSymbols n (AffineMod a b) = AffineMod (shiftSymbols n a) (shiftSymbols n b)"
| "shiftSymbols n (AffineFloorDiv a b) = AffineFloorDiv (shiftSymbols n a) (shiftSymbols n b)"
| "shiftSymbols n (AffineCeilDiv a b) = AffineCeilDiv (shiftSymbols n a) (shiftSymbols n b)"

fun replaceDims :: "affine_expr list \<Rightarrow> affine_expr \<Rightarrow> affine_expr" where
  "replaceDims rs (AffineDimExpr i) = (if i < length rs then rs ! i else AffineDimExpr i)"
| "replaceDims rs (AffineSymbolExpr i) = AffineSymbolExpr i"
| "replaceDims rs (AffineConstantExpr c) = AffineConstantExpr c"
| "replaceDims rs (AffineAdd a b) = AffineAdd (replaceDims rs a) (replaceDims rs b)"
| "replaceDims rs (AffineMul a b) = AffineMul (replaceDims rs a) (replaceDims rs b)"
| "replaceDims rs (AffineMod a b) = AffineMod (replaceDims rs a) (replaceDims rs b)"
| "replaceDims rs (AffineFloorDiv a b) = AffineFloorDiv (replaceDims rs a) (replaceDims rs b)"
| "replaceDims rs (AffineCeilDiv a b) = AffineCeilDiv (replaceDims rs a) (replaceDims rs b)"

definition compose :: "affine_map \<Rightarrow> affine_map \<Rightarrow> affine_map option" where
  "compose this m =
     (if numDims this \<noteq> length (mapResults m) then None
      else Some \<lparr>numDims = numDims m,
                 numSymbols = numSymbols this + numSymbols m,
                 mapResults =
                   map (replaceDims (map (shiftSymbols (numSymbols this)) (mapResults m)))
                       (mapResults this)\<rparr>)"

text \<open>
  The operations the patterns meet.  ZLow stick and unstick take the source \<open>X\<close> and the
  destination \<open>Out\<close> as operands, carry an optional layout tag and define no result; a
  view-like operation, an allocation, an affine load, a dummy conversion and an await
  define one result; an async execute defines a token (result 0) and its body results
  (results 1, 2, ...), and owns the block of its body.
\<close>

datatype mlir_op =
    ZLowStickOp val val "string option"
  | ZLowUnstickOp val val "string option"
  | ViewLikeOp val "val list"
  | MemRefAllocOp "val list"
  | MemRefDeallocOp val
  | AffineLoadOp val "val list" affine_map
  | AffineStoreOp val val "val list" affine_map
  | ZLowDummyOp val
  | AsyncExecuteOp "val list" block_id nat
  | AsyncYieldOp "val list"
  | AsyncAwaitOp val
  | OtherOp "val list" nat

fun getOperands :: "mlir_op \<Rightarrow> val list" where
  "getOperands (ZLowStickOp x out l) = [x, out]"
| "getOperands (ZLowUnstickOp x out l) = [x, out]"
| "getOperands (ViewLikeOp src rest) = src # rest"
| "getOperands (MemRefAllocOp sizes) = sizes"
| "getOperands (MemRefDeallocOp m) = [m]"
| "getOperands (AffineLoadOp m idx f) = m # idx"
| "getOperands (AffineStoreOp v m idx f) = v # m # idx"
| "getOperands (ZLowDummyOp v) = [v]"
| "getOperands (AsyncExecuteOp args body n) = args"
| "getOperands (AsyncYieldOp vs) = vs"
| "getOperands (AsyncAwaitOp v) = [v]"
| "getOperands (OtherOp vs n) = vs"

fun mapOperands :: "(val \<Rightarrow> val) \<Rightarrow> mlir_op \<Rightarrow> mlir_op" where
  "mapOperands f (ZLowStickOp x out l) = ZLowStickOp (f x) (f out) l"
| "mapOperands f (ZLowUnstickOp x out l) = ZLowUnstickOp (f x) (f out) l"
| "mapOperands f (ViewLikeOp src rest) = ViewLikeOp (f src) (map f rest)"
| "mapOperands f (MemRefAllocOp sizes) = MemRefAllocOp (map f sizes)"
| "mapOperands f (MemRefDeallocOp m) = MemRefDeallocOp (f m)"
| "mapOperands f (AffineLoadOp m idx g) = AffineLoadOp (f m) (map f idx) g"
| "mapOperands f (AffineStoreOp v m idx g) = AffineStoreOp (f v) (f m) (map f idx) g"
| "mapOperands f (ZLowDummyOp v) = ZLowDummyOp (f v)"
| "mapOperands f (AsyncExecuteOp args body n) = AsyncExecuteOp (map f args) body n"
| "mapOperands f (AsyncYieldOp vs) = AsyncYieldOp (map f vs)"
| "mapOperands f (AsyncAwaitOp v) = AsyncAwaitOp (f v)"
| "mapOperands f (OtherOp vs n) = OtherOp (map f vs) n"

fun numResults :: "mlir_op \<Rightarrow> nat" where
  "numResults (ZLowStickOp x out l) = 0"
| "numResults (ZLowUnstickOp x out l) = 0"
| "numResults (ViewLikeOp src rest) = 1"
| "numResults (MemRefAllocOp sizes) = 1"
| "numResults (MemRefDeallocOp m) = 0"
| "numResults (AffineLoadOp m idx f) = 1"
| "numResults (AffineStoreOp v m idx f) = 0"
| "numResults (ZLowDummyOp v) = 1"
| "numResults (AsyncExecuteOp args body n) = Suc n"
| "numResults (AsyncYieldOp vs) = 0"
| "numResults (AsyncAwaitOp v) = 1"
| "numResults (OtherOp vs n) = n"

fun isUnstick :: "mlir_op option \<Rightarrow> bool" where
  "isUnstick (Some (ZLowUnstickOp x out l)) = True"
| "isUnstick other = False"

fun isAlloc :: "mlir_op option \<Rightarrow> bool" where
  "isAlloc (Some (MemRefAllocOp sizes)) = True"
| "isAlloc other = False"

fun isDealloc :: "mlir_op option \<Rightarrow> bool" where
  "isDealloc (Some (MemRefDeallocOp m)) = True"
| "isDealloc other = False"

subsection \<open>The graph and the operations of the host on it\<close>

text \<open>
  The graph: an arena of operations addressed by index (\<open>None\<close>: no such operation, or
  erased), the operations of every block in program order, the operation that owns
  each nested block, the use list of every value (one entry per use, in the order the
  host iterates over it; this order is independent of the program order), the type of
  every value, and the next free index.
\<close>

record graph =
  ops :: "op_id \<Rightarrow> mlir_op option"
  blocks :: "(block_id \<times> op_id list) list"
  blockParent :: "block_id \<Rightarrow> op_id option"
  uses :: "val \<Rightarrow> op_id list"
  valueType :: "val \<Rightarrow> memref_type"
  nextId :: op_id

definition hasOneUse :: "graph \<Rightarrow> val \<Rightarrow> bool" where
  "hasOneUse g v = (length (uses g v) = 1)"

definition use_empty :: "graph \<Rightarrow> val \<Rightarrow> bool" where
  "use_empty g v = (uses g v = [])"

definition getUsers :: "graph \<Rightarrow> val \<Rightarrow> op_id list" where
  "getUsers g v = uses g v"

text \<open>\<open>Operation::getBlock\<close>, \<open>Operation::getParentOp\<close> and \<open>Operation::isBeforeInBlock\<close>.\<close>

definition getBlock :: "graph \<Rightarrow> op_id \<Rightarrow> block_id option" where
  "getBlock g i = map_option fst (find (\<lambda>(b, os). i \<in> set os) (blocks g))"

definition blockOperations :: "graph \<Rightarrow> block_id \<Rightarrow> op_id list" where
  "blockOperations g b = (case map_of (blocks g) b of None \<Rightarrow> [] | Some os \<Rightarrow> os)"

definition getParentOp :: "graph \<Rightarrow> op_id \<Rightarrow> op_id option" where
  "getParentOp g i = (case getBlock g i of None \<Rightarrow> None | Some b \<Rightarrow> blockParent g b)"

definition position :: "op_id \<Rightarrow> op_id list \<Rightarrow> nat" where
  "position i os = length (takeWhile (\<lambda>j. j \<noteq> i) os)"

text \<open>
  The order of two operations is their order in the block that holds both.  The host
  asserts that the operation has a block and that the other operation is in the same
  block; where this fails the call has no result (\<open>None\<close>).
\<close>

definition isBeforeInBlock :: "graph \<Rightarrow> op_id \<Rightarrow> op_id \<Rightarrow> bool option" where
  "isBeforeInBlock g a b =
     (case getBlock g a of
        None \<Rightarrow> None
      | Some ba \<Rightarrow>
          if getBlock g b = Some ba
          then Some (position a (blockOperations g ba) < position b (blockOperations g ba))
          else None)"

text \<open>
  \<open>Value::replaceAllUsesWith\<close>.  The host asserts that the new value is not the old one
  (\<open>cannot RAUW a value with itself\<close>); otherwise the call has no result (\<open>None\<close>).  Its loop
  \<open>while (!use_empty()) use_begin()->set(newValue)\<close> is \<open>moveUses\<close>: every operation in the
  use list of the old value gets the new value where it had the old one, and the uses
  move to the use list of the new value (the host prepends them one by one).
\<close>

definition moveUses :: "graph \<Rightarrow> val \<Rightarrow> val \<Rightarrow> graph" where
  "moveUses g old new =
     g\<lparr>ops := (\<lambda>i. if i \<in> set (uses g old)
                      then map_option (mapOperands (\<lambda>v. if v = old then new else v)) (ops g i)
                      else ops g i),
       uses := (uses g)(old := [], new := rev (uses g old) @ uses g new)\<rparr>"

definition replaceAllUsesWith :: "graph \<Rightarrow> val \<Rightarrow> val \<Rightarrow> graph option" where
  "replaceAllUsesWith g old new = (if old = new then None else Some (moveUses g old new))"

text \<open>
  \<open>eraseOp\<close>: a checked removal.  The operation must exist and its results must have no
  uses left (otherwise the compiler aborts); it leaves its block, and its uses leave
  the use lists of its operands.  The patterns erase operations without regions only.
\<close>

definition eraseOp :: "graph \<Rightarrow> op_id \<Rightarrow> graph option" where
  "eraseOp g i =
     (case ops g i of
        None \<Rightarrow> None
      | Some opn \<Rightarrow>
          if list_all (\<lambda>k. uses g (OpResult i k) = []) [0..<numResults opn]
          then Some (g\<lparr>ops := (ops g)(i := None),
                        blocks := map (\<lambda>(b, os). (b, removeAll i os)) (blocks g),
                        uses := (\<lambda>v. removeAll i (uses g v))\<rparr>)
          else None)"

text \<open>\<open>Operation::moveBefore\<close> and the creation of an operation after another one.\<close>

fun insertBefore :: "op_id \<Rightarrow> op_id \<Rightarrow> op_id list \<Rightarrow> op_id list" where
  "insertBefore new anchor [] = []"
| "insertBefore new anchor (j # os) =
     (if j = anchor then new # j # os else j # insertBefore new anchor os)"

fun insertAfter :: "op_id \<Rightarrow> op_id \<Rightarrow> op_id list \<Rightarrow> op_id list" where
  "insertAfter new anchor [] = []"
| "insertAfter new anchor (j # os) =
     (if j = anchor then j # new # os else j # insertAfter new anchor os)"

definition moveBefore :: "graph \<Rightarrow> op_id \<Rightarrow> op_id \<Rightarrow> graph" where
  "moveBefore g i anchor =
     g\<lparr>blocks := map (\<lambda>(b, os). (b, insertBefore i anchor (removeAll i os))) (blocks g)\<rparr>"

definition createAfter :: "graph \<Rightarrow> op_id \<Rightarrow> mlir_op \<Rightarrow> graph \<times> op_id" where
  "createAfter g anchor opn =
     (let i = nextId g
      in (g\<lparr>ops := (ops g)(i \<mapsto> opn),
             blocks := map (\<lambda>(b, os). (b, insertAfter i anchor os)) (blocks g),
             uses := (\<lambda>v. (if v \<in> set (getOperands opn)
                            then replicate (count_list (getOperands opn) v) i else []) @ uses g v),
             nextId := Suc i\<rparr>, i))"

text \<open>
  The values reachable from a set of root values (the declared results of the
  function): a root is reachable, and so is every operand of an operation that defines
  a reachable value.
\<close>

inductive_set reachable :: "graph \<Rightarrow> val set \<Rightarrow> val set" for g :: graph and roots :: "val set" where
  root: "v \<in> roots \<Longrightarrow> v \<in> reachable g roots"
| operand: "OpResult i k \<in> reachable g roots \<Longrightarrow> ops g i = Some opn \<Longrightarrow> k < numResults opn \<Longrightarrow>
            v \<in> set (getOperands opn) \<Longrightarrow> v \<in> reachable g roots"

subsection \<open>UnstickRemovalPattern and StickRemovalPattern\<close>

text \<open>
  A pattern is applied to an operation of its root kind; on any other operation the
  typed handle does not exist (\<open>None\<close>).
\<close>

definition UnstickRemovalPattern :: "graph \<Rightarrow> op_id \<Rightarrow> (LogicalResult \<times> graph) option" where
  "UnstickRemovalPattern g unstickOp =
     (case ops g unstickOp of
        Some (ZLowUnstickOp x out layout) \<Rightarrow>
          if \<not> hasOneUse g out then Some (failure, g)
          else do { g' \<leftarrow> eraseOp g unstickOp; Some (success, g') }
      | _ \<Rightarrow> None)"

definition StickRemovalPattern :: "graph \<Rightarrow> op_id \<Rightarrow> (LogicalResult \<times> graph) option" where
  "StickRemovalPattern g stickOp =
     (case ops g stickOp of
        Some (ZLowStickOp x out layout) \<Rightarrow>
          if \<not> hasOneUse g out then Some (failure, g)
          else do { g' \<leftarrow> eraseOp g stickOp; Some (success, g') }
      | _ \<Rightarrow> None)"

subsection \<open>UnstickStickRemovalPattern\<close>

text \<open>
  Lines 89-100: the first unstick among the users of the stick input (in use-list
  order) that has the stick input as its \<open>Out\<close> and comes before the stick in its block
  (\<open>Some None\<close>: there is none).  The order is asked only of an unstick that has the stick
  input as its \<open>Out\<close>; where the host cannot answer, the search has no result (\<open>None\<close>).
\<close>

fun findUnstickOfStick :: "graph \<Rightarrow> val \<Rightarrow> op_id \<Rightarrow> op_id list \<Rightarrow> op_id option option" where
  "findUnstickOfStick g stickInput stickOp [] = Some None"
| "findUnstickOfStick g stickInput stickOp (user # users) =
     (case ops g user of
        Some (ZLowUnstickOp x out layout) \<Rightarrow>
          if out = stickInput
          then (case isBeforeInBlock g user stickOp of
                  None \<Rightarrow> None
                | Some before \<Rightarrow>
                    if before then Some (Some user)
                    else findUnstickOfStick g stickInput stickOp users)
          else findUnstickOfStick g stickInput stickOp users
      | _ \<Rightarrow> findUnstickOfStick g stickInput stickOp users)"

definition UnstickStickRemovalPattern :: "graph \<Rightarrow> op_id \<Rightarrow> (LogicalResult \<times> graph) option" where
  "UnstickStickRemovalPattern g stickOp =
     (case ops g stickOp of
        Some (ZLowStickOp stickInput stickOut stickLayout) \<Rightarrow>
          if isBlockArgument stickInput then Some (failure, g)
          else
            do {
              found \<leftarrow> findUnstickOfStick g stickInput stickOp (getUsers g stickInput);
              (case found of
                 None \<Rightarrow> Some (failure, g)
               | Some unstickOp \<Rightarrow>
                   (case ops g unstickOp of
                      Some (ZLowUnstickOp unstickX unstickOut unstickLayout) \<Rightarrow>
                        if stickLayout = None \<or> unstickLayout = None then Some (failure, g)
                        else if the stickLayout \<noteq> the unstickLayout then Some (failure, g)
                        else do {
                          g1 \<leftarrow> replaceAllUsesWith g stickOut unstickX;
                          g' \<leftarrow> eraseOp g1 stickOp;
                          Some (success, g')
                        }
                    | _ \<Rightarrow> None))
            }
      | _ \<Rightarrow> None)"

subsection \<open>StickViewUnstickRemovalPattern\<close>

text \<open>
  Lines 166-182: the first unstick among the users of the view source whose layout is
  not NCHW, that has the view source as its \<open>Out\<close> and comes before the view operation.
  Reading the layout of an unstick without layout aborts (\<open>std::optional::value\<close>), and
  the order is asked only of an unstick that has the view source as its \<open>Out\<close>.
\<close>

fun findUnstickOfView :: "graph \<Rightarrow> val \<Rightarrow> op_id \<Rightarrow> op_id list \<Rightarrow> op_id option option" where
  "findUnstickOfView g viewSource viewOp [] = Some None"
| "findUnstickOfView g viewSource viewOp (user # users) =
     (case ops g user of
        Some (ZLowUnstickOp x out layout) \<Rightarrow>
          (case layout of
             None \<Rightarrow> None
           | Some unstickLayout \<Rightarrow>
               if unstickLayout = LAYOUT_NCHW then findUnstickOfView g viewSource viewOp users
               else if out = viewSource
               then (case isBeforeInBlock g user viewOp of
                       None \<Rightarrow> None
                     | Some before \<Rightarrow>
                         if before then Some (Some user)
                         else findUnstickOfView g viewSource viewOp users)
               else findUnstickOfView g viewSource viewOp users)
      | _ \<Rightarrow> findUnstickOfView g viewSource viewOp users)"

definition StickViewUnstickRemovalPattern :: "graph \<Rightarrow> op_id \<Rightarrow> (LogicalResult \<times> graph) option" where
  "StickViewUnstickRemovalPattern g stickOp =
     (case ops g stickOp of
        Some (ZLowStickOp stickInput stickRes layout) \<Rightarrow>
          (case layout of
             None \<Rightarrow> None
           | Some stickLayout \<Rightarrow>
               if stickLayout = LAYOUT_NCHW then Some (failure, g)
               else if isBlockArgument stickInput then Some (failure, g)
               else if hasNonIdentityLayout (valueType g stickInput) then Some (failure, g)
               else
                 (case stickInput of
                    BlockArgument b n \<Rightarrow> None
                  | OpResult viewOp k \<Rightarrow>
                      (case ops g viewOp of
                         None \<Rightarrow> None
                       | Some (ViewLikeOp viewSource rest) \<Rightarrow>
                           do {
                             found \<leftarrow> findUnstickOfView g viewSource viewOp (getUsers g viewSource);
                             (case found of
                                None \<Rightarrow> Some (failure, g)
                              | Some unstickOp \<Rightarrow>
                                  (case ops g unstickOp of
                                     Some (ZLowUnstickOp unstickInput unstickOut unstickLayout) \<Rightarrow>
                                       if \<not> hasStaticShape (valueType g stickRes) \<or>
                                          shape (valueType g stickRes) \<noteq> shape (valueType g unstickInput)
                                       then Some (failure, g)
                                       else do {
                                         g1 \<leftarrow> eraseOp g stickOp;
                                         g2 \<leftarrow> replaceAllUsesWith g1 stickRes unstickInput;
                                         if use_empty g2 (OpResult viewOp 0)
                                         then do { g3 \<leftarrow> eraseOp g2 viewOp; Some (success, g3) }
                                         else Some (success, g2)
                                       }
                                   | _ \<Rightarrow> None))
                           }
                       | Some other \<Rightarrow> Some (failure, g))))
      | _ \<Rightarrow> None)"

subsection \<open>Example graphs for the stick and unstick patterns\<close>

text \<open>
  All examples are one block (block 0); operations are numbered from 10.  Buffers are
  results of allocations, and every buffer has the static shape \<open>2x3\<close>.
\<close>

definition exampleType :: "bool \<Rightarrow> memref_type" where
  "exampleType stickified = \<lparr>shape = [Some 2, Some 3], nonIdentityLayout = stickified\<rparr>"

text \<open>
  \<open>unstick(%10, %11); stick(%11, %13); use(%13)\<close>, with the layouts of the stick and of the
  unstick as parameters.
\<close>

definition exampleRoundTrip :: "string option \<Rightarrow> string option \<Rightarrow> graph" where
  "exampleRoundTrip stickLayout unstickLayout =
     \<lparr>ops = [10 \<mapsto> MemRefAllocOp [], 11 \<mapsto> MemRefAllocOp [],
              12 \<mapsto> ZLowUnstickOp (OpResult 10 0) (OpResult 11 0) unstickLayout,
              13 \<mapsto> MemRefAllocOp [],
              14 \<mapsto> ZLowStickOp (OpResult 11 0) (OpResult 13 0) stickLayout,
              15 \<mapsto> OtherOp [OpResult 13 0] 0],
      blocks = [(0, [10, 11, 12, 13, 14, 15])],
      blockParent = (\<lambda>b. None),
      uses = (\<lambda>v. [])(OpResult 10 0 := [12], OpResult 11 0 := [14, 12], OpResult 13 0 := [15, 14]),
      valueType = (\<lambda>v. exampleType (v = OpResult 10 0 \<or> v = OpResult 13 0)),
      nextId = 16\<rparr>"

text \<open>
  The round trip across a region: the unstick stands in the block of the function, the
  stick in the body (block 1) of the operation 16 that follows it:
  \<open>unstick(%10, %11) {3DS}; %13 = alloc; op16 { stick(%11, %13) {3DS} }\<close>.
\<close>

definition exampleNestedStick :: graph where
  "exampleNestedStick =
     \<lparr>ops = [10 \<mapsto> MemRefAllocOp [], 11 \<mapsto> MemRefAllocOp [],
              12 \<mapsto> ZLowUnstickOp (OpResult 10 0) (OpResult 11 0) (Some ''3DS''),
              13 \<mapsto> MemRefAllocOp [],
              14 \<mapsto> ZLowStickOp (OpResult 11 0) (OpResult 13 0) (Some ''3DS''),
              16 \<mapsto> OtherOp [] 0],
      blocks = [(0, [10, 11, 12, 13, 16]), (1, [14])],
      blockParent = (\<lambda>b. if b = 1 then Some 16 else None),
      uses = (\<lambda>v. [])(OpResult 10 0 := [12], OpResult 11 0 := [14, 12], OpResult 13 0 := [14]),
      valueType = (\<lambda>v. exampleType (v = OpResult 10 0 \<or> v = OpResult 13 0)),
      nextId = 17\<rparr>"

text \<open>
  The round trip in place: the stick writes the buffer the unstick has read,
  \<open>unstick(%10, %11) {3DS}; stick(%11, %10) {3DS}\<close>.
\<close>

definition exampleInPlace :: graph where
  "exampleInPlace =
     \<lparr>ops = [10 \<mapsto> MemRefAllocOp [], 11 \<mapsto> MemRefAllocOp [],
              12 \<mapsto> ZLowUnstickOp (OpResult 10 0) (OpResult 11 0) (Some ''3DS''),
              14 \<mapsto> ZLowStickOp (OpResult 11 0) (OpResult 10 0) (Some ''3DS'')],
      blocks = [(0, [10, 11, 12, 14])],
      blockParent = (\<lambda>b. None),
      uses = (\<lambda>v. [])(OpResult 10 0 := [14, 12], OpResult 11 0 := [14, 12]),
      valueType = (\<lambda>v. exampleType (v = OpResult 10 0)),
      nextId = 15\<rparr>"

text \<open>
  \<open>unstick(%10, %11); %13 = view(%11); stick(%13, %14); use(%14)\<close>, and, when \<open>viewRead\<close> holds,
  one more operation that reads the view.
\<close>

definition exampleViewRoundTrip :: "string option \<Rightarrow> string option \<Rightarrow> bool \<Rightarrow> graph" where
  "exampleViewRoundTrip stickLayout unstickLayout viewRead =
     \<lparr>ops = [10 \<mapsto> MemRefAllocOp [], 11 \<mapsto> MemRefAllocOp [],
              12 \<mapsto> ZLowUnstickOp (OpResult 10 0) (OpResult 11 0) unstickLayout,
              13 \<mapsto> ViewLikeOp (OpResult 11 0) [],
              14 \<mapsto> MemRefAllocOp [],
              15 \<mapsto> ZLowStickOp (OpResult 13 0) (OpResult 14 0) stickLayout,
              16 \<mapsto> OtherOp [OpResult 14 0] 0,
              17 \<mapsto> OtherOp (if viewRead then [OpResult 13 0] else []) 0],
      blocks = [(0, [10, 11, 12, 13, 14, 15, 16, 17])],
      blockParent = (\<lambda>b. None),
      uses = (\<lambda>v. [])(OpResult 10 0 := [12], OpResult 11 0 := [13, 12],
                        OpResult 13 0 := (if viewRead then [17, 15] else [15]),
                        OpResult 14 0 := [16, 15]),
      valueType = (\<lambda>v. exampleType (v = OpResult 10 0 \<or> v = OpResult 14 0)),
      nextId = 18\<rparr>"

text \<open>
  \<open>unstick(%10, %11); stick(%10, %13)\<close>, where nothing else uses \<open>%11\<close> and \<open>%13\<close>, or, when
  \<open>read\<close> holds, one more operation reads \<open>%11\<close> and \<open>%13\<close>.
\<close>

definition exampleDead :: "bool \<Rightarrow> graph" where
  "exampleDead read =
     \<lparr>ops = [10 \<mapsto> MemRefAllocOp [], 11 \<mapsto> MemRefAllocOp [],
              12 \<mapsto> ZLowUnstickOp (OpResult 10 0) (OpResult 11 0) (Some ''2D''),
              13 \<mapsto> MemRefAllocOp [],
              14 \<mapsto> ZLowStickOp (OpResult 10 0) (OpResult 13 0) (Some ''2D''),
              15 \<mapsto> OtherOp (if read then [OpResult 11 0, OpResult 13 0] else []) 0],
      blocks = [(0, [10, 11, 12, 13, 14, 15])],
      blockParent = (\<lambda>b. None),
      uses = (\<lambda>v. [])(OpResult 10 0 := [14, 12],
                        OpResult 11 0 := (if read then [15, 12] else [12]),
                        OpResult 13 0 := (if read then [15, 14] else [14])),
      valueType = (\<lambda>v. exampleType (v = OpResult 10 0 \<or> v = OpResult 13 0)),
      nextId = 16\<rparr>"

subsection \<open>UnstickLoadStoreStickRemovalPattern: the cloned load and store\<close>

text \<open>
  Lines 372-380 and 441-449: the map of a clone under the NCHW layout is
  \<open>permuteMap.compose(oldMap)\<close>, where \<open>permuteMap\<close> is the permutation map of
  \<open>{0, 2, 3, 1}\<close> (NCHW to NHWC).
\<close>

definition permuteNCHW :: "affine_map \<Rightarrow> affine_map option" where
  "permuteNCHW oldMap = compose (getPermutationMap [0, 2, 3, 1]) oldMap"

text \<open>
  Lines 363-380: the load is cloned with the stickified memref where it had its own
  memref (the operand mapping applies to every operand), and its map is permuted when
  the layout of the unstick is NCHW.
\<close>

definition cloneLoadOp :: "val \<Rightarrow> bool \<Rightarrow> mlir_op \<Rightarrow> mlir_op option" where
  "cloneLoadOp stickifiedMemRef unstickNCHWLayout loadOp =
     (case loadOp of
        AffineLoadOp memref indices oldMap \<Rightarrow>
          (let operandMap = (\<lambda>v. if v = memref then stickifiedMemRef else v)
           in if unstickNCHWLayout
              then do {
                newMap \<leftarrow> permuteNCHW oldMap;
                Some (AffineLoadOp (operandMap memref) (map operandMap indices) newMap)
              }
              else Some (AffineLoadOp (operandMap memref) (map operandMap indices) oldMap))
      | _ \<Rightarrow> None)"

text \<open>
  Lines 435-449: the store is cloned with the output of its stick operation where it
  had its memref and with the dummy conversion where it had the stored value, and its
  map is permuted when the layout of the stick is NCHW.
\<close>

definition cloneStoreOp :: "val \<Rightarrow> val \<Rightarrow> bool \<Rightarrow> mlir_op \<Rightarrow> mlir_op option" where
  "cloneStoreOp stickMemref dummyConverter stickNCHWLayout storeOp =
     (case storeOp of
        AffineStoreOp storeValue storeMemref indices oldMap \<Rightarrow>
          (let operandMap = (\<lambda>v. if v = storeValue then dummyConverter
                                   else if v = storeMemref then stickMemref else v)
           in if stickNCHWLayout
              then do {
                newMap \<leftarrow> permuteNCHW oldMap;
                Some (AffineStoreOp (operandMap storeValue) (operandMap storeMemref)
                        (map operandMap indices) newMap)
              }
              else Some (AffineStoreOp (operandMap storeValue) (operandMap storeMemref)
                           (map operandMap indices) oldMap))
      | _ \<Rightarrow> None)"

text \<open>
  An index tuple as an assignment of the dimensions, and the tuple permuted by a
  permutation: position \<open>i\<close> of the permuted tuple holds position \<open>permutation ! i\<close> of the
  tuple.
\<close>

definition indexTuple :: "int list \<Rightarrow> nat \<Rightarrow> int" where
  "indexTuple xs i = (if i < length xs then xs ! i else 0)"

definition permuteTuple :: "nat list \<Rightarrow> (nat \<Rightarrow> int) \<Rightarrow> nat \<Rightarrow> int" where
  "permuteTuple permutation d i = (if i < length permutation then d (permutation ! i) else d i)"

text \<open>
  The map of a store that writes its tile behind three channels of the destination, as
  the code generated for a concatenation along the channel axis does:
  \<open>(d0, d1, d2, d3) -> (d0, d1 + 3, d2, d3)\<close>.
\<close>

definition exampleConcatMap :: affine_map where
  "exampleConcatMap =
     \<lparr>numDims = 4, numSymbols = 0,
      mapResults = [AffineDimExpr 0, AffineAdd (AffineDimExpr 1) (AffineConstantExpr 3),
                    AffineDimExpr 2, AffineDimExpr 3]\<rparr>"

definition exampleLoadOp :: mlir_op where
  "exampleLoadOp =
     AffineLoadOp (OpResult 11 0)
       [BlockArgument 1 0, BlockArgument 2 0, BlockArgument 3 0, BlockArgument 4 0] exampleConcatMap"

definition exampleStoreOp :: mlir_op where
  "exampleStoreOp =
     AffineStoreOp (OpResult 20 0) (OpResult 13 0)
       [BlockArgument 1 0, BlockArgument 2 0, BlockArgument 3 0, BlockArgument 4 0] exampleConcatMap"

subsection \<open>InsertDeallocForAsyncExecRegionPattern\<close>

text \<open>
  Lines 691-706: the allocations among the operations of the body of the execute
  operation, and the input values: for every operand of an operation of the body that is
  the result of an allocation outside the body, the result of that allocation (one
  entry per such operand).
\<close>

definition collectRegionAllocOps :: "graph \<Rightarrow> block_id \<Rightarrow> op_id list" where
  "collectRegionAllocOps g body = filter (\<lambda>i. isAlloc (ops g i)) (blockOperations g body)"

definition inputValuesOfOperand :: "graph \<Rightarrow> block_id \<Rightarrow> val \<Rightarrow> val list" where
  "inputValuesOfOperand g body v =
     (case v of
        BlockArgument b n \<Rightarrow> []
      | OpResult defOp k \<Rightarrow>
          if isAlloc (ops g defOp) \<and> getBlock g defOp \<noteq> Some body then [OpResult defOp 0] else [])"

definition collectInputValues :: "graph \<Rightarrow> block_id \<Rightarrow> val list" where
  "collectInputValues g body =
     concat (map (\<lambda>i. case ops g i of
                         None \<Rightarrow> []
                       | Some opn \<Rightarrow> concat (map (inputValuesOfOperand g body) (getOperands opn)))
                 (blockOperations g body))"

text \<open>\<open>Block::getTerminator\<close>: the last operation of the block.\<close>

definition getBodyTerminator :: "graph \<Rightarrow> block_id \<Rightarrow> op_id option" where
  "getBodyTerminator g b = (case blockOperations g b of [] \<Rightarrow> None | os \<Rightarrow> Some (last os))"

text \<open>
  Lines 732-739: the users of the results of the await operations among the users of
  the body result.
\<close>

definition collectAwaitOutUsers :: "graph \<Rightarrow> val \<Rightarrow> op_id list" where
  "collectAwaitOutUsers g executeOpResult =
     concat (map (\<lambda>user. case ops g user of
                            Some (AsyncAwaitOp v) \<Rightarrow> getUsers g (OpResult user 0)
                          | _ \<Rightarrow> [])
                 (getUsers g executeOpResult))"

text \<open>
  Lines 756-760: a deallocation is created, behind the operation created last, for
  every input value that has no deallocation among its users yet.
\<close>

fun insertInputDeallocs :: "val list \<Rightarrow> graph \<Rightarrow> op_id \<Rightarrow> graph" where
  "insertInputDeallocs [] g lastOp = g"
| "insertInputDeallocs (inVal # inVals) g lastOp =
     (if list_all (\<lambda>user. \<not> isDealloc (ops g user)) (getUsers g inVal)
      then (case createAfter g lastOp (MemRefDeallocOp inVal) of
              (g', deallocOp) \<Rightarrow> insertInputDeallocs inVals g' deallocOp)
      else insertInputDeallocs inVals g lastOp)"

text \<open>
  Lines 688-763.  Indexing a range or a vector that is empty (\<open>getOperands()[0]\<close>,
  \<open>getBodyResults()[0]\<close>, \<open>awaitOutUsers[0]\<close>) and reading the location of an operation that
  does not exist are not defined by the host (\<open>None\<close>).
\<close>

definition InsertDeallocForAsyncExecRegionPattern ::
    "graph \<Rightarrow> op_id \<Rightarrow> (LogicalResult \<times> graph) option" where
  "InsertDeallocForAsyncExecRegionPattern g executeOp =
     (case ops g executeOp of
        Some (AsyncExecuteOp args body numBodyResults) \<Rightarrow>
          do {
            let regionAllocOps = collectRegionAllocOps g body;
            let inputValues = collectInputValues g body;
            yieldOp \<leftarrow> getBodyTerminator g body;
            (case ops g yieldOp of
               Some (AsyncYieldOp yieldOperands) \<Rightarrow>
                 if length yieldOperands > 1 then Some (failure, g)
                 else do {
                   yieldOperand \<leftarrow> nth_opt yieldOperands 0;
                   (case yieldOperand of
                      BlockArgument b n \<Rightarrow> Some (failure, g)
                    | OpResult yAllocOp k \<Rightarrow>
                        if \<not> isAlloc (ops g yAllocOp) then Some (failure, g)
                        else if yAllocOp \<notin> set regionAllocOps then Some (failure, g)
                        else do {
                          let g1 = moveBefore g yAllocOp executeOp;
                          if numBodyResults > 1 then Some (failure, g1)
                          else do {
                            executeOpResult \<leftarrow> (if numBodyResults = 0 then None
                                                else Some (OpResult executeOp 1));
                            let awaitOutUsers = collectAwaitOutUsers g1 executeOpResult;
                            firstUser \<leftarrow> nth_opt awaitOutUsers 0;
                            insertionPointOp \<leftarrow>
                              (if getBlock g1 yAllocOp \<noteq> getBlock g1 firstUser
                               then getParentOp g1 firstUser
                               else Some firstUser);
                            (case createAfter g1 insertionPointOp (MemRefDeallocOp (OpResult yAllocOp 0)) of
                               (g2, deallocOp) \<Rightarrow>
                                 Some (success, insertInputDeallocs inputValues g2 deallocOp))
                          }
                        })
                 }
             | _ \<Rightarrow> None)
          }
      | _ \<Rightarrow> None)"

subsection \<open>Example graphs for the async pattern\<close>

text \<open>
  The example of the comment at lines 645-680, with two consumers of the awaited value
  in the block of the execute operation:
  \<open>%10 = alloc; %11:2 = async.execute { %20 = alloc; stick(%10, %20); %22 = alloc;
  unstick(%20, %22); yield %22 }; %12 = await %11#1; use(%12); use(%12)\<close>.
  The two consumers are the operations 13 and 14, in this order in the block; the use
  list of \<open>%12\<close> is a parameter.
\<close>

definition exampleAsync :: "op_id list \<Rightarrow> graph" where
  "exampleAsync awaitUses =
     \<lparr>ops = [10 \<mapsto> MemRefAllocOp [], 11 \<mapsto> AsyncExecuteOp [] 1 1,
              12 \<mapsto> AsyncAwaitOp (OpResult 11 1),
              13 \<mapsto> OtherOp [OpResult 12 0] 0, 14 \<mapsto> OtherOp [OpResult 12 0] 0,
              20 \<mapsto> MemRefAllocOp [],
              21 \<mapsto> ZLowStickOp (OpResult 10 0) (OpResult 20 0) (Some ''2D''),
              22 \<mapsto> MemRefAllocOp [],
              23 \<mapsto> ZLowUnstickOp (OpResult 20 0) (OpResult 22 0) (Some ''2D''),
              24 \<mapsto> AsyncYieldOp [OpResult 22 0]],
      blocks = [(0, [10, 11, 12, 13, 14]), (1, [20, 21, 22, 23, 24])],
      blockParent = (\<lambda>b. if b = 1 then Some 11 else None),
      uses = (\<lambda>v. [])(OpResult 10 0 := [21], OpResult 11 1 := [12], OpResult 12 0 := awaitUses,
                        OpResult 20 0 := [23, 21], OpResult 22 0 := [24, 23]),
      valueType = (\<lambda>v. exampleType (v = OpResult 20 0)),
      nextId = 30\<rparr>"

text \<open>
  The graph after the pattern has run on \<open>exampleAsync awaitUses\<close>, when the first entry of
  \<open>awaitUses\<close> is \<open>firstUser\<close>: the allocation 22 stands before the execute operation, and
  the deallocations 30 (of \<open>%22\<close>) and 31 (of \<open>%10\<close>) stand behind \<open>firstUser\<close>.
\<close>

definition exampleAsyncRewritten :: "op_id list \<Rightarrow> op_id list \<Rightarrow> graph" where
  "exampleAsyncRewritten awaitUses block0 =
     \<lparr>ops = [10 \<mapsto> MemRefAllocOp [], 11 \<mapsto> AsyncExecuteOp [] 1 1,
              12 \<mapsto> AsyncAwaitOp (OpResult 11 1),
              13 \<mapsto> OtherOp [OpResult 12 0] 0, 14 \<mapsto> OtherOp [OpResult 12 0] 0,
              20 \<mapsto> MemRefAllocOp [],
              21 \<mapsto> ZLowStickOp (OpResult 10 0) (OpResult 20 0) (Some ''2D''),
              22 \<mapsto> MemRefAllocOp [],
              23 \<mapsto> ZLowUnstickOp (OpResult 20 0) (OpResult 22 0) (Some ''2D''),
              24 \<mapsto> AsyncYieldOp [OpResult 22 0],
              30 \<mapsto> MemRefDeallocOp (OpResult 22 0), 31 \<mapsto> MemRefDeallocOp (OpResult 10 0)],
      blocks = [(0, block0), (1, [20, 21, 23, 24])],
      blockParent = (\<lambda>b. if b = 1 then Some 11 else None),
      uses = (\<lambda>v. [])(OpResult 10 0 := [31, 21], OpResult 11 1 := [12], OpResult 12 0 := awaitUses,
                        OpResult 20 0 := [23, 21], OpResult 22 0 := [30, 24, 23]),
      valueType = (\<lambda>v. exampleType (v = OpResult 20 0)),
      nextId = 32\<rparr>"

text \<open>
  An execute operation whose body yields the values \<open>yieldOperands\<close>:
  \<open>%11:(1+n) = async.execute { %20 = alloc; %22 = alloc; use(%20, %22); yield ... }\<close>.
\<close>

definition exampleAsyncYield :: "val list \<Rightarrow> graph" where
  "exampleAsyncYield yieldOperands =
     \<lparr>ops = [11 \<mapsto> AsyncExecuteOp [] 1 (length yieldOperands),
              20 \<mapsto> MemRefAllocOp [], 22 \<mapsto> MemRefAllocOp [],
              23 \<mapsto> OtherOp [OpResult 20 0, OpResult 22 0] 0,
              24 \<mapsto> AsyncYieldOp yieldOperands],
      blocks = [(0, [11]), (1, [20, 22, 23, 24])],
      blockParent = (\<lambda>b. if b = 1 then Some 11 else None),
      uses = (\<lambda>v. (if v \<in> set yieldOperands then replicate (count_list yieldOperands v) 24 else [])
                   @ (if v = OpResult 20 0 \<or> v = OpResult 22 0 then [23] else [])),
      valueType = (\<lambda>v. exampleType False),
      nextId = 30\<rparr>"

section \<open>Properties of the loop trip-count pattern\<close>

subsection \<open>The arena only grows\<close>

lemma getOp_Some_length: "getOp g i = Some opn \<Longrightarrow> i < length (onnxOps g)"
  by (simp add: getOp_def nth_opt_def split: if_splits)

lemma createOp_new:
  "createOp g k args ty = (v, g') \<Longrightarrow>
     v = OpResult (length (onnxOps g)) 0 \<and> length (onnxOps g') = Suc (length (onnxOps g)) \<and>
     getOp g' (length (onnxOps g)) = Some \<lparr>kind = k, operands = args\<rparr>"
  by (auto simp: createOp_def getOp_def nth_opt_def Let_def)

lemma setOp_getOp:
  "getOp (setOp g i opn) j =
     (if j < length (onnxOps g) then (if j = i then Some opn else getOp g j) else None)"
  by (auto simp: setOp_def getOp_def nth_opt_def)

lemma setOp_length: "length (onnxOps (setOp g i opn)) = length (onnxOps g)"
  by (simp add: setOp_def)

lemma hoist_prefix:
  "hoistOutOfLoop g v r l = Some (v', g') \<Longrightarrow> prefix (onnxOps g) (onnxOps g')"
  by (auto simp: hoistOutOfLoop_def createOp_def Let_def
      split: if_splits val.splits onnx_kind.splits Option.bind_splits)

lemma constantCase_prefix:
  "constantCase g m l u s = Some (b, v, g') \<Longrightarrow> prefix (onnxOps g) (onnxOps g')"
  by (auto simp: constantCase_def createOp_def Let_def split: if_splits Option.bind_splits)

lemma emitCase_prefix:
  "emitCase g m l u s = (b, v, g') \<Longrightarrow> prefix (onnxOps g) (onnxOps g')"
  by (auto simp: emitCase_def createOp_def Let_def split: if_splits prod.splits)

lemma prefix_getOp:
  "prefix (onnxOps g) (onnxOps g') \<Longrightarrow> i < length (onnxOps g) \<Longrightarrow> getOp g' i = getOp g i"
  by (auto simp: prefix_def getOp_def nth_opt_def nth_append)

subsection \<open>What a match tells about the loop\<close>

lemma idiom_shape:
  assumes "matchIdiom g loopOperands loopBody = Some (Some (lbValue, ubValue, stepValue, returnOperands))"
  shows "\<exists>b rid rop lessId k lessOp. loopBody = [b] \<and> getTerminator b = Some rid \<and> getOp g rid = Some rop
            \<and> kind rop = ONNXReturnOp \<and> returnOperands = operands rop
            \<and> nth_opt (operands rop) 0 = Some (OpResult lessId k)
            \<and> getOp g lessId = Some lessOp \<and> kind lessOp = ONNXLessOp"
  using assms
  apply (cases loopBody)
  apply (simp add: matchIdiom_def)
  apply (auto simp: matchIdiom_def split: if_splits val.splits Option.bind_splits)
  done

lemma matchOp_reaches_constantCase:
  assumes "getOp g loopId = Some loopOp"
    and "kind loopOp = ONNXLoopOp loopBody"
    and "nth_opt (operands loopOp) 0 = Some maxTripCountValue"
    and "isDefinedByIntegerConstantOp g maxTripCountValue = Some True"
    and "matchIdiom g (operands loopOp) loopBody = Some (Some (lbValue, ubValue0, stepValue0, returnOperands))"
    and "hoistOutOfLoop g ubValue0 returnOperands (operands loopOp) = Some (ubValue, g1)"
    and "hoistOutOfLoop g1 stepValue0 returnOperands (operands loopOp) = Some (stepValue, g2)"
    and "isDefinedByIntegerConstantOp g2 lbValue = Some True"
    and "isDefinedByIntegerConstantOp g2 ubValue = Some True"
    and "isDefinedByIntegerConstantOp g2 stepValue = Some True"
  shows "matchOp g loopId = constantCase g2 maxTripCountValue lbValue ubValue stepValue"
  using assms by (simp add: matchOp_def)

lemma matchOp_reaches_emitCase:
  assumes "getOp g loopId = Some loopOp"
    and "kind loopOp = ONNXLoopOp loopBody"
    and "nth_opt (operands loopOp) 0 = Some maxTripCountValue"
    and "isDefinedByIntegerConstantOp g maxTripCountValue = Some True"
    and "matchIdiom g (operands loopOp) loopBody = Some (Some (lbValue, ubValue0, stepValue0, returnOperands))"
    and "hoistOutOfLoop g ubValue0 returnOperands (operands loopOp) = Some (ubValue, g1)"
    and "hoistOutOfLoop g1 stepValue0 returnOperands (operands loopOp) = Some (stepValue, g2)"
    and "isDefinedByIntegerConstantOp g2 lbValue = Some lbConstant"
    and "isDefinedByIntegerConstantOp g2 ubValue = Some ubConstant"
    and "isDefinedByIntegerConstantOp g2 stepValue = Some stepConstant"
    and "\<not> (lbConstant \<and> ubConstant \<and> stepConstant)"
  shows "matchOp g loopId = Some (emitCase g2 maxTripCountValue lbValue ubValue stepValue)"
  using assms by (auto simp: matchOp_def)

lemma matchOp_matched_shape:
  assumes "getOp g loopId = Some loopOp"
    and "kind loopOp = ONNXLoopOp loopBody"
    and "matchOp g loopId = Some (True, v, g3)"
  shows "\<exists>lbValue ubValue stepValue returnOperands.
           matchIdiom g (operands loopOp) loopBody = Some (Some (lbValue, ubValue, stepValue, returnOperands))
           \<and> prefix (onnxOps g) (onnxOps g3)"
  using assms
  by (auto simp: matchOp_def split: Option.bind_splits if_splits option.splits
      dest!: hoist_prefix constantCase_prefix emitCase_prefix)
     (meson prefix_order.trans)+

lemma matchAndRewrite_unmatched:
  assumes "getOp g loopId = Some loopOp"
    and "kind loopOp = ONNXLoopOp loopBody"
    and "nth_opt (operands loopOp) 0 = Some maxTripCountValue"
    and "matchOp g loopId = Some (False, v, g1)"
  shows "matchAndRewrite g loopId = Some (failure, g1)"
  using assms by (simp add: matchAndRewrite_def)

lemma matchAndRewrite_matched:
  assumes "getOp g loopId = Some loopOp"
    and "kind loopOp = ONNXLoopOp loopBody"
    and "nth_opt (operands loopOp) 0 = Some maxTripCountValue"
    and "matchOp g loopId = Some (True, v, g1)"
    and "matchAndRewrite g loopId = Some (r, g')"
  shows "r = success \<and>
         (\<exists>bodyBlock returnId loopBodyTerminator rewritten.
            nth_opt loopBody 0 = Some bodyBlock \<and> getTerminator bodyBlock = Some returnId \<and>
            getOp (setOp g1 loopId (replaceUsesOfWith loopOp maxTripCountValue v)) returnId
              = Some loopBodyTerminator \<and>
            numArguments bodyBlock > 1 \<and>
            setOperand loopBodyTerminator 0 (BlockArgument (blockId bodyBlock) 1) = Some rewritten \<and>
            g' = setOp (setOp g1 loopId (replaceUsesOfWith loopOp maxTripCountValue v)) returnId rewritten)"
  using assms
  by (auto simp: matchAndRewrite_def getArgument_def Let_def split: Option.bind_splits if_splits)

lemma matchAndRewrite_success_matched:
  assumes "getOp g loopId = Some loopOp"
    and "kind loopOp = ONNXLoopOp loopBody"
    and "matchAndRewrite g loopId = Some (success, g')"
  shows "\<exists>maxTripCountValue v g1. nth_opt (operands loopOp) 0 = Some maxTripCountValue \<and>
           matchOp g loopId = Some (True, v, g1)"
  using assms
  by (auto simp: matchAndRewrite_def Let_def split: Option.bind_splits if_splits)

subsection \<open>The constant case\<close>

lemma int64_of_double_range:
  "int64_of_double x = Some z \<Longrightarrow> INT64_MIN \<le> z \<and> z \<le> INT64_MAX"
  by (auto simp: int64_of_double_def Let_def split: if_splits)

lemma derivedTripCount_range:
  "derivedTripCount l u s = Some d \<Longrightarrow> INT64_MIN \<le> d \<and> d \<le> INT64_MAX"
  by (auto simp: derivedTripCount_def dest: int64_of_double_range split: Option.bind_splits)

lemma sint_int64: "INT64_MIN \<le> d \<Longrightarrow> d \<le> INT64_MAX \<Longrightarrow> sint (word_of_int d :: 64 word) = d"
  by (simp add: INT64_MIN_def INT64_MAX_def sint_sbintrunc' signed_take_bit_int_eq_self)

lemma constantCase_declines_bounds:
  assumes "getOneIntegerConstant g lbValue = Some lowerBound"
    and "getOneIntegerConstant g ubValue = Some upperBound"
    and "getOneIntegerConstant g stepValue = Some step"
    and "step \<le> 0 \<or> upperBound \<le> lowerBound"
  shows "constantCase g m lbValue ubValue stepValue = Some (False, m, g)"
  using assms by (auto simp: constantCase_def)

lemma constantCase_declines_max:
  assumes "getOneIntegerConstant g lbValue = Some lowerBound"
    and "getOneIntegerConstant g ubValue = Some upperBound"
    and "getOneIntegerConstant g stepValue = Some step"
    and "getOneIntegerConstant g m = Some maxTripCount"
    and "derivedTripCount lowerBound upperBound step = Some derived"
    and "maxTripCount \<le> derived"
  shows "constantCase g m lbValue ubValue stepValue = Some (False, m, g)"
  using assms by (auto simp: constantCase_def)

lemma constantCase_rewrites:
  assumes "getOneIntegerConstant g lbValue = Some lowerBound"
    and "getOneIntegerConstant g ubValue = Some upperBound"
    and "getOneIntegerConstant g stepValue = Some step"
    and "getOneIntegerConstant g m = Some maxTripCount"
    and "constantCase g m lbValue ubValue stepValue = Some (True, v, g')"
  shows "0 < step \<and> lowerBound < upperBound \<and>
         (\<exists>derived. derivedTripCount lowerBound upperBound step = Some derived \<and> derived < maxTripCount \<and>
            (v, g') = createOp g (ONNXConstantOp (DenseElementsAttr [word_of_int derived])) []
                            (elementType g m))"
  using assms
  by (auto simp: constantCase_def Let_def split: if_splits Option.bind_splits prod.splits)

lemma constantCase_succeeds:
  assumes "getOneIntegerConstant g lbValue = Some lowerBound"
    and "getOneIntegerConstant g ubValue = Some upperBound"
    and "getOneIntegerConstant g stepValue = Some step"
    and "getOneIntegerConstant g m = Some maxTripCount"
    and "0 < step" "lowerBound < upperBound"
    and "derivedTripCount lowerBound upperBound step = Some derived" "derived < maxTripCount"
  shows "\<exists>v g'. constantCase g m lbValue ubValue stepValue = Some (True, v, g') \<and>
            (v, g') = createOp g (ONNXConstantOp (DenseElementsAttr [word_of_int derived])) []
                            (elementType g m)"
  using assms
  by (cases "createOp g (ONNXConstantOp (DenseElementsAttr [word_of_int derived])) [] (elementType g m)")
     (auto simp: constantCase_def Let_def)

lemma new_constant_value:
  assumes "(v, g') = createOp g (ONNXConstantOp (DenseElementsAttr [word_of_int derived])) [] ty"
    and "INT64_MIN \<le> derived" "derived \<le> INT64_MAX"
  shows "getOneIntegerConstant g' v = Some derived"
  using assms
  by (auto simp: createOp_def Let_def getOneIntegerConstant_def getOp_def nth_opt_def sint_int64)

subsection \<open>The example loop, step by step\<close>

lemmas example_defs =
  exampleLoop_def exampleOps_def exampleLoopOp_def exampleBody_def exampleReturnOperands_def
  exampleHoisted_def getOp_def nth_opt_def createOp_def setOp_def Let_def

lemma example_getOp: "getOp (exampleLoop lb m l u s) 8 = Some (exampleLoopOp lb)"
  by (simp add: example_defs)

lemma example_idiom:
  "matchIdiom (exampleLoop lb m l u s) (operands (exampleLoopOp lb)) [exampleBody]
     = Some (Some (lb, BlockArgument 1 2, OpResult 4 0, exampleReturnOperands))"
  by (simp add: example_defs matchIdiom_def getTerminator_def isUpdatedArgByValue_def
       argNumberMinusOne_def isIntConstantOrInvariantBlockArg_def isInvariantBlockArg_def
       isDefinedByIntegerConstantOp_def getFedValue_def)

lemma example_hoist_ub:
  "hoistOutOfLoop (exampleLoop lb m l u s) (BlockArgument 1 2) exampleReturnOperands
       (operands (exampleLoopOp lb))
     = Some (OpResult 2 0, exampleLoop lb m l u s)"
  by (simp add: example_defs hoistOutOfLoop_def isInvariantBlockArg_def argNumberMinusOne_def
       getFedValue_def)

lemma example_hoist_step:
  "hoistOutOfLoop (exampleLoop lb m l u s) (OpResult 4 0) exampleReturnOperands
       (operands (exampleLoopOp lb))
     = Some (OpResult 9 0, exampleHoisted lb m l u s)"
  by (simp add: example_defs hoistOutOfLoop_def isInvariantBlockArg_def argNumberMinusOne_def
       getFedValue_def)

lemma example_constants:
  "isDefinedByIntegerConstantOp (exampleLoop lb m l u s) (OpResult 0 0) = Some True"
  "isDefinedByIntegerConstantOp (exampleHoisted lb m l u s) (OpResult 3 0) = Some True"
  "isDefinedByIntegerConstantOp (exampleHoisted lb m l u s) (OpResult 2 0) = Some True"
  "isDefinedByIntegerConstantOp (exampleHoisted lb m l u s) (OpResult 9 0) = Some True"
  by (simp_all add: example_defs isDefinedByIntegerConstantOp_def)

lemma example_values:
  "getOneIntegerConstant (exampleHoisted lb m l u s) (OpResult 3 0) = Some (sint (word_of_int l :: 64 word))"
  "getOneIntegerConstant (exampleHoisted lb m l u s) (OpResult 2 0) = Some (sint (word_of_int u :: 64 word))"
  "getOneIntegerConstant (exampleHoisted lb m l u s) (OpResult 9 0) = Some (sint (word_of_int s :: 64 word))"
  "getOneIntegerConstant (exampleHoisted lb m l u s) (OpResult 0 0) = Some (sint (word_of_int m :: 64 word))"
  by (simp_all add: example_defs getOneIntegerConstant_def)

lemma example_matchOp:
  "matchOp (exampleLoop (OpResult 3 0) m l u s) 8
     = constantCase (exampleHoisted (OpResult 3 0) m l u s) (OpResult 0 0) (OpResult 3 0) (OpResult 2 0) (OpResult 9 0)"
  by (rule matchOp_reaches_constantCase [OF example_getOp _ _ example_constants(1) example_idiom
         example_hoist_ub example_hoist_step example_constants(2-4)])
     (simp_all add: exampleLoopOp_def nth_opt_def)

lemma example_rewritten:
  assumes "INT64_MIN \<le> m" "m \<le> INT64_MAX" "INT64_MIN \<le> l" "l \<le> INT64_MAX"
    and "INT64_MIN \<le> u" "u \<le> INT64_MAX" "INT64_MIN \<le> s" "s \<le> INT64_MAX"
    and "0 < s" "l < u" "derivedTripCount l u s = Some d" "d < m"
  shows "matchAndRewrite (exampleLoop (OpResult 3 0) m l u s) 8 = Some (success, exampleRewritten m l u s d)"
proof -
  have cc: "constantCase (exampleHoisted (OpResult 3 0) m l u s) (OpResult 0 0) (OpResult 3 0) (OpResult 2 0) (OpResult 9 0)
        = Some (True, createOp (exampleHoisted (OpResult 3 0) m l u s)
                   (ONNXConstantOp (DenseElementsAttr [word_of_int d])) [] (IntegerType 64))"
    using assms
    by (simp add: constantCase_def example_values sint_int64)
       (simp add: example_defs)
  show ?thesis
    apply (simp add: matchAndRewrite_def example_getOp)
    apply (simp add: example_matchOp cc exampleLoopOp_def nth_opt_def)
    apply (simp add: example_defs exampleRewritten_def getTerminator_def getArgument_def setOperand_def
             replaceUsesOfWith_def eval_nat_numeral)
    done
qed

lemma example_rewritten_loop:
  "getOp (exampleRewritten m l u s d) 8
     = Some (exampleLoopOp (OpResult 3 0)\<lparr>operands := [OpResult 10 0, OpResult 1 0, OpResult 2 0, OpResult 3 0]\<rparr>)"
  by (simp add: example_defs exampleRewritten_def)

lemma example_rewritten_return:
  "getOp (exampleRewritten m l u s d) 7
     = Some \<lparr>kind = ONNXReturnOp, operands = [BlockArgument 1 1, BlockArgument 1 2, OpResult 5 0]\<rparr>"
  by (simp add: example_defs exampleRewritten_def)

lemma example_rewritten_constant:
  "getOneIntegerConstant (exampleRewritten m l u s d) (OpResult 10 0) = Some (sint (word_of_int d :: 64 word))"
  by (simp add: example_defs exampleRewritten_def getOneIntegerConstant_def)

text \<open>The same loop with a lower bound that is a function argument: the emitted case.\<close>

lemma example_emitted:
  "map_option fst (matchAndRewrite (exampleLoop (BlockArgument 0 0) m l u s) 8) = Some success"
proof -
  have lb: "isDefinedByIntegerConstantOp (exampleHoisted (BlockArgument 0 0) m l u s) (BlockArgument 0 0)
              = Some False"
    by (simp add: isDefinedByIntegerConstantOp_def)
  have m: "matchOp (exampleLoop (BlockArgument 0 0) m l u s) 8
        = Some (emitCase (exampleHoisted (BlockArgument 0 0) m l u s) (OpResult 0 0) (BlockArgument 0 0)
                  (OpResult 2 0) (OpResult 9 0))"
    by (rule matchOp_reaches_emitCase [OF example_getOp _ _ example_constants(1) example_idiom
         example_hoist_ub example_hoist_step lb example_constants(3,4)])
       (simp_all add: exampleLoopOp_def nth_opt_def)
  show ?thesis
    apply (simp add: matchAndRewrite_def example_getOp)
    apply (simp add: m exampleLoopOp_def nth_opt_def)
    apply (simp add: emitCase_def example_defs getTerminator_def getArgument_def setOperand_def
             replaceUsesOfWith_def)
    done
qed

lemma derived_200: "derivedTripCount (- 100) 100 1 = Some 200"
  by code_simp

lemma derived_2_53: "derivedTripCount 0 9007199254740993 1 = Some 9007199254740992"
  by code_simp

lemma derived_0_10_3: "derivedTripCount 0 10 3 = Some (exactCeiling 0 10 3) \<and> exactCeiling 0 10 3 = 4"
  by code_simp

subsection \<open>The derived trip count is exact for ranges and steps up to \<open>2^53\<close>\<close>

text \<open>
  The rounded quotient of two positive integers, \<open>a\<close> at most \<open>2^53\<close>, has the ceiling of the
  exact quotient: with \<open>t\<close> the scale that gives the quotient 53 bits, the rounded
  significand \<open>m\<close> lies between \<open>(c - 1) * 2^t\<close> (excluded) and \<open>c * 2^t\<close> for the exact
  ceiling \<open>c\<close>.
\<close>

lemma ceiling_of_rounded:
  fixes a s :: int and t :: nat
  assumes a: "0 < a" "a \<le> 2 ^ 53" and s: "0 < s" and low: "s * 2 ^ 52 \<le> a * 2 ^ t"
  defines "q \<equiv> (a * 2 ^ t) div s" and "r \<equiv> (a * 2 ^ t) mod s"
  defines "m \<equiv> (if s < 2 * r \<or> (2 * r = s \<and> odd q) then q + 1 else q)"
  shows "\<lceil>(of_int m :: rat) / of_int (2 ^ t)\<rceil> = \<lceil>(of_int a :: rat) / of_int s\<rceil>"
proof -
  define c where "c = \<lceil>(of_int a :: rat) / of_int s\<rceil>"
  define P :: int where "P = 2 ^ t"
  have P: "0 < P" by (simp add: P_def)
  have "(of_int a :: rat) / of_int s \<le> of_int c" by (simp add: c_def)
  then have "(of_int a :: rat) \<le> of_int c * of_int s" using s by (simp add: pos_divide_le_eq)
  then have "(of_int a :: rat) \<le> of_int (c * s)" by simp
  then have up: "a \<le> c * s" by (simp only: of_int_le_iff)
  have "of_int c - 1 < (of_int a :: rat) / of_int s" unfolding c_def by linarith
  then have "(of_int c - 1) * of_int s < (of_int a :: rat)" using s by (simp add: pos_less_divide_eq)
  then have "(of_int ((c - 1) * s) :: rat) < of_int a" by simp
  then have lo: "(c - 1) * s < a" by (simp only: of_int_less_iff)
  have n1: "a * P = q * s + r" by (simp add: q_def r_def P_def)
  have r: "0 \<le> r" "r < s" using s by (simp_all add: r_def)
  have mq: "q \<le> m" "m \<le> q + 1" by (simp_all add: m_def)
  have upper: "m \<le> c * P"
  proof (cases "r = 0")
    case True
    then have "m = q" using s by (auto simp: m_def)
    moreover have "q * s \<le> (c * P) * s"
    proof -
      have "q * s = a * P" using n1 True by simp
      also have "\<dots> \<le> (c * s) * P" using up P by (simp add: mult_right_mono)
      finally show ?thesis by (simp add: mult.commute mult.left_commute)
    qed
    then have "q \<le> c * P" using s by (simp add: mult_le_cancel_right)
    ultimately show ?thesis by simp
  next
    case False
    then have "0 < r" using r by simp
    then have "q * s < a * P" using n1 by simp
    also have "\<dots> \<le> (c * s) * P" using up P by (simp add: mult_right_mono)
    finally have "q * s < (c * P) * s" by (simp add: mult.commute mult.left_commute)
    then have "q < c * P" using s by (simp add: mult_less_cancel_right)
    then show ?thesis using mq by simp
  qed
  have qlow: "2 ^ 52 \<le> q"
  proof -
    have "s * 2 ^ 52 \<le> q * s + r" using low n1 by (simp add: P_def)
    also have "\<dots> < (q + 1) * s" using r by (simp add: algebra_simps)
    finally have "2 ^ 52 * s < (q + 1) * s" by (simp add: mult.commute)
    then have "2 ^ 52 < q + 1" using s by (simp add: mult_less_cancel_right)
    then show ?thesis by simp
  qed
  have lower: "(c - 1) * P < m"
  proof -
    have "((c - 1) * s) * P < a * P" using lo P by (simp add: mult_strict_right_mono)
    also have "\<dots> < (q + 1) * s" using n1 r by (simp add: algebra_simps)
    finally have "((c - 1) * P) * s < (q + 1) * s" by (simp add: mult.commute mult.left_commute)
    then have "(c - 1) * P < q + 1" using s by (simp add: mult_less_cancel_right)
    then have le: "(c - 1) * P \<le> q" by simp
    show ?thesis
    proof (cases "(c - 1) * P = q")
      case False
      then show ?thesis using le mq by simp
    next
      case True
      have "r = a * P - ((c - 1) * P) * s" using n1 True by simp
      also have "\<dots> = (a - (c - 1) * s) * P" by (simp add: algebra_simps)
      finally have rr: "r = (a - (c - 1) * s) * P" .
      have "1 \<le> a - (c - 1) * s" using lo by simp
      then have "1 * P \<le> (a - (c - 1) * s) * P" using P by (intro mult_right_mono) simp_all
      then have rP: "P \<le> r" using rr by simp
      have "s * 2 ^ 52 \<le> s * ((c - 1) * P)" using qlow True s by (intro mult_left_mono) simp_all
      also have "\<dots> = ((c - 1) * s) * P" by (simp add: algebra_simps)
      also have "\<dots> < 2 ^ 53 * P" using lo a P by (intro mult_strict_right_mono) simp_all
      finally have "s * 2 ^ 52 < (2 * P) * 2 ^ 52" by simp
      then have "s < 2 * P" by (simp add: mult_less_cancel_right)
      then have "s < 2 * r" using rP by simp
      then have "m = q + 1" by (simp add: m_def)
      then show ?thesis using True by simp
    qed
  qed
  have Pr: "(0 :: rat) < of_int P" using P by simp
  have 1: "(of_int m :: rat) / of_int P \<le> of_int c"
  proof -
    have "(of_int m :: rat) \<le> of_int (c * P)" using upper by (simp only: of_int_le_iff)
    then show ?thesis using Pr by (simp add: pos_divide_le_eq)
  qed
  have 2: "of_int c - 1 < (of_int m :: rat) / of_int P"
  proof -
    have "(of_int ((c - 1) * P) :: rat) < of_int m" using lower by (simp only: of_int_less_iff)
    then show ?thesis using Pr by (simp add: pos_less_divide_eq)
  qed
  have "\<lceil>(of_int m :: rat) / of_int P\<rceil> = c" using 1 2 by (intro ceiling_unique) simp_all
  then show ?thesis by (simp add: c_def P_def)
qed


lemma round_binary64_pos_normal:
  fixes a s :: int
  assumes a: "0 < a" "a \<le> 2 ^ 53" and s: "2 \<le> s"
  shows "\<exists>t::nat. s * 2 ^ 52 \<le> a * 2 ^ t \<and>
           round_binary64_pos a s =
             of_int (if s < 2 * ((a * 2 ^ t) mod s) \<or> (2 * ((a * 2 ^ t) mod s) = s \<and> odd ((a * 2 ^ t) div s))
                     then (a * 2 ^ t) div s + 1 else (a * 2 ^ t) div s) / of_int (2 ^ t)"
proof -
  define La where "La = bitlen a"
  define Ls where "Ls = bitlen s"
  have La: "1 \<le> La" "La \<le> 54"
    using a by (simp_all add: La_def bitlen_le_iff_power bitlen_ge_iff_power)
  have Ls: "2 \<le> Ls" using s by (simp add: Ls_def bitlen_ge_iff_power)
  have ba: "2 ^ nat (La - 1) \<le> a" using bitlen_bounds [of a] a by (simp add: La_def)
  have bs: "s < 2 ^ nat Ls" using bitlen_bounds [of s] s by (simp add: Ls_def)
  define e where "e = nat (53 - (La - Ls))"
  have e: "int e = 53 - (La - Ls)" "1 \<le> e" using La Ls by (simp_all add: e_def)
  have ex: "nat (La - 1) + e = nat Ls + 52" using La Ls e by linarith
  have big: "s * 2 ^ 52 \<le> a * 2 ^ e"
  proof -
    have "s * 2 ^ 52 \<le> 2 ^ nat Ls * 2 ^ 52" using bs by simp
    also have "\<dots> = (2 :: int) ^ (nat (La - 1) + e)" by (simp add: ex power_add)
    also have "\<dots> = 2 ^ nat (La - 1) * 2 ^ e" by (simp add: power_add)
    also have "\<dots> \<le> a * 2 ^ e" using ba by simp
    finally show ?thesis .
  qed
  define t where "t = (if s * 2 ^ 53 \<le> a * 2 ^ e then e - 1 else e)"
  have low: "s * 2 ^ 52 \<le> a * 2 ^ t"
  proof (cases "s * 2 ^ 53 \<le> a * 2 ^ e")
    case True
    have "a * 2 ^ e = (a * 2 ^ (e - 1)) * 2" using e(2) by (cases e) simp_all
    with True have "(s * 2 ^ 52) * 2 \<le> (a * 2 ^ (e - 1)) * 2" by simp
    then show ?thesis using True by (simp add: t_def)
  next
    case False
    then show ?thesis using big by (simp add: t_def)
  qed
  have t0: "53 - (bitlen a - bitlen s) = int e" using e by (simp add: La_def Ls_def)
  have tt: "(if s * 2 ^ nat (- int e) * 2 ^ 53 \<le> a * 2 ^ nat (int e) then int e - 1 else int e) = int t"
    using e(2) by (simp add: t_def)
  have "round_binary64_pos a s =
          of_int (if s < 2 * ((a * 2 ^ t) mod s) \<or> (2 * ((a * 2 ^ t) mod s) = s \<and> odd ((a * 2 ^ t) div s))
                     then (a * 2 ^ t) div s + 1 else (a * 2 ^ t) div s) / of_int (2 ^ t)"
    unfolding round_binary64_pos_def Let_def t0 tt by simp
  with low show ?thesis by blast
qed

lemma round_binary64_pos_ceiling:
  fixes a s :: int
  assumes "0 < a" "a \<le> 2 ^ 53" "2 \<le> s"
  shows "\<lceil>round_binary64_pos a s\<rceil> = \<lceil>(of_int a :: rat) / of_int s\<rceil>"
proof -
  from round_binary64_pos_normal [OF assms] obtain t :: nat where
    t: "s * 2 ^ 52 \<le> a * 2 ^ t"
       "round_binary64_pos a s =
             of_int (if s < 2 * ((a * 2 ^ t) mod s) \<or> (2 * ((a * 2 ^ t) mod s) = s \<and> odd ((a * 2 ^ t) div s))
                     then (a * 2 ^ t) div s + 1 else (a * 2 ^ t) div s) / of_int (2 ^ t)"
    by blast
  have "0 < s" using assms(3) by simp
  from ceiling_of_rounded [OF assms(1,2) this t(1)] show ?thesis unfolding t(2) .
qed

lemma round_binary64_pos_int:
  fixes n :: int
  assumes n: "0 < n" "n \<le> 2 ^ 53"
  shows "round_binary64_pos n 1 = of_int n"
proof (cases "n = 2 ^ 53")
  case True
  show ?thesis unfolding True by code_simp
next
  case False
  define L where "L = bitlen n"
  have L: "1 \<le> L" "L \<le> 53"
    using n False by (simp_all add: L_def bitlen_le_iff_power bitlen_ge_iff_power)
  have bn: "2 ^ nat (L - 1) \<le> n" using bitlen_bounds [of n] n by (simp add: L_def)
  define j where "j = nat (53 - L)"
  have j: "int j = 53 - L" using L by (simp add: j_def)
  have ex: "nat (L - 1) + Suc j = 53" using L j by linarith
  have "(2 :: int) ^ 53 = 2 ^ nat (L - 1) * 2 ^ Suc j" by (simp only: ex [symmetric] power_add)
  also have "\<dots> \<le> n * 2 ^ Suc j" using bn by (intro mult_right_mono) simp_all
  finally have c: "(2 :: int) ^ 53 \<le> n * 2 ^ Suc j" .
  have b1: "bitlen (1 :: int) = 1" by (simp add: bitlen_alt_def)
  have t0: "53 - (bitlen n - bitlen 1) = int (Suc j)" using j by (simp add: L_def b1)
  show ?thesis
    unfolding round_binary64_pos_def Let_def t0 using c by simp
qed


lemma double_of_int64_exact:
  "0 < n \<Longrightarrow> n \<le> 2 ^ 53 \<Longrightarrow> double_of_int64 n = of_int n"
  by (simp add: double_of_int64_def round_binary64_def round_binary64_pos_int)

lemma derivedTripCount_exact:
  assumes "0 < step" "step \<le> 2 ^ 53" "lowerBound < upperBound" "upperBound - lowerBound \<le> 2 ^ 53"
  shows "derivedTripCount lowerBound upperBound step = Some (exactCeiling lowerBound upperBound step)"
proof -
  define a where "a = upperBound - lowerBound"
  have a: "0 < a" "a \<le> 2 ^ 53" using assms by (simp_all add: a_def)
  have sub: "int64_sub upperBound lowerBound = Some a"
    using a by (simp add: int64_sub_def a_def INT64_MIN_def INT64_MAX_def)
  have q: "double_div (of_int a) (of_int step) = round_binary64_pos a step"
    using a assms(1) by (simp add: double_div_def round_binary64_def)
  have c: "\<lceil>round_binary64_pos a step\<rceil> = \<lceil>(of_int a :: rat) / of_int step\<rceil>"
  proof (cases "step = 1")
    case True
    then show ?thesis using a by (simp add: round_binary64_pos_int)
  next
    case False
    then have "2 \<le> step" using assms(1) by simp
    then show ?thesis using a by (intro round_binary64_pos_ceiling)
  qed
  define k where "k = \<lceil>(of_int a :: rat) / of_int step\<rceil>"
  have "(of_int a :: rat) / of_int step \<le> of_int a"
    using a assms(1) by (simp add: divide_le_eq mult_le_cancel_left1)
  then have "k \<le> a" unfolding k_def by (simp add: ceiling_le_iff)
  moreover have "0 < k" unfolding k_def using a assms(1) by (simp add: ceiling_less_iff less_ceiling_iff)
  ultimately have kr: "INT64_MIN \<le> k" "k \<le> INT64_MAX"
    using a by (simp_all add: INT64_MIN_def INT64_MAX_def)
  have "int64_of_double (double_ceil (round_binary64_pos a step)) = Some k"
    using kr by (simp add: int64_of_double_def double_ceil_def c k_def [symmetric])
  then show ?thesis
    using a assms(1,2)
    by (simp add: derivedTripCount_def sub double_of_int64_exact q exactCeiling_def a_def [symmetric] k_def)
qed

subsection \<open>C1: the constant case of the trip-count narrower\<close>

text \<open>
  The control flow of the constant case.  Let the pattern reach the constant case: the
  maximum trip count is a constant, the induction idiom matches, and the lower bound,
  the hoisted upper bound and the hoisted step are integer constants with values
  \<open>lowerBound\<close>, \<open>upperBound\<close>, \<open>step\<close>.  Then (1) if the pattern succeeds, \<open>0 < step\<close>,
  \<open>lowerBound < upperBound\<close>, the value \<open>derivedTripCount\<close> of the C++ expression
  \<open>ceil((1.0 * (upperBound - lowerBound)) / (1.0 * step))\<close> is defined and strictly smaller
  than the old maximum trip count, and the first operand of the rewritten loop is a
  constant holding it; (2) if \<open>step \<le> 0\<close> or \<open>upperBound \<le> lowerBound\<close> the pattern returns
  failure and the loop operation is as it was; (3) so it does when that value is not
  smaller than the old maximum; (4) in every remaining case where the value is defined,
  \<open>matchOp\<close> matches and returns a constant holding it.
\<close>

lemma constant_case_control_flow:
  assumes "getOp g loopId = Some loopOp"
    and "kind loopOp = ONNXLoopOp loopBody"
    and "nth_opt (operands loopOp) 0 = Some maxTripCountValue"
    and "isDefinedByIntegerConstantOp g maxTripCountValue = Some True"
    and "matchIdiom g (operands loopOp) loopBody = Some (Some (lbValue, ubValue0, stepValue0, returnOperands))"
    and "hoistOutOfLoop g ubValue0 returnOperands (operands loopOp) = Some (ubValue, g1)"
    and "hoistOutOfLoop g1 stepValue0 returnOperands (operands loopOp) = Some (stepValue, g2)"
    and "isDefinedByIntegerConstantOp g2 lbValue = Some True"
    and "isDefinedByIntegerConstantOp g2 ubValue = Some True"
    and "isDefinedByIntegerConstantOp g2 stepValue = Some True"
    and "getOneIntegerConstant g2 lbValue = Some lowerBound"
    and "getOneIntegerConstant g2 ubValue = Some upperBound"
    and "getOneIntegerConstant g2 stepValue = Some step"
    and "getOneIntegerConstant g2 maxTripCountValue = Some maxTripCount"
  shows "(\<forall>g'. matchAndRewrite g loopId = Some (success, g') \<longrightarrow>
            0 < step \<and> lowerBound < upperBound \<and>
            (\<exists>derived loopOp' newMaxTripCountValue.
                derivedTripCount lowerBound upperBound step = Some derived \<and>
                derived < maxTripCount \<and>
                getOp g' loopId = Some loopOp' \<and>
                nth_opt (operands loopOp') 0 = Some newMaxTripCountValue \<and>
                getOneIntegerConstant g' newMaxTripCountValue = Some derived))
       \<and> (step \<le> 0 \<or> upperBound \<le> lowerBound \<longrightarrow>
            matchAndRewrite g loopId = Some (failure, g2) \<and> getOp g2 loopId = Some loopOp)
       \<and> (\<forall>derived. derivedTripCount lowerBound upperBound step = Some derived \<and> maxTripCount \<le> derived \<longrightarrow>
            matchAndRewrite g loopId = Some (failure, g2) \<and> getOp g2 loopId = Some loopOp)
       \<and> (\<forall>derived. 0 < step \<and> lowerBound < upperBound \<and>
              derivedTripCount lowerBound upperBound step = Some derived \<and> derived < maxTripCount \<longrightarrow>
            (\<exists>v g3. matchOp g loopId = Some (True, v, g3) \<and> getOneIntegerConstant g3 v = Some derived))"
proof -
  have reach: "matchOp g loopId = constantCase g2 maxTripCountValue lbValue ubValue stepValue"
    using assms(1-10) by (rule matchOp_reaches_constantCase)
  have pre: "prefix (onnxOps g) (onnxOps g2)"
    using hoist_prefix [OF assms(6)] hoist_prefix [OF assms(7)] by (rule prefix_order.trans)
  have looplt: "loopId < length (onnxOps g)" using assms(1) by (rule getOp_Some_length)
  have keep: "getOp g2 loopId = Some loopOp" using prefix_getOp [OF pre looplt] assms(1) by simp
  have A: "step \<le> 0 \<or> upperBound \<le> lowerBound \<longrightarrow>
            matchAndRewrite g loopId = Some (failure, g2) \<and> getOp g2 loopId = Some loopOp"
  proof
    assume "step \<le> 0 \<or> upperBound \<le> lowerBound"
    then have "matchOp g loopId = Some (False, maxTripCountValue, g2)"
      using constantCase_declines_bounds [OF assms(11-13)] reach by simp
    then show "matchAndRewrite g loopId = Some (failure, g2) \<and> getOp g2 loopId = Some loopOp"
      using matchAndRewrite_unmatched [OF assms(1-3)] keep by simp
  qed
  have B: "\<forall>derived. derivedTripCount lowerBound upperBound step = Some derived \<and> maxTripCount \<le> derived \<longrightarrow>
            matchAndRewrite g loopId = Some (failure, g2) \<and> getOp g2 loopId = Some loopOp"
  proof (intro allI impI)
    fix derived
    assume "derivedTripCount lowerBound upperBound step = Some derived \<and> maxTripCount \<le> derived"
    then have "matchOp g loopId = Some (False, maxTripCountValue, g2)"
      using constantCase_declines_max [OF assms(11-14)] reach by simp
    then show "matchAndRewrite g loopId = Some (failure, g2) \<and> getOp g2 loopId = Some loopOp"
      using matchAndRewrite_unmatched [OF assms(1-3)] keep by simp
  qed
  have C: "\<forall>g'. matchAndRewrite g loopId = Some (success, g') \<longrightarrow>
            0 < step \<and> lowerBound < upperBound \<and>
            (\<exists>derived loopOp' newMaxTripCountValue.
                derivedTripCount lowerBound upperBound step = Some derived \<and>
                derived < maxTripCount \<and>
                getOp g' loopId = Some loopOp' \<and>
                nth_opt (operands loopOp') 0 = Some newMaxTripCountValue \<and>
                getOneIntegerConstant g' newMaxTripCountValue = Some derived)"
  proof (intro allI impI)
    fix g'
    assume ok: "matchAndRewrite g loopId = Some (success, g')"
    from matchAndRewrite_success_matched [OF assms(1,2) ok] assms(3) obtain v g3 where
      m: "matchOp g loopId = Some (True, v, g3)" by auto
    then have cc: "constantCase g2 maxTripCountValue lbValue ubValue stepValue = Some (True, v, g3)"
      using reach by simp
    from constantCase_rewrites [OF assms(11-14) cc] obtain derived where
      d: "0 < step" "lowerBound < upperBound"
         "derivedTripCount lowerBound upperBound step = Some derived" "derived < maxTripCount"
         "(v, g3) = createOp g2 (ONNXConstantOp (DenseElementsAttr [word_of_int derived])) []
                            (elementType g2 maxTripCountValue)" by blast
    have val: "getOneIntegerConstant g3 v = Some derived"
      using new_constant_value [OF d(5)] derivedTripCount_range [OF d(3)] by simp
    have v: "v = OpResult (length (onnxOps g2)) 0" "length (onnxOps g3) = Suc (length (onnxOps g2))"
      using createOp_new [OF d(5) [symmetric]] by auto
    from idiom_shape [OF assms(5)] obtain b rid rop where
      sh: "loopBody = [b]" "getTerminator b = Some rid" "getOp g rid = Some rop"
          "kind rop = ONNXReturnOp" by blast
    let ?loop' = "replaceUsesOfWith loopOp maxTripCountValue v"
    let ?g4 = "setOp g3 loopId ?loop'"
    from matchAndRewrite_matched [OF assms(1-3) m ok] sh(1,2) obtain t rewritten where
      r: "getOp ?g4 rid = Some t" "g' = setOp ?g4 rid rewritten"
      by (auto simp: nth_opt_def)
    have ne: "rid \<noteq> loopId" using sh(3,4) assms(1,2) by auto
    have ridlt: "rid < length (onnxOps g)" using sh(3) by (rule getOp_Some_length)
    have len: "length (onnxOps g) \<le> length (onnxOps g2)" using pre by (rule prefix_length_le)
    have loop': "getOp g' loopId = Some ?loop'"
      using ne looplt len v(2) by (simp add: r(2) setOp_getOp setOp_length)
    have op0: "nth_opt (operands ?loop') 0 = Some v"
      using assms(3) by (auto simp: replaceUsesOfWith_def nth_opt_def split: if_splits)
    have newop: "getOp g' (length (onnxOps g2)) = getOp g3 (length (onnxOps g2))"
      using looplt ridlt len v(2) by (simp add: r(2) setOp_getOp setOp_length)
    have "getOneIntegerConstant g' v = Some derived"
      using val newop by (simp add: v(1) getOneIntegerConstant_def)
    with d loop' op0 show "0 < step \<and> lowerBound < upperBound \<and>
            (\<exists>derived loopOp' newMaxTripCountValue.
                derivedTripCount lowerBound upperBound step = Some derived \<and>
                derived < maxTripCount \<and>
                getOp g' loopId = Some loopOp' \<and>
                nth_opt (operands loopOp') 0 = Some newMaxTripCountValue \<and>
                getOneIntegerConstant g' newMaxTripCountValue = Some derived)"
      by blast
  qed
  have D: "\<forall>derived. 0 < step \<and> lowerBound < upperBound \<and>
              derivedTripCount lowerBound upperBound step = Some derived \<and> derived < maxTripCount \<longrightarrow>
            (\<exists>v g3. matchOp g loopId = Some (True, v, g3) \<and> getOneIntegerConstant g3 v = Some derived)"
  proof (intro allI impI)
    fix derived
    assume h: "0 < step \<and> lowerBound < upperBound \<and>
              derivedTripCount lowerBound upperBound step = Some derived \<and> derived < maxTripCount"
    then obtain v g3 where
      c: "constantCase g2 maxTripCountValue lbValue ubValue stepValue = Some (True, v, g3)"
         "(v, g3) = createOp g2 (ONNXConstantOp (DenseElementsAttr [word_of_int derived])) []
                            (elementType g2 maxTripCountValue)"
      using constantCase_succeeds [OF assms(11-14)] by blast
    have "getOneIntegerConstant g3 v = Some derived"
      using new_constant_value [OF c(2)] derivedTripCount_range h by blast
    then show "\<exists>v g3. matchOp g loopId = Some (True, v, g3) \<and> getOneIntegerConstant g3 v = Some derived"
      using c(1) reach by auto
  qed
  from A B C D show ?thesis by blast
qed

text \<open>
  For a range and a step up to \<open>2^53\<close> the constant case does what claim C1 says: the
  pattern succeeds only if \<open>0 < step\<close>, \<open>lowerBound < upperBound\<close> and the exact ceiling of
  \<open>(upperBound - lowerBound) / step\<close> is smaller than the old maximum trip count, and then
  the first operand of the loop is a constant holding that ceiling; in every other case
  it returns failure and the loop operation is as it was.
\<close>

lemma constant_case_exact_range:
  assumes "getOp g loopId = Some loopOp"
    and "kind loopOp = ONNXLoopOp loopBody"
    and "nth_opt (operands loopOp) 0 = Some maxTripCountValue"
    and "isDefinedByIntegerConstantOp g maxTripCountValue = Some True"
    and "matchIdiom g (operands loopOp) loopBody = Some (Some (lbValue, ubValue0, stepValue0, returnOperands))"
    and "hoistOutOfLoop g ubValue0 returnOperands (operands loopOp) = Some (ubValue, g1)"
    and "hoistOutOfLoop g1 stepValue0 returnOperands (operands loopOp) = Some (stepValue, g2)"
    and "isDefinedByIntegerConstantOp g2 lbValue = Some True"
    and "isDefinedByIntegerConstantOp g2 ubValue = Some True"
    and "isDefinedByIntegerConstantOp g2 stepValue = Some True"
    and "getOneIntegerConstant g2 lbValue = Some lowerBound"
    and "getOneIntegerConstant g2 ubValue = Some upperBound"
    and "getOneIntegerConstant g2 stepValue = Some step"
    and "getOneIntegerConstant g2 maxTripCountValue = Some maxTripCount"
    and "upperBound - lowerBound \<le> 2 ^ 53" and "step \<le> 2 ^ 53"
  shows "(\<forall>g'. matchAndRewrite g loopId = Some (success, g') \<longrightarrow>
            0 < step \<and> lowerBound < upperBound \<and>
            exactCeiling lowerBound upperBound step < maxTripCount \<and>
            (\<exists>loopOp' newMaxTripCountValue.
                getOp g' loopId = Some loopOp' \<and>
                nth_opt (operands loopOp') 0 = Some newMaxTripCountValue \<and>
                getOneIntegerConstant g' newMaxTripCountValue = Some (exactCeiling lowerBound upperBound step)))
       \<and> (\<not> (0 < step \<and> lowerBound < upperBound \<and> exactCeiling lowerBound upperBound step < maxTripCount)
            \<longrightarrow> matchAndRewrite g loopId = Some (failure, g2) \<and> getOp g2 loopId = Some loopOp)
       \<and> (0 < step \<and> lowerBound < upperBound \<and> exactCeiling lowerBound upperBound step < maxTripCount
            \<longrightarrow> (\<exists>v g3. matchOp g loopId = Some (True, v, g3) \<and>
                    getOneIntegerConstant g3 v = Some (exactCeiling lowerBound upperBound step)))"
proof -
  note cf = constant_case_control_flow [OF assms(1-14)]
  have ex: "derivedTripCount lowerBound upperBound step = Some (exactCeiling lowerBound upperBound step)"
    if "0 < step" "lowerBound < upperBound"
    using that assms(15,16) by (intro derivedTripCount_exact)
  have A: "\<forall>g'. matchAndRewrite g loopId = Some (success, g') \<longrightarrow>
            0 < step \<and> lowerBound < upperBound \<and>
            exactCeiling lowerBound upperBound step < maxTripCount \<and>
            (\<exists>loopOp' newMaxTripCountValue.
                getOp g' loopId = Some loopOp' \<and>
                nth_opt (operands loopOp') 0 = Some newMaxTripCountValue \<and>
                getOneIntegerConstant g' newMaxTripCountValue = Some (exactCeiling lowerBound upperBound step))"
  proof (intro allI impI)
    fix g'
    assume "matchAndRewrite g loopId = Some (success, g')"
    with cf obtain derived loopOp' v where
      d: "0 < step" "lowerBound < upperBound"
         "derivedTripCount lowerBound upperBound step = Some derived" "derived < maxTripCount"
         "getOp g' loopId = Some loopOp'" "nth_opt (operands loopOp') 0 = Some v"
         "getOneIntegerConstant g' v = Some derived"
      by blast
    from ex [OF d(1,2)] d(3) have "derived = exactCeiling lowerBound upperBound step" by simp
    with d show "0 < step \<and> lowerBound < upperBound \<and>
            exactCeiling lowerBound upperBound step < maxTripCount \<and>
            (\<exists>loopOp' newMaxTripCountValue.
                getOp g' loopId = Some loopOp' \<and>
                nth_opt (operands loopOp') 0 = Some newMaxTripCountValue \<and>
                getOneIntegerConstant g' newMaxTripCountValue = Some (exactCeiling lowerBound upperBound step))"
      by blast
  qed
  have B: "\<not> (0 < step \<and> lowerBound < upperBound \<and> exactCeiling lowerBound upperBound step < maxTripCount)
            \<longrightarrow> matchAndRewrite g loopId = Some (failure, g2) \<and> getOp g2 loopId = Some loopOp"
  proof
    assume n: "\<not> (0 < step \<and> lowerBound < upperBound \<and> exactCeiling lowerBound upperBound step < maxTripCount)"
    show "matchAndRewrite g loopId = Some (failure, g2) \<and> getOp g2 loopId = Some loopOp"
    proof (cases "0 < step \<and> lowerBound < upperBound")
      case False
      then have "step \<le> 0 \<or> upperBound \<le> lowerBound" by auto
      with cf show ?thesis by blast
    next
      case True
      then have "derivedTripCount lowerBound upperBound step = Some (exactCeiling lowerBound upperBound step)"
        using ex by simp
      moreover have "maxTripCount \<le> exactCeiling lowerBound upperBound step" using n True by simp
      ultimately show ?thesis using cf by blast
    qed
  qed
  have C: "0 < step \<and> lowerBound < upperBound \<and> exactCeiling lowerBound upperBound step < maxTripCount
            \<longrightarrow> (\<exists>v g3. matchOp g loopId = Some (True, v, g3) \<and>
                    getOneIntegerConstant g3 v = Some (exactCeiling lowerBound upperBound step))"
  proof
    assume h: "0 < step \<and> lowerBound < upperBound \<and> exactCeiling lowerBound upperBound step < maxTripCount"
    then have "derivedTripCount lowerBound upperBound step = Some (exactCeiling lowerBound upperBound step)"
      using ex by simp
    with h cf show "\<exists>v g3. matchOp g loopId = Some (True, v, g3) \<and>
                    getOneIntegerConstant g3 v = Some (exactCeiling lowerBound upperBound step)"
      by blast
  qed
  from A B C show ?thesis by blast
qed

text \<open>
  Claim C1 fails where the binary64 division loses the exact count.  With the bounds 0
  and 10, the step 3 and the maximum trip count \<open>2^63 - 1\<close> the example loop is rewritten
  to run 4 times, the exact ceiling, as the claim says.  But the example loop
  with the maximum trip count \<open>2^53 + 1\<close>, \<open>lowerBound = 0\<close>, \<open>upperBound = 2^53 + 1\<close> and
  \<open>step = 1\<close> runs \<open>2^53 + 1\<close> times, and the exact ceiling of
  \<open>(upperBound - lowerBound) / step\<close> is \<open>2^53 + 1\<close>, which is not smaller than the maximum
  trip count: the claim has the pattern decline.  The code converts the range to
  \<open>2^53\<close>, finds \<open>2^53\<close> smaller than the maximum, and rewrites the loop to run \<open>2^53\<close>
  times.
\<close>

theorem constant_case_rewrites_at_exact_maximum:
  "exactCeiling 0 10 3 = 4
   \<and> matchAndRewrite (exampleLoop (OpResult 3 0) 9223372036854775807 0 10 3) 8
        = Some (success, exampleRewritten 9223372036854775807 0 10 3 4)
   \<and> getOneIntegerConstant (exampleRewritten 9223372036854775807 0 10 3 4) (OpResult 10 0) = Some 4
   \<and> exactCeiling 0 9007199254740993 1 = 9007199254740993
   \<and> getOneIntegerConstant (exampleLoop (OpResult 3 0) 9007199254740993 0 9007199254740993 1) (OpResult 0 0)
        = Some 9007199254740993
   \<and> getOp (exampleLoop (OpResult 3 0) 9007199254740993 0 9007199254740993 1) 8
        = Some (exampleLoopOp (OpResult 3 0))
   \<and> nth_opt (operands (exampleLoopOp (OpResult 3 0))) 0 = Some (OpResult 0 0)
   \<and> derivedTripCount 0 9007199254740993 1 = Some 9007199254740992
   \<and> matchAndRewrite (exampleLoop (OpResult 3 0) 9007199254740993 0 9007199254740993 1) 8
        = Some (success, exampleRewritten 9007199254740993 0 9007199254740993 1 9007199254740992)
   \<and> getOp (exampleRewritten 9007199254740993 0 9007199254740993 1 9007199254740992) 8
        = Some (exampleLoopOp (OpResult 3 0)
                  \<lparr>operands := [OpResult 10 0, OpResult 1 0, OpResult 2 0, OpResult 3 0]\<rparr>)
   \<and> getOneIntegerConstant (exampleRewritten 9007199254740993 0 9007199254740993 1 9007199254740992)
        (OpResult 10 0) = Some 9007199254740992"
proof -
  have a: "exactCeiling 0 9007199254740993 1 = 9007199254740993"
    by (simp add: exactCeiling_def)
  have m: "getOneIntegerConstant (exampleLoop (OpResult 3 0) 9007199254740993 0 9007199254740993 1)
             (OpResult 0 0) = Some 9007199254740993"
    by (simp add: example_defs getOneIntegerConstant_def)
  have o: "nth_opt (operands (exampleLoopOp (OpResult 3 0))) 0 = Some (OpResult 0 0)"
    by (simp add: exampleLoopOp_def nth_opt_def)
  have b: "matchAndRewrite (exampleLoop (OpResult 3 0) 9007199254740993 0 9007199254740993 1) 8
        = Some (success, exampleRewritten 9007199254740993 0 9007199254740993 1 9007199254740992)"
    by (rule example_rewritten) (simp_all add: INT64_MIN_def INT64_MAX_def derived_2_53)
  have c: "getOneIntegerConstant (exampleRewritten 9007199254740993 0 9007199254740993 1 9007199254740992)
        (OpResult 10 0) = Some 9007199254740992"
    by (simp add: example_rewritten_constant)
  have d: "matchAndRewrite (exampleLoop (OpResult 3 0) 9223372036854775807 0 10 3) 8
        = Some (success, exampleRewritten 9223372036854775807 0 10 3 4)"
    by (rule example_rewritten) (simp_all add: INT64_MIN_def INT64_MAX_def derived_0_10_3)
  have e: "getOneIntegerConstant (exampleRewritten 9223372036854775807 0 10 3 4) (OpResult 10 0) = Some 4"
    by (simp add: example_rewritten_constant)
  from a m o example_getOp derived_2_53 b example_rewritten_loop c d e derived_0_10_3
  show ?thesis by simp
qed

subsection \<open>C2: the derived trip count against the exact ceiling\<close>

text \<open>
  Claim C2 asks that for all 64-bit constants with \<open>step > 0\<close> and
  \<open>upperBound > lowerBound\<close> the derived trip count is the exact integer ceiling of
  \<open>(upperBound - lowerBound) / step\<close>.  The code divides binary64 numbers: at
  \<open>lowerBound = 0\<close>, \<open>upperBound = 2^53 + 1\<close>, \<open>step = 1\<close> the range is rounded to \<open>2^53\<close>
  before the division, the derived trip count is \<open>2^53\<close> and the exact ceiling is
  \<open>2^53 + 1\<close>; with the maximum trip count \<open>2^63 - 1\<close> the pattern rewrites the loop of
  the example to run \<open>2^53\<close> times.
\<close>

theorem derived_trip_count_rounds_at_2_53:
  "derivedTripCount 0 9007199254740993 1 = Some 9007199254740992
   \<and> exactCeiling 0 9007199254740993 1 = 9007199254740993
   \<and> matchAndRewrite (exampleLoop (OpResult 3 0) 9223372036854775807 0 9007199254740993 1) 8
        = Some (success, exampleRewritten 9223372036854775807 0 9007199254740993 1 9007199254740992)
   \<and> getOneIntegerConstant (exampleRewritten 9223372036854775807 0 9007199254740993 1 9007199254740992)
        (OpResult 10 0) = Some 9007199254740992"
proof -
  have a: "exactCeiling 0 9007199254740993 1 = 9007199254740993"
    by (simp add: exactCeiling_def)
  have b: "matchAndRewrite (exampleLoop (OpResult 3 0) 9223372036854775807 0 9007199254740993 1) 8
        = Some (success, exampleRewritten 9223372036854775807 0 9007199254740993 1 9007199254740992)"
    by (rule example_rewritten) (simp_all add: INT64_MIN_def INT64_MAX_def derived_2_53)
  have c: "getOneIntegerConstant (exampleRewritten 9223372036854775807 0 9007199254740993 1 9007199254740992)
        (OpResult 10 0) = Some 9007199254740992"
    by (simp add: example_rewritten_constant)
  from derived_2_53 a b c show ?thesis by blast
qed

subsection \<open>C9: the break condition after a successful rewrite\<close>

text \<open>
  Claim C9.  Whenever the pattern succeeds on a loop operation (in the constant case or
  in the emitted case), the body of the loop is one block whose terminator had the
  result of the matched less-than as its first operand before the rewrite, and has the
  second block argument of the body block as its first operand after it.  The new
  operand is a block argument, so it is not the result of the less-than.
\<close>

theorem break_condition_is_continue_flag:
  assumes "matchAndRewrite g loopId = Some (success, g')"
    and "getOp g loopId = Some loopOp"
    and "kind loopOp = ONNXLoopOp loopBody"
  shows "\<exists>bodyBlock returnId oldReturn lessId k lessOp newReturn.
           loopBody = [bodyBlock] \<and> getTerminator bodyBlock = Some returnId \<and>
           getOp g returnId = Some oldReturn \<and>
           nth_opt (operands oldReturn) 0 = Some (OpResult lessId k) \<and>
           getOp g lessId = Some lessOp \<and> kind lessOp = ONNXLessOp \<and>
           getOp g' returnId = Some newReturn \<and> kind newReturn = ONNXReturnOp \<and>
           getArgument bodyBlock 1 = Some (BlockArgument (blockId bodyBlock) 1) \<and>
           nth_opt (operands newReturn) 0 = Some (BlockArgument (blockId bodyBlock) 1)"
proof -
  from assms obtain maxTripCountValue v g1 where
    m0: "nth_opt (operands loopOp) 0 = Some maxTripCountValue" and
    m: "matchOp g loopId = Some (True, v, g1)"
    using matchAndRewrite_success_matched by blast
  from matchOp_matched_shape [OF assms(2,3) m] obtain lbValue ubValue stepValue returnOperands where
    idiom: "matchIdiom g (operands loopOp) loopBody = Some (Some (lbValue, ubValue, stepValue, returnOperands))"
    and pre: "prefix (onnxOps g) (onnxOps g1)" by blast
  from idiom_shape [OF idiom] obtain b rid rop lessId k lessOp where
    sh: "loopBody = [b]" "getTerminator b = Some rid" "getOp g rid = Some rop"
        "kind rop = ONNXReturnOp" "nth_opt (operands rop) 0 = Some (OpResult lessId k)"
        "getOp g lessId = Some lessOp" "kind lessOp = ONNXLessOp" by blast
  let ?g2 = "setOp g1 loopId (replaceUsesOfWith loopOp maxTripCountValue v)"
  from matchAndRewrite_matched [OF assms(2,3) m0 m assms(1)] sh(1,2)
  obtain t rewritten where
    r: "getOp ?g2 rid = Some t" "1 < numArguments b"
       "setOperand t 0 (BlockArgument (blockId b) 1) = Some rewritten"
       "g' = setOp ?g2 rid rewritten"
    by (auto simp: nth_opt_def)
  have ne: "rid \<noteq> loopId" using sh(3,4) assms(2,3) by auto
  have ridlt: "rid < length (onnxOps g)" using sh(3) by (rule getOp_Some_length)
  have "getOp g1 rid = Some rop" using prefix_getOp [OF pre ridlt] sh(3) by simp
  then have t: "t = rop" using r(1) ne by (simp add: setOp_getOp split: if_splits)
  have lt: "rid < length (onnxOps ?g2)" using r(1) by (rule getOp_Some_length)
  have g': "getOp g' rid = Some rewritten" using lt by (simp add: r(4) setOp_getOp)
  have rw: "kind rewritten = ONNXReturnOp \<and>
            nth_opt (operands rewritten) 0 = Some (BlockArgument (blockId b) 1)"
    using r(3) sh(4) t by (auto simp: setOperand_def nth_opt_def split: if_splits)
  show ?thesis
    using sh g' rw r(2) by (auto simp: getArgument_def)
qed

theorem break_condition_is_continue_flag_witness:
  "(\<exists>g' newReturn.
      matchAndRewrite (exampleLoop (OpResult 3 0) 9223372036854775807 (- 100) 100 1) 8 = Some (success, g') \<and>
      getOp (exampleLoop (OpResult 3 0) 9223372036854775807 (- 100) 100 1) 7
        = Some \<lparr>kind = ONNXReturnOp, operands = [OpResult 6 0, BlockArgument 1 2, OpResult 5 0]\<rparr> \<and>
      getOp g' 7 = Some newReturn \<and> nth_opt (operands newReturn) 0 = Some (BlockArgument 1 1))
   \<and> (\<exists>g' newReturn.
      matchAndRewrite (exampleLoop (BlockArgument 0 0) 9223372036854775807 (- 100) 100 1) 8 = Some (success, g') \<and>
      getOp g' 7 = Some newReturn \<and> nth_opt (operands newReturn) 0 = Some (BlockArgument 1 1))"
proof -
  have run: "matchAndRewrite (exampleLoop (OpResult 3 0) 9223372036854775807 (- 100) 100 1) 8
               = Some (success, exampleRewritten 9223372036854775807 (- 100) 100 1 200)"
    by (rule example_rewritten) (simp_all add: INT64_MIN_def INT64_MAX_def derived_200)
  have old: "getOp (exampleLoop (OpResult 3 0) 9223372036854775807 (- 100) 100 1) 7
        = Some \<lparr>kind = ONNXReturnOp, operands = [OpResult 6 0, BlockArgument 1 2, OpResult 5 0]\<rparr>"
    by (simp add: example_defs)
  have a: "\<exists>g' newReturn.
      matchAndRewrite (exampleLoop (OpResult 3 0) 9223372036854775807 (- 100) 100 1) 8 = Some (success, g') \<and>
      getOp (exampleLoop (OpResult 3 0) 9223372036854775807 (- 100) 100 1) 7
        = Some \<lparr>kind = ONNXReturnOp, operands = [OpResult 6 0, BlockArgument 1 2, OpResult 5 0]\<rparr> \<and>
      getOp g' 7 = Some newReturn \<and> nth_opt (operands newReturn) 0 = Some (BlockArgument 1 1)"
    using break_condition_is_continue_flag [OF run example_getOp, of "[exampleBody]"] run old
    by (auto simp: exampleLoopOp_def exampleBody_def getTerminator_def)
  obtain g2 where run2:
    "matchAndRewrite (exampleLoop (BlockArgument 0 0) 9223372036854775807 (- 100) 100 1) 8 = Some (success, g2)"
    using example_emitted [of 9223372036854775807 "- 100" 100 1]
    by (cases "matchAndRewrite (exampleLoop (BlockArgument 0 0) 9223372036854775807 (- 100) 100 1) 8") auto
  have b: "\<exists>g' newReturn.
      matchAndRewrite (exampleLoop (BlockArgument 0 0) 9223372036854775807 (- 100) 100 1) 8 = Some (success, g') \<and>
      getOp g' 7 = Some newReturn \<and> nth_opt (operands newReturn) 0 = Some (BlockArgument 1 1)"
    using break_condition_is_continue_flag [OF run2 example_getOp, of "[exampleBody]"] run2
    by (auto simp: exampleLoopOp_def exampleBody_def getTerminator_def)
  from a b show ?thesis by blast
qed

section \<open>Properties of the stick and unstick patterns\<close>

subsection \<open>The host operations\<close>

lemma eraseOp_noresult:
  assumes "ops g i = Some opn" "numResults opn = 0"
  shows "eraseOp g i = Some (g\<lparr>ops := (ops g)(i := None),
                        blocks := map (\<lambda>(b, os). (b, removeAll i os)) (blocks g),
                        uses := (\<lambda>v. removeAll i (uses g v))\<rparr>)"
  using assms by (simp add: eraseOp_def)

lemma eraseOp_Some:
  "eraseOp g i = Some g' \<Longrightarrow>
     ops g' = (ops g)(i := None) \<and>
     blocks g' = map (\<lambda>(b, os). (b, removeAll i os)) (blocks g) \<and>
     uses g' = (\<lambda>v. removeAll i (uses g v)) \<and> valueType g' = valueType g"
  by (auto simp: eraseOp_def split: option.splits if_splits)

lemma find_removeAll_blocks:
  "j \<noteq> i \<Longrightarrow>
     map_option fst (find (\<lambda>(b, os). j \<in> set os) (map (\<lambda>(b, os). (b, removeAll i os)) bs))
       = map_option fst (find (\<lambda>(b, os). j \<in> set os) bs)"
  by (induction bs) auto

lemma getBlock_eraseOp:
  "eraseOp g i = Some g' \<Longrightarrow> j \<noteq> i \<Longrightarrow> getBlock g' j = getBlock g j"
  by (auto simp: getBlock_def find_removeAll_blocks dest!: eraseOp_Some)

lemma moveUses_ops:
  "ops (moveUses g old new) i =
     (if i \<in> set (uses g old)
      then map_option (mapOperands (\<lambda>v. if v = old then new else v)) (ops g i) else ops g i)"
  by (simp add: moveUses_def)

lemma moveUses_uses_old: "old \<noteq> new \<Longrightarrow> uses (moveUses g old new) old = []"
  by (simp add: moveUses_def)

lemma moveUses_stick:
  "ops g i = Some (ZLowStickOp x out l) \<Longrightarrow>
     \<exists>x' out'. ops (moveUses g old new) i = Some (ZLowStickOp x' out' l)"
  by (simp add: moveUses_ops)

lemma getBlock_moveUses: "getBlock (moveUses g old new) j = getBlock g j"
  by (simp add: getBlock_def moveUses_def)

lemma isUnstick_mapOperands: "isUnstick (map_option (mapOperands f) x) = isUnstick x"
  by (cases x rule: isUnstick.cases) auto

lemma isUnstick_moveUses: "isUnstick (ops (moveUses g old new) j) = isUnstick (ops g j)"
  by (simp add: moveUses_ops isUnstick_mapOperands)

lemma replaceAllUsesWith_Some:
  "replaceAllUsesWith g old new = Some g2 \<longleftrightarrow> old \<noteq> new \<and> g2 = moveUses g old new"
  by (auto simp: replaceAllUsesWith_def)

lemma replaceAllUsesWith_None: "replaceAllUsesWith g old new = None \<longleftrightarrow> old = new"
  by (simp add: replaceAllUsesWith_def)

lemma reachable_erase_noresult:
  assumes "ops g i = Some opn" "numResults opn = 0" "ops g' = (ops g)(i := None)"
  shows "reachable g' roots = reachable g roots"
proof (intro set_eqI iffI)
  fix v assume "v \<in> reachable g' roots"
  then show "v \<in> reachable g roots"
  proof (induction rule: reachable.induct)
    case (root v) then show ?case by (rule reachable.root)
  next
    case (operand j k opn' v)
    from operand.hyps have "ops g j = Some opn'" using assms(3) by (auto split: if_splits)
    with operand.hyps operand.IH show ?case by (auto intro: reachable.operand)
  qed
next
  fix v assume "v \<in> reachable g roots"
  then show "v \<in> reachable g' roots"
  proof (induction rule: reachable.induct)
    case (root v) then show ?case by (rule reachable.root)
  next
    case (operand j k opn' v)
    have "j \<noteq> i" using operand.hyps assms(1,2) by auto
    then have "ops g' j = Some opn'" using operand.hyps assms(3) by simp
    with operand.hyps operand.IH show ?case by (auto intro: reachable.operand)
  qed
qed

subsection \<open>The search loops\<close>

lemma findUnstickOfStick_Some:
  "findUnstickOfStick g v s users = Some (Some u) \<Longrightarrow>
     u \<in> set users \<and> (\<exists>x l. ops g u = Some (ZLowUnstickOp x v l)) \<and>
     isBeforeInBlock g u s = Some True"
  by (induction users) (auto split: option.splits mlir_op.splits if_splits)

lemma findUnstickOfStick_no_candidate:
  "\<forall>u\<in>set users. \<forall>x l. ops g u \<noteq> Some (ZLowUnstickOp x v l) \<Longrightarrow>
     findUnstickOfStick g v s users = Some None"
  by (induction users) (auto split: option.splits mlir_op.splits)

text \<open>
  When one unstick only writes the buffer, the search is decided by the place of that
  unstick.
\<close>

lemma findUnstickOfStick_unique:
  assumes "c \<in> set users" and "ops g c = Some (ZLowUnstickOp x v l)"
    and "\<forall>u\<in>set users. (\<exists>x' l'. ops g u = Some (ZLowUnstickOp x' v l')) \<longrightarrow> u = c"
  shows "findUnstickOfStick g v s users =
           (case isBeforeInBlock g c s of
              None \<Rightarrow> None
            | Some before \<Rightarrow> if before then Some (Some c) else Some None)"
  using assms(1,3)
proof (induction users)
  case Nil
  then show ?case by simp
next
  case (Cons user users)
  show ?case
  proof (cases "user = c")
    case True
    show ?thesis
    proof (cases "isBeforeInBlock g c s")
      case None
      then show ?thesis using True assms(2) by simp
    next
      case (Some before)
      show ?thesis
      proof (cases before)
        case True
        then show ?thesis using \<open>user = c\<close> Some assms(2) by simp
      next
        case False
        have rest: "findUnstickOfStick g v s users = Some None"
        proof (cases "c \<in> set users")
          case True
          then show ?thesis using Cons.IH Cons.prems(2) Some False by simp
        next
          case False
          then have "\<forall>u\<in>set users. \<forall>x l. ops g u \<noteq> Some (ZLowUnstickOp x v l)"
            using Cons.prems(2) by auto
          then show ?thesis by (rule findUnstickOfStick_no_candidate)
        qed
        then show ?thesis using \<open>user = c\<close> Some False assms(2) by simp
      qed
    qed
  next
    case False
    then have nc: "\<forall>x' l'. ops g user \<noteq> Some (ZLowUnstickOp x' v l')" using Cons.prems(2) by auto
    have "c \<in> set users" using Cons.prems(1) False by simp
    then have "findUnstickOfStick g v s users =
           (case isBeforeInBlock g c s of
              None \<Rightarrow> None
            | Some before \<Rightarrow> if before then Some (Some c) else Some None)"
      using Cons.IH Cons.prems(2) by simp
    then show ?thesis using nc by (auto split: option.splits mlir_op.splits)
  qed
qed

lemma findUnstickOfView_Some:
  "findUnstickOfView g v w users = Some (Some u) \<Longrightarrow>
     u \<in> set users \<and> (\<exists>x l. ops g u = Some (ZLowUnstickOp x v (Some l)) \<and> l \<noteq> LAYOUT_NCHW) \<and>
     isBeforeInBlock g u w = Some True"
  by (induction users) (auto split: option.splits mlir_op.splits if_splits)

subsection \<open>What a success of the round-trip patterns tells\<close>

lemma UnstickStick_success:
  assumes "UnstickStickRemovalPattern g s = Some (success, g')"
    and "ops g s = Some (ZLowStickOp stickInput stickOut stickLayout)"
  shows "\<exists>u ux uo ul. findUnstickOfStick g stickInput s (getUsers g stickInput) = Some (Some u) \<and>
           ops g u = Some (ZLowUnstickOp ux uo ul) \<and> stickOut \<noteq> ux \<and>
           eraseOp (moveUses g stickOut ux) s = Some g'"
  using assms
  by (auto simp: UnstickStickRemovalPattern_def replaceAllUsesWith_def
      split: option.splits if_splits mlir_op.splits Option.bind_splits)

lemma StickViewUnstick_success:
  assumes "StickViewUnstickRemovalPattern g stickOp = Some (success, g')"
  shows "\<exists>stickInput stickRes stickLayout viewOp k viewSource rest unstickOp unstickInput unstickOut
            unstickLayout g1.
      ops g stickOp = Some (ZLowStickOp stickInput stickRes (Some stickLayout)) \<and>
      stickLayout \<noteq> LAYOUT_NCHW \<and>
      stickInput = OpResult viewOp k \<and> ops g viewOp = Some (ViewLikeOp viewSource rest) \<and>
      \<not> hasNonIdentityLayout (valueType g stickInput) \<and>
      findUnstickOfView g viewSource viewOp (getUsers g viewSource) = Some (Some unstickOp) \<and>
      ops g unstickOp = Some (ZLowUnstickOp unstickInput unstickOut unstickLayout) \<and>
      hasStaticShape (valueType g stickRes) \<and>
      shape (valueType g stickRes) = shape (valueType g unstickInput) \<and>
      eraseOp g stickOp = Some g1 \<and>
      stickRes \<noteq> unstickInput \<and>
      (if use_empty (moveUses g1 stickRes unstickInput) (OpResult viewOp 0)
       then eraseOp (moveUses g1 stickRes unstickInput) viewOp = Some g'
       else g' = moveUses g1 stickRes unstickInput)"
proof -
  from assms obtain stickInput stickRes stickLayout where
    s: "ops g stickOp = Some (ZLowStickOp stickInput stickRes (Some stickLayout))"
    by (auto simp: StickViewUnstickRemovalPattern_def split: option.splits mlir_op.splits)
  from assms s have c1: "stickLayout \<noteq> LAYOUT_NCHW" "\<not> isBlockArgument stickInput"
      "\<not> hasNonIdentityLayout (valueType g stickInput)"
    by (auto simp: StickViewUnstickRemovalPattern_def split: if_splits)
  then obtain viewOp k where v: "stickInput = OpResult viewOp k" by (cases stickInput) auto
  from assms s c1 v obtain viewSource rest where
    w: "ops g viewOp = Some (ViewLikeOp viewSource rest)"
    by (auto simp: StickViewUnstickRemovalPattern_def split: option.splits mlir_op.splits)
  from assms s c1 v w obtain unstickOp where
    f: "findUnstickOfView g viewSource viewOp (getUsers g viewSource) = Some (Some unstickOp)"
    by (auto simp: StickViewUnstickRemovalPattern_def split: option.splits Option.bind_splits)
  from findUnstickOfView_Some [OF f] obtain ux ul where
    u: "ops g unstickOp = Some (ZLowUnstickOp ux viewSource (Some ul))" by blast
  from assms s c1 v w f u have sh: "hasStaticShape (valueType g stickRes)"
      "shape (valueType g stickRes) = shape (valueType g ux)"
    by (auto simp: StickViewUnstickRemovalPattern_def split: if_splits)
  from assms s c1 v w f u sh obtain g1 where g1: "eraseOp g stickOp = Some g1"
    by (auto simp: StickViewUnstickRemovalPattern_def split: Option.bind_splits)
  from assms s c1 v w f u sh g1 have ne: "stickRes \<noteq> ux"
    by (auto simp: StickViewUnstickRemovalPattern_def replaceAllUsesWith_def)
  from assms s c1 v w f u sh g1 ne have
    "if use_empty (moveUses g1 stickRes ux) (OpResult viewOp 0)
       then eraseOp (moveUses g1 stickRes ux) viewOp = Some g'
       else g' = moveUses g1 stickRes ux"
    by (auto simp: StickViewUnstickRemovalPattern_def replaceAllUsesWith_def
          split: Option.bind_splits if_splits)
  with s c1 v w f u sh g1 ne show ?thesis by blast
qed

subsection \<open>Evaluation of the examples\<close>

lemmas graph_defs =
  getUsers_def getBlock_def blockOperations_def isBeforeInBlock_def position_def hasOneUse_def
  use_empty_def hasStaticShape_def hasNonIdentityLayout_def exampleType_def LAYOUT_NCHW_def

subsection \<open>C8: removal of a dead stick or unstick\<close>

text \<open>
  Claim C8.  For an unstick (and for a stick) operation: if its \<open>Out\<close> value has exactly
  one use, the pattern returns success with a graph from which the operation has been
  erased, and the set of values reachable from any set of root values (the declared
  results of the function) is the same before and after; if the \<open>Out\<close> value does not
  have exactly one use, the pattern returns failure and the graph is the one it was
  given.
\<close>

theorem dead_conversion_removal:
  "(ops g i = Some (ZLowUnstickOp x out l) \<longrightarrow>
      (hasOneUse g out \<longrightarrow>
         (\<exists>g'. UnstickRemovalPattern g i = Some (success, g') \<and> ops g' = (ops g)(i := None) \<and>
               reachable g' roots = reachable g roots)) \<and>
      (\<not> hasOneUse g out \<longrightarrow> UnstickRemovalPattern g i = Some (failure, g)))
   \<and> (ops g i = Some (ZLowStickOp x out l) \<longrightarrow>
      (hasOneUse g out \<longrightarrow>
         (\<exists>g'. StickRemovalPattern g i = Some (success, g') \<and> ops g' = (ops g)(i := None) \<and>
               reachable g' roots = reachable g roots)) \<and>
      (\<not> hasOneUse g out \<longrightarrow> StickRemovalPattern g i = Some (failure, g)))"
proof -
  have A: "reachable (g\<lparr>ops := (ops g)(i := None),
                        blocks := map (\<lambda>(b, os). (b, removeAll i os)) (blocks g),
                        uses := (\<lambda>v. removeAll i (uses g v))\<rparr>) roots = reachable g roots"
    if "ops g i = Some opn" "numResults opn = 0" for opn
    using that by (intro reachable_erase_noresult [of g i opn]) simp_all
  show ?thesis
    using A [of "ZLowUnstickOp x out l"] A [of "ZLowStickOp x out l"]
    by (auto simp: UnstickRemovalPattern_def StickRemovalPattern_def eraseOp_noresult)
qed

theorem dead_conversion_removal_witness:
  "(\<exists>g'. UnstickRemovalPattern (exampleDead False) 12 = Some (success, g') \<and> ops g' 12 = None \<and>
         reachable g' {OpResult 13 0} = reachable (exampleDead False) {OpResult 13 0})
   \<and> (\<exists>g'. StickRemovalPattern (exampleDead False) 14 = Some (success, g') \<and> ops g' 14 = None \<and>
         reachable g' {OpResult 11 0} = reachable (exampleDead False) {OpResult 11 0})
   \<and> UnstickRemovalPattern (exampleDead True) 12 = Some (failure, exampleDead True)
   \<and> StickRemovalPattern (exampleDead True) 14 = Some (failure, exampleDead True)"
proof -
  have u: "ops (exampleDead r) 12 = Some (ZLowUnstickOp (OpResult 10 0) (OpResult 11 0) (Some ''2D''))"
    and s: "ops (exampleDead r) 14 = Some (ZLowStickOp (OpResult 10 0) (OpResult 13 0) (Some ''2D''))" for r
    by (simp_all add: exampleDead_def)
  have one: "hasOneUse (exampleDead False) (OpResult 11 0)" "hasOneUse (exampleDead False) (OpResult 13 0)"
    and more: "\<not> hasOneUse (exampleDead True) (OpResult 11 0)" "\<not> hasOneUse (exampleDead True) (OpResult 13 0)"
    by (simp_all add: exampleDead_def hasOneUse_def)
  have "\<exists>g'. UnstickRemovalPattern (exampleDead False) 12 = Some (success, g') \<and>
          ops g' = (ops (exampleDead False))(12 := None) \<and>
          reachable g' {OpResult 13 0} = reachable (exampleDead False) {OpResult 13 0}"
    using dead_conversion_removal [of "exampleDead False" 12 "OpResult 10 0" "OpResult 11 0" "Some ''2D''"
             "{OpResult 13 0}"] u [of False] one(1)
    by blast
  then have a: "\<exists>g'. UnstickRemovalPattern (exampleDead False) 12 = Some (success, g') \<and> ops g' 12 = None \<and>
         reachable g' {OpResult 13 0} = reachable (exampleDead False) {OpResult 13 0}"
    by fastforce
  have "\<exists>g'. StickRemovalPattern (exampleDead False) 14 = Some (success, g') \<and>
          ops g' = (ops (exampleDead False))(14 := None) \<and>
          reachable g' {OpResult 11 0} = reachable (exampleDead False) {OpResult 11 0}"
    using dead_conversion_removal [of "exampleDead False" 14 "OpResult 10 0" "OpResult 13 0" "Some ''2D''"
             "{OpResult 11 0}"] s [of False] one(2)
    by blast
  then have b: "\<exists>g'. StickRemovalPattern (exampleDead False) 14 = Some (success, g') \<and> ops g' 14 = None \<and>
         reachable g' {OpResult 11 0} = reachable (exampleDead False) {OpResult 11 0}"
    by fastforce
  have c: "UnstickRemovalPattern (exampleDead True) 12 = Some (failure, exampleDead True)"
    using dead_conversion_removal [of "exampleDead True" 12 "OpResult 10 0" "OpResult 11 0" "Some ''2D''" "{}"]
      u [of True] more(1)
    by blast
  have d: "StickRemovalPattern (exampleDead True) 14 = Some (failure, exampleDead True)"
    using dead_conversion_removal [of "exampleDead True" 14 "OpResult 10 0" "OpResult 13 0" "Some ''2D''" "{}"]
      s [of True] more(2)
    by blast
  from a b c d show ?thesis by blast
qed

subsection \<open>C5: removal of an unstick/stick round trip\<close>

lemma roundTrip_facts:
  "ops (exampleRoundTrip ls lu) 14 = Some (ZLowStickOp (OpResult 11 0) (OpResult 13 0) ls)"
  "ops (exampleRoundTrip ls lu) 12 = Some (ZLowUnstickOp (OpResult 10 0) (OpResult 11 0) lu)"
  "findUnstickOfStick (exampleRoundTrip ls lu) (OpResult 11 0) 14
      (getUsers (exampleRoundTrip ls lu) (OpResult 11 0)) = Some (Some 12)"
  "ops (moveUses (exampleRoundTrip ls lu) (OpResult 13 0) (OpResult 10 0)) 15
      = Some (OtherOp [OpResult 10 0] 0)"
  "getBlock (exampleRoundTrip ls lu) 12 = Some 0"
  "getUsers (exampleRoundTrip ls lu) (OpResult 11 0) = [14, 12]"
  "isBeforeInBlock (exampleRoundTrip ls lu) 12 14 = Some True"
  by (simp_all add: exampleRoundTrip_def graph_defs moveUses_def)

lemma roundTrip_run:
  "map_option fst (UnstickStickRemovalPattern (exampleRoundTrip (Some l) (Some l)) 14) = Some success"
  by (simp add: UnstickStickRemovalPattern_def roundTrip_facts replaceAllUsesWith_def)
     (simp add: exampleRoundTrip_def eraseOp_def moveUses_def)

lemma nestedStick_facts:
  "ops exampleNestedStick 14 = Some (ZLowStickOp (OpResult 11 0) (OpResult 13 0) (Some ''3DS''))"
  "ops exampleNestedStick 12 = Some (ZLowUnstickOp (OpResult 10 0) (OpResult 11 0) (Some ''3DS''))"
  "getUsers exampleNestedStick (OpResult 11 0) = [14, 12]"
  "getBlock exampleNestedStick 12 = Some 0" "getBlock exampleNestedStick 14 = Some 1"
  "isBeforeInBlock exampleNestedStick 12 14 = None"
  by (simp_all add: exampleNestedStick_def graph_defs)

lemma inPlace_facts:
  "ops exampleInPlace 14 = Some (ZLowStickOp (OpResult 11 0) (OpResult 10 0) (Some ''3DS''))"
  "ops exampleInPlace 12 = Some (ZLowUnstickOp (OpResult 10 0) (OpResult 11 0) (Some ''3DS''))"
  "getUsers exampleInPlace (OpResult 11 0) = [14, 12]"
  "isBeforeInBlock exampleInPlace 12 14 = Some True"
  by (simp_all add: exampleInPlace_def graph_defs)

text \<open>
  The pattern on a stick whose input is written by the unstick \<open>c\<close> only.
\<close>

lemma UnstickStick_unique:
  assumes "ops g stickOp = Some (ZLowStickOp stickInput stickOut stickLayout)"
    and "\<not> isBlockArgument stickInput"
    and "c \<in> set (getUsers g stickInput)" and "ops g c = Some (ZLowUnstickOp cx stickInput cl)"
    and "\<forall>u\<in>set (getUsers g stickInput).
            (\<exists>x' l'. ops g u = Some (ZLowUnstickOp x' stickInput l')) \<longrightarrow> u = c"
  shows "UnstickStickRemovalPattern g stickOp =
           (case isBeforeInBlock g c stickOp of
              None \<Rightarrow> None
            | Some before \<Rightarrow>
                if \<not> before then Some (failure, g)
                else if stickLayout = None \<or> cl \<noteq> stickLayout then Some (failure, g)
                else if stickOut = cx then None
                else map_option (Pair success) (eraseOp (moveUses g stickOut cx) stickOp))"
proof -
  have f: "findUnstickOfStick g stickInput stickOp (getUsers g stickInput) =
           (case isBeforeInBlock g c stickOp of
              None \<Rightarrow> None
            | Some before \<Rightarrow> if before then Some (Some c) else Some None)"
    using assms(3,4,5) by (rule findUnstickOfStick_unique)
  show ?thesis
  proof (cases "isBeforeInBlock g c stickOp")
    case None
    then show ?thesis using assms(1,2) f by (simp add: UnstickStickRemovalPattern_def)
  next
    case (Some before)
    show ?thesis
    proof (cases before)
      case False
      then show ?thesis using Some assms(1,2) f by (simp add: UnstickStickRemovalPattern_def)
    next
      case True
      then have "findUnstickOfStick g stickInput stickOp (getUsers g stickInput) = Some (Some c)"
        using Some f by simp
      then show ?thesis
        using Some True assms(1,2,4)
        by (cases stickLayout; cases cl;
            cases "eraseOp (moveUses g stickOut cx) stickOp";
            simp add: UnstickStickRemovalPattern_def replaceAllUsesWith_def)
    qed
  qed
qed

text \<open>
  Claim C5 holds where the pattern returns, and fails where it does not return.  Let
  the buffer \<open>stickInput\<close> be written by one unstick at most (the invariant the comment at
  lines 87-88 states).  Then: (1) the pattern succeeds exactly when the input is not a
  block argument, an unstick with the input as its \<open>Out\<close> precedes the stick in the block
  of the stick, both carry layout tags that are present and equal, and the output of the
  stick is not the source of the unstick; then every use of the output has been replaced
  by that source and the stick is erased.  (2) The pattern has no result (the host
  aborts) exactly when the input is not a block argument and the unstick that writes it
  is not in the block of the stick, or precedes it with an equal layout while the output
  of the stick is the source of the unstick.  (3) In every other case it returns failure
  and the graph is the one it was given.
\<close>

theorem unstick_stick_removal:
  assumes "ops g stickOp = Some (ZLowStickOp stickInput stickOut stickLayout)"
    and "\<forall>u\<in>set (getUsers g stickInput). \<forall>u'\<in>set (getUsers g stickInput).
            (\<exists>x l. ops g u = Some (ZLowUnstickOp x stickInput l)) \<and>
            (\<exists>x l. ops g u' = Some (ZLowUnstickOp x stickInput l)) \<longrightarrow> u = u'"
  shows "(UnstickStickRemovalPattern g stickOp = Some (success, g') \<longleftrightarrow>
            \<not> isBlockArgument stickInput \<and>
            (\<exists>unstickOp unstickX unstickLayout g1.
               unstickOp \<in> set (getUsers g stickInput) \<and>
               ops g unstickOp = Some (ZLowUnstickOp unstickX stickInput unstickLayout) \<and>
               isBeforeInBlock g unstickOp stickOp = Some True \<and>
               stickLayout \<noteq> None \<and> unstickLayout = stickLayout \<and>
               replaceAllUsesWith g stickOut unstickX = Some g1 \<and>
               eraseOp g1 stickOp = Some g' \<and>
               ops g' stickOp = None \<and> getUsers g' stickOut = [] \<and>
               (\<forall>j. j \<noteq> stickOp \<longrightarrow> ops g' j = ops g1 j)))
       \<and> (UnstickStickRemovalPattern g stickOp = None \<longleftrightarrow>
            \<not> isBlockArgument stickInput \<and>
            (\<exists>unstickOp unstickX unstickLayout.
               unstickOp \<in> set (getUsers g stickInput) \<and>
               ops g unstickOp = Some (ZLowUnstickOp unstickX stickInput unstickLayout) \<and>
               (isBeforeInBlock g unstickOp stickOp = None \<or>
                isBeforeInBlock g unstickOp stickOp = Some True \<and>
                stickLayout \<noteq> None \<and> unstickLayout = stickLayout \<and> stickOut = unstickX)))
       \<and> ((\<forall>g''. UnstickStickRemovalPattern g stickOp \<noteq> Some (success, g'')) \<and>
           UnstickStickRemovalPattern g stickOp \<noteq> None \<longrightarrow>
              UnstickStickRemovalPattern g stickOp = Some (failure, g))"
    (is "(?run = Some (success, g') \<longleftrightarrow> ?S) \<and> (?run = None \<longleftrightarrow> ?N) \<and> ?F")
proof (cases "isBlockArgument stickInput")
  case True
  then have "?run = Some (failure, g)" using assms(1) by (simp add: UnstickStickRemovalPattern_def)
  with True show ?thesis by simp
next
  case nb: False
  show ?thesis
  proof (cases "\<exists>c\<in>set (getUsers g stickInput). \<exists>x l. ops g c = Some (ZLowUnstickOp x stickInput l)")
    case False
    then have "findUnstickOfStick g stickInput stickOp (getUsers g stickInput) = Some None"
      by (intro findUnstickOfStick_no_candidate) blast
    then have "?run = Some (failure, g)"
      using assms(1) nb by (simp add: UnstickStickRemovalPattern_def)
    with False show ?thesis by auto
  next
    case True
    then obtain c cx cl where c: "c \<in> set (getUsers g stickInput)"
        "ops g c = Some (ZLowUnstickOp cx stickInput cl)" by blast
    have uniq: "\<forall>u\<in>set (getUsers g stickInput).
            (\<exists>x' l'. ops g u = Some (ZLowUnstickOp x' stickInput l')) \<longrightarrow> u = c"
      using assms(2) c by blast
    note ev = UnstickStick_unique [OF assms(1) nb c uniq]
    have only: "u = c \<and> x = cx \<and> l = cl"
      if "u \<in> set (getUsers g stickInput)" "ops g u = Some (ZLowUnstickOp x stickInput l)" for u x l
    proof -
      have "u = c" using uniq that by blast
      then show ?thesis using that(2) c(2) by simp
    qed
    obtain x' out' where
      st: "ops (moveUses g stickOut cx) stickOp = Some (ZLowStickOp x' out' stickLayout)"
      using moveUses_stick [OF assms(1)] by blast
    have "numResults (ZLowStickOp x' out' stickLayout) = 0" by simp
    note er = eraseOp_noresult [OF st this]
    define ge where "ge = (moveUses g stickOut cx)\<lparr>ops := (ops (moveUses g stickOut cx))(stickOp := None),
                        blocks := map (\<lambda>(b, os). (b, removeAll stickOp os)) (blocks (moveUses g stickOut cx)),
                        uses := (\<lambda>v. removeAll stickOp (uses (moveUses g stickOut cx) v))\<rparr>"
    have er': "eraseOp (moveUses g stickOut cx) stickOp = Some ge" using er by (simp add: ge_def)
    have ge: "ops ge stickOp = None" "\<forall>j. j \<noteq> stickOp \<longrightarrow> ops ge j = ops (moveUses g stickOut cx) j"
        "stickOut \<noteq> cx \<Longrightarrow> getUsers ge stickOut = []"
      by (simp_all add: ge_def getUsers_def moveUses_uses_old)
    show ?thesis
    proof (cases "isBeforeInBlock g c stickOp")
      case None
      then have r: "?run = None" using ev by simp
      have "\<not> ?S" using None only by fastforce
      moreover have "?N" using nb c None by blast
      ultimately show ?thesis using r by simp
    next
      case (Some before)
      show ?thesis
      proof (cases "before \<and> stickLayout \<noteq> None \<and> cl = stickLayout")
        case False
        then have r: "?run = Some (failure, g)" using ev Some by auto
        have "\<not> ?S" using Some False only by fastforce
        moreover have "\<not> ?N" using Some False only by fastforce
        ultimately show ?thesis using r by simp
      next
        case ok: True
        then have bt: "isBeforeInBlock g c stickOp = Some True" using Some by simp
        show ?thesis
        proof (cases "stickOut = cx")
          case True
          then have r: "?run = None" using ev Some ok by simp
          have "\<not> ?S"
          proof
            assume ?S
            then obtain u x l g1 where "u \<in> set (getUsers g stickInput)"
                "ops g u = Some (ZLowUnstickOp x stickInput l)" "replaceAllUsesWith g stickOut x = Some g1"
              by blast
            then show False using only True by (auto simp: replaceAllUsesWith_def)
          qed
          moreover have "?N" using nb c bt ok True by blast
          ultimately show ?thesis using r by simp
        next
          case ne: False
          then have r: "?run = Some (success, ge)" using ev Some ok er' by simp
          have N: "\<not> ?N" using Some ne only by fastforce
          have S: "?S \<longleftrightarrow> g' = ge"
          proof
            assume ?S
            then obtain u x l g1 where h: "u \<in> set (getUsers g stickInput)"
                "ops g u = Some (ZLowUnstickOp x stickInput l)" "replaceAllUsesWith g stickOut x = Some g1"
                "eraseOp g1 stickOp = Some g'"
              by blast
            from only [OF h(1,2)] h(3) have "g1 = moveUses g stickOut cx"
              by (simp add: replaceAllUsesWith_Some)
            with h(4) er' show "g' = ge" by simp
          next
            assume e: "g' = ge"
            have "replaceAllUsesWith g stickOut cx = Some (moveUses g stickOut cx)"
              using ne by (simp add: replaceAllUsesWith_def)
            then show ?S using nb c bt ok er' ge ne unfolding e by blast
          qed
          from r S N show ?thesis by auto
        qed
      qed
    qed
  qed
qed

theorem unstick_stick_removal_witness:
  "(\<exists>g'. UnstickStickRemovalPattern (exampleRoundTrip (Some ''3DS'') (Some ''3DS'')) 14 = Some (success, g') \<and>
         ops g' 14 = None \<and> getUsers g' (OpResult 13 0) = [] \<and>
         ops g' 15 = Some (OtherOp [OpResult 10 0] 0))
   \<and> UnstickStickRemovalPattern (exampleRoundTrip (Some ''3DS'') (Some ''2D'')) 14
        = Some (failure, exampleRoundTrip (Some ''3DS'') (Some ''2D''))
   \<and> UnstickStickRemovalPattern (exampleRoundTrip None (Some ''2D'')) 14
        = Some (failure, exampleRoundTrip None (Some ''2D''))
   \<and> UnstickStickRemovalPattern exampleNestedStick 14 = None
   \<and> UnstickStickRemovalPattern exampleInPlace 14 = None"
proof -
  have inv: "\<forall>u\<in>set (getUsers (exampleRoundTrip ls lu) (OpResult 11 0)).
               \<forall>u'\<in>set (getUsers (exampleRoundTrip ls lu) (OpResult 11 0)).
            (\<exists>x l. ops (exampleRoundTrip ls lu) u = Some (ZLowUnstickOp x (OpResult 11 0) l)) \<and>
            (\<exists>x l. ops (exampleRoundTrip ls lu) u' = Some (ZLowUnstickOp x (OpResult 11 0) l)) \<longrightarrow> u = u'"
    for ls lu
    by (simp add: roundTrip_facts)
  note T = unstick_stick_removal [OF roundTrip_facts(1) inv]
  obtain g1 where run:
    "UnstickStickRemovalPattern (exampleRoundTrip (Some ''3DS'') (Some ''3DS'')) 14 = Some (success, g1)"
    using roundTrip_run [of "''3DS''"]
    by (cases "UnstickStickRemovalPattern (exampleRoundTrip (Some ''3DS'') (Some ''3DS'')) 14") auto
  have a: "ops g1 14 = None \<and> getUsers g1 (OpResult 13 0) = [] \<and> ops g1 15 = Some (OtherOp [OpResult 10 0] 0)"
    using T [of "Some ''3DS''" "Some ''3DS''" g1] run
    by (auto simp: roundTrip_facts replaceAllUsesWith_Some)
  have fail: "UnstickStickRemovalPattern (exampleRoundTrip ls lu) 14 = Some (failure, exampleRoundTrip ls lu)"
    if "ls = None \<or> lu \<noteq> ls" for ls lu
  proof -
    have ns: "UnstickStickRemovalPattern (exampleRoundTrip ls lu) 14 \<noteq> Some (success, g'')" for g''
      using T [of ls lu g''] that by (auto simp: roundTrip_facts)
    have nn: "UnstickStickRemovalPattern (exampleRoundTrip ls lu) 14 \<noteq> None"
      using T [of ls lu] that by (auto simp: roundTrip_facts)
    show ?thesis using T [of ls lu] ns nn by blast
  qed
  have b: "UnstickStickRemovalPattern (exampleRoundTrip (Some ''3DS'') (Some ''2D'')) 14
        = Some (failure, exampleRoundTrip (Some ''3DS'') (Some ''2D''))"
    by (rule fail) simp
  have c: "UnstickStickRemovalPattern (exampleRoundTrip None (Some ''2D'')) 14
        = Some (failure, exampleRoundTrip None (Some ''2D''))"
    by (rule fail) simp
  have inv_nested: "\<forall>u\<in>set (getUsers exampleNestedStick (OpResult 11 0)).
               \<forall>u'\<in>set (getUsers exampleNestedStick (OpResult 11 0)).
            (\<exists>x l. ops exampleNestedStick u = Some (ZLowUnstickOp x (OpResult 11 0) l)) \<and>
            (\<exists>x l. ops exampleNestedStick u' = Some (ZLowUnstickOp x (OpResult 11 0) l)) \<longrightarrow> u = u'"
    by (simp add: nestedStick_facts)
  have d: "UnstickStickRemovalPattern exampleNestedStick 14 = None"
    using unstick_stick_removal [OF nestedStick_facts(1) inv_nested]
    by (auto simp: nestedStick_facts)
  have inv_place: "\<forall>u\<in>set (getUsers exampleInPlace (OpResult 11 0)).
               \<forall>u'\<in>set (getUsers exampleInPlace (OpResult 11 0)).
            (\<exists>x l. ops exampleInPlace u = Some (ZLowUnstickOp x (OpResult 11 0) l)) \<and>
            (\<exists>x l. ops exampleInPlace u' = Some (ZLowUnstickOp x (OpResult 11 0) l)) \<longrightarrow> u = u'"
    by (simp add: inPlace_facts)
  have e: "UnstickStickRemovalPattern exampleInPlace 14 = None"
    using unstick_stick_removal [OF inPlace_facts(1) inv_place]
    by (auto simp: inPlace_facts)
  from run a b c d e show ?thesis by blast
qed

subsection \<open>C6: removal of a round trip through a view\<close>

lemma viewRoundTrip_facts:
  "ops (exampleViewRoundTrip ls lu r) 15 = Some (ZLowStickOp (OpResult 13 0) (OpResult 14 0) ls)"
  "ops (exampleViewRoundTrip ls lu r) 13 = Some (ViewLikeOp (OpResult 11 0) [])"
  "ops (exampleViewRoundTrip ls lu r) 12 = Some (ZLowUnstickOp (OpResult 10 0) (OpResult 11 0) lu)"
  "findUnstickOfView (exampleViewRoundTrip ls (Some ''3DS'') r) (OpResult 11 0) 13
      (getUsers (exampleViewRoundTrip ls (Some ''3DS'') r) (OpResult 11 0)) = Some (Some 12)"
  "getBlock (exampleViewRoundTrip ls lu r) 12 = Some 0"
  by (simp_all add: exampleViewRoundTrip_def graph_defs)

lemma viewRoundTrip_run:
  "map_option fst (StickViewUnstickRemovalPattern (exampleViewRoundTrip (Some ''3DS'') (Some ''3DS'') r) 15)
     = Some success"
  by (simp add: StickViewUnstickRemovalPattern_def viewRoundTrip_facts)
     (simp add: exampleViewRoundTrip_def eraseOp_def replaceAllUsesWith_def moveUses_def graph_defs)

lemma viewRoundTrip_view_uses:
  "eraseOp (exampleViewRoundTrip ls lu r) 15 = Some g1 \<Longrightarrow>
     use_empty (moveUses g1 (OpResult 14 0) (OpResult 10 0)) (OpResult 13 0) = (\<not> r)"
  by (auto simp: use_empty_def moveUses_def exampleViewRoundTrip_def dest!: eraseOp_Some)

lemma viewRoundTrip_redirect:
  "eraseOp (exampleViewRoundTrip ls lu r) 15 = Some g1 \<Longrightarrow>
     ops (moveUses g1 (OpResult 14 0) (OpResult 10 0)) 16 = Some (OtherOp [OpResult 10 0] 0)"
  by (auto simp: moveUses_def exampleViewRoundTrip_def dest!: eraseOp_Some)

text \<open>
  Claim C6.  Whenever the pattern succeeds on a stick \<open>stick(stickInput, stickRes)\<close>: the
  layout tag of the stick is not NCHW; the stick input is the result of a view-like
  operation and its type carries no layout other than the identity; the unstick found
  for the source of the view has a tag other than NCHW; the type of \<open>stickRes\<close> has a
  static shape, equal to the shape of the source \<open>unstickInput\<close> of that unstick.  In
  the resulting graph the stick is erased, no user of \<open>stickRes\<close> is left (its uses are
  uses of \<open>unstickInput\<close> now), every operation other than the stick and the view is as
  the replacement of \<open>stickRes\<close> by \<open>unstickInput\<close> left it, and the view operation is
  erased exactly when its result had no use left after the stick was erased.
\<close>

theorem stick_view_unstick_removal:
  assumes "StickViewUnstickRemovalPattern g stickOp = Some (success, g')"
  shows "\<exists>stickInput stickRes stickLayout viewOp k viewSource rest unstickOp unstickInput unstickOut
            unstickLayout g1 g2.
      ops g stickOp = Some (ZLowStickOp stickInput stickRes (Some stickLayout)) \<and>
      stickLayout \<noteq> LAYOUT_NCHW \<and>
      stickInput = OpResult viewOp k \<and> ops g viewOp = Some (ViewLikeOp viewSource rest) \<and>
      \<not> hasNonIdentityLayout (valueType g stickInput) \<and>
      findUnstickOfView g viewSource viewOp (getUsers g viewSource) = Some (Some unstickOp) \<and>
      ops g unstickOp = Some (ZLowUnstickOp unstickInput unstickOut (Some unstickLayout)) \<and>
      unstickLayout \<noteq> LAYOUT_NCHW \<and> unstickOut = viewSource \<and>
      isBeforeInBlock g unstickOp viewOp = Some True \<and>
      hasStaticShape (valueType g stickRes) \<and>
      shape (valueType g stickRes) = shape (valueType g unstickInput) \<and>
      eraseOp g stickOp = Some g1 \<and>
      replaceAllUsesWith g1 stickRes unstickInput = Some g2 \<and>
      ops g' stickOp = None \<and>
      stickRes \<noteq> unstickInput \<and> getUsers g' stickRes = [] \<and>
      (\<forall>j. j \<noteq> stickOp \<and> j \<noteq> viewOp \<longrightarrow> ops g' j = ops g2 j) \<and>
      (ops g' viewOp = None \<longleftrightarrow> use_empty g2 (OpResult viewOp 0))"
proof -
  from StickViewUnstick_success [OF assms] obtain stickInput stickRes stickLayout viewOp k viewSource
      rest unstickOp unstickInput unstickOut unstickLayout0 g1 where
    h: "ops g stickOp = Some (ZLowStickOp stickInput stickRes (Some stickLayout))"
       "stickLayout \<noteq> LAYOUT_NCHW"
       "stickInput = OpResult viewOp k" "ops g viewOp = Some (ViewLikeOp viewSource rest)"
       "\<not> hasNonIdentityLayout (valueType g stickInput)"
       "findUnstickOfView g viewSource viewOp (getUsers g viewSource) = Some (Some unstickOp)"
       "ops g unstickOp = Some (ZLowUnstickOp unstickInput unstickOut unstickLayout0)"
       "hasStaticShape (valueType g stickRes)"
       "shape (valueType g stickRes) = shape (valueType g unstickInput)"
       "eraseOp g stickOp = Some g1"
       "stickRes \<noteq> unstickInput"
       "if use_empty (moveUses g1 stickRes unstickInput) (OpResult viewOp 0)
        then eraseOp (moveUses g1 stickRes unstickInput) viewOp = Some g'
        else g' = moveUses g1 stickRes unstickInput"
    by blast
  from findUnstickOfView_Some [OF h(6)] h(7) obtain unstickLayout where
    u: "unstickLayout0 = Some unstickLayout" "unstickLayout \<noteq> LAYOUT_NCHW" "unstickOut = viewSource"
       "isBeforeInBlock g unstickOp viewOp = Some True"
    by auto
  let ?g2 = "moveUses g1 stickRes unstickInput"
  have r: "replaceAllUsesWith g1 stickRes unstickInput = Some ?g2"
    using h(11) by (simp add: replaceAllUsesWith_def)
  have ne: "viewOp \<noteq> stickOp" using h(1,4) by auto
  have g1: "ops g1 = (ops g)(stickOp := None)" "uses g1 = (\<lambda>v. removeAll stickOp (uses g v))"
    using eraseOp_Some [OF h(10)] by auto
  have g2s: "ops ?g2 stickOp = None" by (simp add: moveUses_ops g1)
  have g2v: "ops ?g2 viewOp \<noteq> None" using ne h(4) by (simp add: moveUses_ops g1)
  have g2u: "getUsers ?g2 stickRes = []"
    using h(11) by (simp add: getUsers_def moveUses_uses_old)
  have eff: "ops g' stickOp = None \<and>
      stickRes \<noteq> unstickInput \<and> getUsers g' stickRes = [] \<and>
      (\<forall>j. j \<noteq> stickOp \<and> j \<noteq> viewOp \<longrightarrow> ops g' j = ops ?g2 j) \<and>
      (ops g' viewOp = None \<longleftrightarrow> use_empty ?g2 (OpResult viewOp 0))"
  proof (cases "use_empty ?g2 (OpResult viewOp 0)")
    case True
    with h(12) have e: "eraseOp ?g2 viewOp = Some g'" by simp
    from eraseOp_Some [OF e] have g': "ops g' = (ops ?g2)(viewOp := None)"
      "uses g' = (\<lambda>v. removeAll viewOp (uses ?g2 v))" by auto
    show ?thesis using True g2s g2u ne h(11) by (simp add: g' getUsers_def)
  next
    case False
    with h(12) have "g' = ?g2" by simp
    then show ?thesis using False g2s g2u g2v h(11) by simp
  qed
  have h7: "ops g unstickOp = Some (ZLowUnstickOp unstickInput unstickOut (Some unstickLayout))"
    using h(7) u(1) by simp
  show ?thesis
    apply (rule exI [where x = stickInput], rule exI [where x = stickRes])
    apply (rule exI [where x = stickLayout], rule exI [where x = viewOp], rule exI [where x = k])
    apply (rule exI [where x = viewSource], rule exI [where x = rest], rule exI [where x = unstickOp])
    apply (rule exI [where x = unstickInput], rule exI [where x = unstickOut])
    apply (rule exI [where x = unstickLayout], rule exI [where x = g1], rule exI [where x = "?g2"])
    using h(1-6) h7 u(2-4) h(8-10) r eff by simp
qed

theorem stick_view_unstick_removal_witness:
  "(\<exists>g'. StickViewUnstickRemovalPattern (exampleViewRoundTrip (Some ''3DS'') (Some ''3DS'') False) 15
            = Some (success, g') \<and>
         ops g' 15 = None \<and> ops g' 13 = None \<and> ops g' 16 = Some (OtherOp [OpResult 10 0] 0))
   \<and> (\<exists>g'. StickViewUnstickRemovalPattern (exampleViewRoundTrip (Some ''3DS'') (Some ''3DS'') True) 15
            = Some (success, g') \<and>
         ops g' 15 = None \<and> ops g' 13 \<noteq> None \<and> ops g' 16 = Some (OtherOp [OpResult 10 0] 0))"
proof -
  have W: "\<exists>g'. StickViewUnstickRemovalPattern (exampleViewRoundTrip (Some ''3DS'') (Some ''3DS'') r) 15
            = Some (success, g') \<and>
         ops g' 15 = None \<and> (ops g' 13 = None \<longleftrightarrow> \<not> r) \<and> ops g' 16 = Some (OtherOp [OpResult 10 0] 0)" for r
  proof -
    let ?G = "exampleViewRoundTrip (Some ''3DS'') (Some ''3DS'') r"
    obtain g' where run: "StickViewUnstickRemovalPattern ?G 15 = Some (success, g')"
      using viewRoundTrip_run [of r] by (cases "StickViewUnstickRemovalPattern ?G 15") auto
    from stick_view_unstick_removal [OF run] obtain stickInput stickRes stickLayout viewOp k viewSource
        rest unstickOp unstickInput unstickOut unstickLayout g1 g2 where
      e: "ops ?G 15 = Some (ZLowStickOp stickInput stickRes (Some stickLayout))"
         "stickInput = OpResult viewOp k" "ops ?G viewOp = Some (ViewLikeOp viewSource rest)"
         "findUnstickOfView ?G viewSource viewOp (getUsers ?G viewSource) = Some (Some unstickOp)"
         "ops ?G unstickOp = Some (ZLowUnstickOp unstickInput unstickOut (Some unstickLayout))"
         "eraseOp ?G 15 = Some g1" "replaceAllUsesWith g1 stickRes unstickInput = Some g2"
         "ops g' 15 = None"
         "\<forall>j. j \<noteq> 15 \<and> j \<noteq> viewOp \<longrightarrow> ops g' j = ops g2 j"
         "ops g' viewOp = None \<longleftrightarrow> use_empty g2 (OpResult viewOp 0)"
      by (elim exE conjE) (rule that, assumption+)
    have s: "stickInput = OpResult 13 0" "stickRes = OpResult 14 0"
      using e(1) by (simp_all add: viewRoundTrip_facts)
    then have v: "viewOp = 13" using e(2) by simp
    then have vs: "viewSource = OpResult 11 0" using e(3) by (simp add: viewRoundTrip_facts)
    have uo: "unstickOp = 12" using e(4) by (simp add: v vs viewRoundTrip_facts)
    then have x: "unstickInput = OpResult 10 0" using e(5) by (simp add: viewRoundTrip_facts)
    have g2: "g2 = moveUses g1 (OpResult 14 0) (OpResult 10 0)"
      using e(7) by (simp add: replaceAllUsesWith_Some s x)
    have "ops g' 16 = Some (OtherOp [OpResult 10 0] 0)"
      using e(9) viewRoundTrip_redirect [OF e(6)] by (simp add: g2 v)
    with run e(8,10) viewRoundTrip_view_uses [OF e(6)] show ?thesis by (auto simp: g2 v)
  qed
  from W [of False] W [of True] show ?thesis by simp
qed

subsection \<open>C10: the round-trip patterns keep the unstick\<close>

text \<open>
  Claim C10.  After a successful rewrite by UnstickStickRemovalPattern or by
  StickViewUnstickRemovalPattern, the unstick operation that the pattern matched is
  still an unstick operation of the graph, in the block it was in.
\<close>

theorem round_trip_removal_keeps_unstick:
  "(UnstickStickRemovalPattern g stickOp = Some (success, g') \<and>
      ops g stickOp = Some (ZLowStickOp stickInput stickOut stickLayout) \<and>
      findUnstickOfStick g stickInput stickOp (getUsers g stickInput) = Some (Some unstickOp)
      \<longrightarrow> isUnstick (ops g' unstickOp) \<and> getBlock g' unstickOp = getBlock g unstickOp)
   \<and> (StickViewUnstickRemovalPattern g stickOp = Some (success, g') \<and>
      ops g stickOp = Some (ZLowStickOp (OpResult viewOp k) stickRes stickLayout) \<and>
      ops g viewOp = Some (ViewLikeOp viewSource rest) \<and>
      findUnstickOfView g viewSource viewOp (getUsers g viewSource) = Some (Some unstickOp)
      \<longrightarrow> isUnstick (ops g' unstickOp) \<and> getBlock g' unstickOp = getBlock g unstickOp)"
proof (intro conjI impI)
  assume a: "UnstickStickRemovalPattern g stickOp = Some (success, g') \<and>
      ops g stickOp = Some (ZLowStickOp stickInput stickOut stickLayout) \<and>
      findUnstickOfStick g stickInput stickOp (getUsers g stickInput) = Some (Some unstickOp)"
  then obtain ux where e: "eraseOp (moveUses g stickOut ux) stickOp = Some g'"
    using UnstickStick_success [of g stickOp g' stickInput stickOut stickLayout] by auto
  from a obtain x l where u: "ops g unstickOp = Some (ZLowUnstickOp x stickInput l)"
    using findUnstickOfStick_Some by blast
  have ne: "unstickOp \<noteq> stickOp" using a u by auto
  have "ops g' unstickOp = ops (moveUses g stickOut ux) unstickOp"
    using eraseOp_Some [OF e] ne by simp
  then have 1: "isUnstick (ops g' unstickOp)"
    using u by (simp add: isUnstick_moveUses)
  have 2: "getBlock g' unstickOp = getBlock g unstickOp"
    using getBlock_eraseOp [OF e ne] by (simp add: getBlock_moveUses)
  from 1 2 show "isUnstick (ops g' unstickOp)" "getBlock g' unstickOp = getBlock g unstickOp" by simp_all
next
  assume a: "StickViewUnstickRemovalPattern g stickOp = Some (success, g') \<and>
      ops g stickOp = Some (ZLowStickOp (OpResult viewOp k) stickRes stickLayout) \<and>
      ops g viewOp = Some (ViewLikeOp viewSource rest) \<and>
      findUnstickOfView g viewSource viewOp (getUsers g viewSource) = Some (Some unstickOp)"
  then have run: "StickViewUnstickRemovalPattern g stickOp = Some (success, g')" by simp
  from StickViewUnstick_success [OF run] a obtain unstickInput g1 where
    h: "eraseOp g stickOp = Some g1"
       "if use_empty (moveUses g1 stickRes unstickInput) (OpResult viewOp 0)
        then eraseOp (moveUses g1 stickRes unstickInput) viewOp = Some g'
        else g' = moveUses g1 stickRes unstickInput"
    by auto
  from a obtain x l where u: "ops g unstickOp = Some (ZLowUnstickOp x viewSource (Some l))"
    using findUnstickOfView_Some by blast
  have ne: "unstickOp \<noteq> stickOp" "unstickOp \<noteq> viewOp" using a u by auto
  let ?g2 = "moveUses g1 stickRes unstickInput"
  have o2: "isUnstick (ops ?g2 unstickOp)"
    using eraseOp_Some [OF h(1)] ne(1) u by (simp add: isUnstick_moveUses)
  have b2: "getBlock ?g2 unstickOp = getBlock g unstickOp"
    using getBlock_eraseOp [OF h(1) ne(1)] by (simp add: getBlock_moveUses)
  have "isUnstick (ops g' unstickOp) \<and> getBlock g' unstickOp = getBlock g unstickOp"
  proof (cases "use_empty ?g2 (OpResult viewOp 0)")
    case True
    with h(2) have e: "eraseOp ?g2 viewOp = Some g'" by simp
    have "ops g' unstickOp = ops ?g2 unstickOp" using eraseOp_Some [OF e] ne(2) by simp
    with o2 b2 getBlock_eraseOp [OF e ne(2)] show ?thesis by simp
  next
    case False
    with h(2) have "g' = ?g2" by simp
    with o2 b2 show ?thesis by simp
  qed
  then show "isUnstick (ops g' unstickOp)" "getBlock g' unstickOp = getBlock g unstickOp" by simp_all
qed

theorem round_trip_removal_keeps_unstick_witness:
  "(\<exists>g'. UnstickStickRemovalPattern (exampleRoundTrip (Some ''3DS'') (Some ''3DS'')) 14 = Some (success, g') \<and>
         isUnstick (ops g' 12) \<and> getBlock g' 12 = Some 0)
   \<and> (\<exists>g'. StickViewUnstickRemovalPattern (exampleViewRoundTrip (Some ''3DS'') (Some ''3DS'') False) 15
            = Some (success, g') \<and>
         isUnstick (ops g' 12) \<and> getBlock g' 12 = Some 0)"
proof -
  obtain g1 where run1:
    "UnstickStickRemovalPattern (exampleRoundTrip (Some ''3DS'') (Some ''3DS'')) 14 = Some (success, g1)"
    using roundTrip_run [of "''3DS''"]
    by (cases "UnstickStickRemovalPattern (exampleRoundTrip (Some ''3DS'') (Some ''3DS'')) 14") auto
  obtain g2 where run2:
    "StickViewUnstickRemovalPattern (exampleViewRoundTrip (Some ''3DS'') (Some ''3DS'') False) 15
       = Some (success, g2)"
    using viewRoundTrip_run [of False]
    by (cases "StickViewUnstickRemovalPattern (exampleViewRoundTrip (Some ''3DS'') (Some ''3DS'') False) 15") auto
  have a: "isUnstick (ops g1 12) \<and> getBlock g1 12 = Some 0"
    using round_trip_removal_keeps_unstick [where g = "exampleRoundTrip (Some ''3DS'') (Some ''3DS'')"
              and stickOp = 14 and g' = g1 and stickInput = "OpResult 11 0" and stickOut = "OpResult 13 0"
              and stickLayout = "Some ''3DS''" and unstickOp = 12] run1
    by (simp add: roundTrip_facts)
  have b: "isUnstick (ops g2 12) \<and> getBlock g2 12 = Some 0"
    using round_trip_removal_keeps_unstick [where g = "exampleViewRoundTrip (Some ''3DS'') (Some ''3DS'') False"
              and stickOp = 15 and g' = g2 and viewOp = 13 and k = 0 and stickRes = "OpResult 14 0"
              and stickLayout = "Some ''3DS''" and viewSource = "OpResult 11 0" and rest = "[]"
              and unstickOp = 12] run2
    by (simp add: viewRoundTrip_facts)
  from run1 run2 a b show ?thesis by blast
qed

subsection \<open>C7: the index map of a clone under the NCHW layout\<close>

lemma shiftSymbols_0: "shiftSymbols 0 e = e"
  by (induction e) simp_all

lemma evalExpr_replaceDims:
  "evalExpr d s (replaceDims rs e) =
     evalExpr (\<lambda>i. if i < length rs then evalExpr d s (rs ! i) else d i) s e"
  by (induction e) simp_all

lemma permuteNCHW_Some:
  assumes "permuteNCHW oldMap = Some newMap"
  shows "length (mapResults oldMap) = 4"
    and "numDims newMap = numDims oldMap" and "numSymbols newMap = numSymbols oldMap"
    and "mapResults newMap = map (\<lambda>j. mapResults oldMap ! j) [0, 2, 3, 1]"
  using assms
  by (auto simp: permuteNCHW_def compose_def getPermutationMap_def shiftSymbols_0 map_idI
           split: if_splits)

lemma permuteNCHW_total:
  "permuteNCHW oldMap \<noteq> None \<longleftrightarrow> length (mapResults oldMap) = 4"
  by (simp add: permuteNCHW_def compose_def getPermutationMap_def)

lemma permuteNCHW_apply:
  assumes "permuteNCHW oldMap = Some newMap"
  shows "applyMap newMap d s = map (\<lambda>j. applyMap oldMap d s ! j) [0, 2, 3, 1]"
  using permuteNCHW_Some(1,4) [OF assms] by (simp add: applyMap_def)

text \<open>
  Claim C7 as stated fails where it says that the new map yields what the original
  map yields at the permuted tuple: for the load that reads through
  \<open>(d0, d1, d2, d3) -> (d0, d1 + 3, d2, d3)\<close>, the map of the clone sends the tuple
  \<open>(0, 1, 2, 3)\<close> to \<open>(0, 2, 3, 4)\<close>, the permutation of what the original map yields
  there, \<open>(0, 4, 2, 3)\<close>, whereas the original map sends the permuted tuple
  \<open>(0, 2, 3, 1)\<close> to \<open>(0, 5, 3, 1)\<close>.
\<close>

theorem nchw_clone_index_map_counterexample:
  "\<exists>indices newMap.
      cloneLoadOp (OpResult 10 0) True exampleLoadOp = Some (AffineLoadOp (OpResult 10 0) indices newMap)
      \<and> applyMap exampleConcatMap (indexTuple [0, 1, 2, 3]) (\<lambda>i. 0) = [0, 4, 2, 3]
      \<and> applyMap newMap (indexTuple [0, 1, 2, 3]) (\<lambda>i. 0) = [0, 2, 3, 4]
      \<and> applyMap exampleConcatMap (permuteTuple [0, 2, 3, 1] (indexTuple [0, 1, 2, 3])) (\<lambda>i. 0)
            = [0, 5, 3, 1]
      \<and> applyMap newMap (indexTuple [0, 1, 2, 3]) (\<lambda>i. 0)
            \<noteq> applyMap exampleConcatMap (permuteTuple [0, 2, 3, 1] (indexTuple [0, 1, 2, 3])) (\<lambda>i. 0)"
  by (simp add: cloneLoadOp_def exampleLoadOp_def exampleConcatMap_def permuteNCHW_def compose_def
        getPermutationMap_def applyMap_def indexTuple_def permuteTuple_def)

text \<open>
  Claim C7, amended.  When the layout is NCHW, the clone of a load or of a store exists
  exactly when the original map has four results; its map is the permutation map of
  \<open>[0, 2, 3, 1]\<close> composed with the original map, it has the dimensions and the symbols of
  the original map, and for every assignment of the dimensions and symbols it yields
  the permutation of what the original map yields: if the original map yields
  \<open>(n, c, h, w)\<close>, the map of the clone yields \<open>(n, h, w, c)\<close>.  The clone of the load reads
  the stickified memref, and the clone of the store writes the output of the stick.
\<close>

theorem nchw_clone_index_map:
  "(cloneLoadOp stickifiedMemRef True (AffineLoadOp memref indices oldMap) \<noteq> None
      \<longleftrightarrow> length (mapResults oldMap) = 4)
   \<and> (cloneStoreOp stickMemref dummyConverter True (AffineStoreOp storeValue storeMemref indices oldMap)
         \<noteq> None \<longleftrightarrow> length (mapResults oldMap) = 4)
   \<and> (\<forall>clonedOp.
         cloneLoadOp stickifiedMemRef True (AffineLoadOp memref indices oldMap) = Some clonedOp \<or>
         cloneStoreOp stickMemref dummyConverter True (AffineStoreOp storeValue storeMemref indices oldMap)
           = Some clonedOp
         \<longrightarrow> (\<exists>newMap indices'.
                (clonedOp = AffineLoadOp stickifiedMemRef indices' newMap \<or>
                 clonedOp = AffineStoreOp dummyConverter
                              (if storeMemref = storeValue then dummyConverter else stickMemref)
                              indices' newMap) \<and>
                compose (getPermutationMap [0, 2, 3, 1]) oldMap = Some newMap \<and>
                numDims newMap = numDims oldMap \<and> numSymbols newMap = numSymbols oldMap \<and>
                mapResults newMap = map (\<lambda>j. mapResults oldMap ! j) [0, 2, 3, 1] \<and>
                (\<forall>d s. applyMap newMap d s = map (\<lambda>j. applyMap oldMap d s ! j) [0, 2, 3, 1])))"
proof (intro conjI allI impI)
  show "cloneLoadOp stickifiedMemRef True (AffineLoadOp memref indices oldMap) \<noteq> None
      \<longleftrightarrow> length (mapResults oldMap) = 4"
    using permuteNCHW_total [of oldMap]
    by (cases "permuteNCHW oldMap") (simp_all add: cloneLoadOp_def)
  show "cloneStoreOp stickMemref dummyConverter True (AffineStoreOp storeValue storeMemref indices oldMap)
         \<noteq> None \<longleftrightarrow> length (mapResults oldMap) = 4"
    using permuteNCHW_total [of oldMap]
    by (cases "permuteNCHW oldMap") (simp_all add: cloneStoreOp_def)
next
  fix clonedOp
  assume a: "cloneLoadOp stickifiedMemRef True (AffineLoadOp memref indices oldMap) = Some clonedOp \<or>
         cloneStoreOp stickMemref dummyConverter True (AffineStoreOp storeValue storeMemref indices oldMap)
           = Some clonedOp"
  then obtain newMap where n: "permuteNCHW oldMap = Some newMap"
    by (cases "permuteNCHW oldMap") (auto simp: cloneLoadOp_def cloneStoreOp_def)
  from a n have c: "\<exists>indices'. clonedOp = AffineLoadOp stickifiedMemRef indices' newMap \<or>
                 clonedOp = AffineStoreOp dummyConverter
                              (if storeMemref = storeValue then dummyConverter else stickMemref)
                              indices' newMap"
    by (auto simp: cloneLoadOp_def cloneStoreOp_def)
  from n have m: "compose (getPermutationMap [0, 2, 3, 1]) oldMap = Some newMap"
    by (simp add: permuteNCHW_def)
  from c m permuteNCHW_Some(2-4) [OF n] permuteNCHW_apply [OF n]
  show "\<exists>newMap indices'.
                (clonedOp = AffineLoadOp stickifiedMemRef indices' newMap \<or>
                 clonedOp = AffineStoreOp dummyConverter
                              (if storeMemref = storeValue then dummyConverter else stickMemref)
                              indices' newMap) \<and>
                compose (getPermutationMap [0, 2, 3, 1]) oldMap = Some newMap \<and>
                numDims newMap = numDims oldMap \<and> numSymbols newMap = numSymbols oldMap \<and>
                mapResults newMap = map (\<lambda>j. mapResults oldMap ! j) [0, 2, 3, 1] \<and>
                (\<forall>d s. applyMap newMap d s = map (\<lambda>j. applyMap oldMap d s ! j) [0, 2, 3, 1])"
    by blast
qed

theorem nchw_clone_index_map_witness:
  "(\<exists>indices newMap.
      cloneLoadOp (OpResult 10 0) True exampleLoadOp = Some (AffineLoadOp (OpResult 10 0) indices newMap)
      \<and> applyMap newMap (indexTuple [0, 1, 2, 3]) (\<lambda>i. 0) = [0, 2, 3, 4])
   \<and> (\<exists>indices newMap.
      cloneStoreOp (OpResult 14 0) (OpResult 21 0) True exampleStoreOp
         = Some (AffineStoreOp (OpResult 21 0) (OpResult 14 0) indices newMap)
      \<and> applyMap newMap (indexTuple [0, 1, 2, 3]) (\<lambda>i. 0) = [0, 2, 3, 4])"
proof -
  note T = nchw_clone_index_map [where oldMap = exampleConcatMap and stickifiedMemRef = "OpResult 10 0"
      and memref = "OpResult 11 0" and stickMemref = "OpResult 14 0" and dummyConverter = "OpResult 21 0"
      and storeValue = "OpResult 20 0" and storeMemref = "OpResult 13 0"
      and indices = "[BlockArgument 1 0, BlockArgument 2 0, BlockArgument 3 0, BlockArgument 4 0]"]
  have len: "length (mapResults exampleConcatMap) = 4" by (simp add: exampleConcatMap_def)
  have old: "applyMap exampleConcatMap (indexTuple [0, 1, 2, 3]) (\<lambda>i. 0) = [0, 4, 2, 3]"
    by (simp add: exampleConcatMap_def applyMap_def indexTuple_def)
  from T len obtain l where l: "cloneLoadOp (OpResult 10 0) True exampleLoadOp = Some l"
    unfolding exampleLoadOp_def by blast
  from T len obtain st where st: "cloneStoreOp (OpResult 14 0) (OpResult 21 0) True exampleStoreOp = Some st"
    unfolding exampleStoreOp_def by blast
  have 1: "\<exists>indices newMap. l = AffineLoadOp (OpResult 10 0) indices newMap
             \<and> applyMap newMap (indexTuple [0, 1, 2, 3]) (\<lambda>i. 0) = [0, 2, 3, 4]"
  proof -
    from T l obtain newMap indices' where
      c: "l = AffineLoadOp (OpResult 10 0) indices' newMap \<or>
          l = AffineStoreOp (OpResult 21 0) (OpResult 14 0) indices' newMap"
      and ap: "\<forall>d s. applyMap newMap d s = map (\<lambda>j. applyMap exampleConcatMap d s ! j) [0, 2, 3, 1]"
      unfolding exampleLoadOp_def by fastforce
    from l have "\<exists>m i f. l = AffineLoadOp m i f"
      by (auto simp: cloneLoadOp_def exampleLoadOp_def split: Option.bind_splits)
    with c have "l = AffineLoadOp (OpResult 10 0) indices' newMap" by auto
    with ap old show ?thesis by simp
  qed
  have 2: "\<exists>indices newMap. st = AffineStoreOp (OpResult 21 0) (OpResult 14 0) indices newMap
             \<and> applyMap newMap (indexTuple [0, 1, 2, 3]) (\<lambda>i. 0) = [0, 2, 3, 4]"
  proof -
    from T st obtain newMap indices' where
      c: "st = AffineLoadOp (OpResult 10 0) indices' newMap \<or>
          st = AffineStoreOp (OpResult 21 0) (OpResult 14 0) indices' newMap"
      and ap: "\<forall>d s. applyMap newMap d s = map (\<lambda>j. applyMap exampleConcatMap d s ! j) [0, 2, 3, 1]"
      unfolding exampleStoreOp_def by fastforce
    from st have "\<exists>v m i f. st = AffineStoreOp v m i f"
      by (auto simp: cloneStoreOp_def exampleStoreOp_def split: Option.bind_splits)
    with c have "st = AffineStoreOp (OpResult 21 0) (OpResult 14 0) indices' newMap" by auto
    with ap old show ?thesis by simp
  qed
  from l st 1 2 show ?thesis by auto
qed

subsection \<open>C3: the place of the deallocation of the yielded buffer\<close>

lemma exampleAsync_run:
  "hd awaitUses \<in> {13, 14} \<Longrightarrow> awaitUses \<noteq> [] \<Longrightarrow>
   InsertDeallocForAsyncExecRegionPattern (exampleAsync awaitUses) 11 =
     Some (success, exampleAsyncRewritten awaitUses
             (if hd awaitUses = 13 then [10, 22, 11, 12, 13, 30, 31, 14]
              else [10, 22, 11, 12, 13, 14, 30, 31]))"
  by (cases awaitUses)
     (auto simp: InsertDeallocForAsyncExecRegionPattern_def exampleAsync_def exampleAsyncRewritten_def
        collectRegionAllocOps_def collectInputValues_def inputValuesOfOperand_def getBodyTerminator_def
        collectAwaitOutUsers_def nth_opt_def moveBefore_def createAfter_def getParentOp_def
        graph_defs fun_eq_iff Let_def)

text \<open>
  Claim C3 fails on \<open>exampleAsync [13, 14]\<close>.  The awaited value \<open>%12\<close> is read by the
  operations 13 and 14, which stand in this order in the block, and its use list names
  13 first.  The pattern succeeds; the deallocation 30 of the yielded buffer \<open>%22\<close> stands
  behind the operation 13 and before the operation 14, which still reads \<open>%12\<close>.  With
  the use list \<open>[14, 13]\<close> the same program gets the deallocation behind the operation 14:
  the place depends on the first entry of the use list only.
\<close>

theorem dealloc_follows_first_user_only:
  "(\<exists>g'. InsertDeallocForAsyncExecRegionPattern (exampleAsync [13, 14]) 11 = Some (success, g')
         \<and> ops g' 24 = Some (AsyncYieldOp [OpResult 22 0])
         \<and> ops g' 30 = Some (MemRefDeallocOp (OpResult 22 0))
         \<and> ops g' 12 = Some (AsyncAwaitOp (OpResult 11 1))
         \<and> ops g' 14 = Some (OtherOp [OpResult 12 0] 0)
         \<and> blockOperations g' 0 = [10, 22, 11, 12, 13, 30, 31, 14]
         \<and> isBeforeInBlock g' 30 14 = Some True)
   \<and> (\<exists>g'. InsertDeallocForAsyncExecRegionPattern (exampleAsync [14, 13]) 11 = Some (success, g')
         \<and> ops g' 30 = Some (MemRefDeallocOp (OpResult 22 0))
         \<and> blockOperations g' 0 = [10, 22, 11, 12, 13, 14, 30, 31]
         \<and> isBeforeInBlock g' 14 30 = Some True)
   \<and> blockOperations (exampleAsync [13, 14]) 0 = blockOperations (exampleAsync [14, 13]) 0
   \<and> ops (exampleAsync [13, 14]) = ops (exampleAsync [14, 13])"
proof -
  have a: "InsertDeallocForAsyncExecRegionPattern (exampleAsync [13, 14]) 11 =
             Some (success, exampleAsyncRewritten [13, 14] [10, 22, 11, 12, 13, 30, 31, 14])"
    using exampleAsync_run [of "[13, 14]"] by simp
  have b: "InsertDeallocForAsyncExecRegionPattern (exampleAsync [14, 13]) 11 =
             Some (success, exampleAsyncRewritten [14, 13] [10, 22, 11, 12, 13, 14, 30, 31])"
    using exampleAsync_run [of "[14, 13]"] by simp
  show ?thesis
    unfolding a b
    by (simp add: exampleAsyncRewritten_def exampleAsync_def graph_defs)
qed

subsection \<open>C4: the operands of the yield\<close>

text \<open>
  Claim C4 holds for a yield with more than one operand, and fails for a yield without
  operands.  When the yield of the body has more than one operand (then the execute
  operation has more than one body result), the pattern returns failure and the graph
  is the one it was given.  When the yield has no operand, the pattern reads operand 0
  of the empty operand list: it does not return failure, its behaviour is not defined.
\<close>

theorem yield_operand_count:
  assumes "ops g executeOp = Some (AsyncExecuteOp args body numBodyResults)"
      and "getBodyTerminator g body = Some yieldOp"
      and "ops g yieldOp = Some (AsyncYieldOp yieldOperands)"
  shows "(length yieldOperands > 1 \<longrightarrow>
            InsertDeallocForAsyncExecRegionPattern g executeOp = Some (failure, g))
       \<and> (yieldOperands = [] \<longrightarrow> InsertDeallocForAsyncExecRegionPattern g executeOp = None)"
  using assms by (simp add: InsertDeallocForAsyncExecRegionPattern_def nth_opt_def)

theorem yield_operand_count_witness:
  "InsertDeallocForAsyncExecRegionPattern (exampleAsyncYield [OpResult 20 0, OpResult 22 0]) 11
     = Some (failure, exampleAsyncYield [OpResult 20 0, OpResult 22 0])
   \<and> InsertDeallocForAsyncExecRegionPattern (exampleAsyncYield []) 11 = None"
proof -
  have t: "getBodyTerminator (exampleAsyncYield vs) 1 = Some 24" for vs
    by (simp add: getBodyTerminator_def exampleAsyncYield_def graph_defs)
  have e: "ops (exampleAsyncYield vs) 11 = Some (AsyncExecuteOp [] 1 (length vs))" for vs
    by (simp add: exampleAsyncYield_def)
  have y: "ops (exampleAsyncYield vs) 24 = Some (AsyncYieldOp vs)" for vs
    by (simp add: exampleAsyncYield_def)
  show ?thesis
    using yield_operand_count [OF e t y, of "[OpResult 20 0, OpResult 22 0]"]
          yield_operand_count [OF e t y, of "[]"]
    by simp
qed

end
